theory Spec2Isabelle
  imports Complex_Main
begin

section \<open>Dense tensors and the tensor operations used by the notebook\<close>

text \<open>
  A tensor is its shape together with its elements in row-major order, as a contiguous
  tensor of the tensor library is laid out.  Elements are idealised as real numbers.
  The exceptions that the notebook's functions can raise are values of \<open>error\<close>.
\<close>

record tensor =
  tshape :: "nat list"
  tdata :: "real list"

datatype error = ValueError | IndexError | RuntimeError | UnboundLocalError

definition well_formed :: "tensor \<Rightarrow> bool" where
  "well_formed t \<longleftrightarrow> length (tdata t) = prod_list (tshape t)"

definition ebind :: "error + 'a \<Rightarrow> ('a \<Rightarrow> error + 'b) \<Rightarrow> error + 'b" where
  "ebind m f = (case m of Inl e \<Rightarrow> Inl e | Inr v \<Rightarrow> f v)"

text \<open>\<open>mk s f\<close> is the tensor of shape \<open>s\<close> whose element at flat index \<open>k\<close> is \<open>f k\<close>.\<close>

definition mk :: "nat list \<Rightarrow> (nat \<Rightarrow> real) \<Rightarrow> tensor" where
  "mk s f = \<lparr>tshape = s, tdata = map f [0..<prod_list s]\<rparr>"

text \<open>\<^verbatim>\<open>torch.zeros(*s)\<close>\<close>

definition zeros :: "nat list \<Rightarrow> tensor" where
  "zeros s = mk s (\<lambda>k. 0)"

text \<open>\<^verbatim>\<open>t.unsqueeze(0)\<close>, \<^verbatim>\<open>t.unsqueeze(-1)\<close> and \<^verbatim>\<open>t.squeeze()\<close>: only the shape changes;
  \<^verbatim>\<open>squeeze()\<close> without an argument removes every dimension of size 1.\<close>

definition unsqueeze_first :: "tensor \<Rightarrow> tensor" where
  "unsqueeze_first t = t\<lparr>tshape := 1 # tshape t\<rparr>"

definition unsqueeze_last :: "tensor \<Rightarrow> tensor" where
  "unsqueeze_last t = t\<lparr>tshape := tshape t @ [1]\<rparr>"

definition squeeze :: "tensor \<Rightarrow> tensor" where
  "squeeze t = t\<lparr>tshape := filter (\<lambda>d. d \<noteq> 1) (tshape t)\<rparr>"

text \<open>\<^verbatim>\<open>t.tile(bs, 1, 1)\<close>: a tensor of fewer than three dimensions is first given leading
  dimensions of size 1; the repetition is along the third dimension from the right.\<close>

definition tile_batch :: "nat \<Rightarrow> tensor \<Rightarrow> tensor" where
  "tile_batch bs t =
     (let s = replicate (3 - length (tshape t)) 1 @ tshape t;
          m = length s - 3;
          blk = prod_list (drop m s)
      in mk (take m s @ (bs * s ! m) # drop (Suc m) s)
            (\<lambda>k. tdata t ! ((k div (bs * blk)) * blk + k mod blk)))"

text \<open>\<^verbatim>\<open>x[:, t, :]\<close>\<close>

definition select_time :: "nat \<Rightarrow> tensor \<Rightarrow> error + tensor" where
  "select_time t x =
     (case tshape x of
        s0 # s1 # s2 # rest \<Rightarrow>
          if t < s1
          then Inr (let r = prod_list (s2 # rest)
                    in mk (s0 # s2 # rest) (\<lambda>k. tdata x ! ((k div r * s1 + t) * r + k mod r)))
          else Inl IndexError
      | _ \<Rightarrow> Inl IndexError)"

text \<open>\<^verbatim>\<open>torch.bmm(a, b)\<close>: both arguments must be three-dimensional, with equal batch sizes
  and matching inner dimensions.\<close>

definition bmm :: "tensor \<Rightarrow> tensor \<Rightarrow> error + tensor" where
  "bmm a b =
     (case (tshape a, tshape b) of
        ([ba, n, m], [bb, m', p]) \<Rightarrow>
          if ba = bb \<and> m = m'
          then Inr (mk [ba, n, p]
                 (\<lambda>k. sum_list (map (\<lambda>l. tdata a ! ((k div (n * p) * n + k div p mod n) * m + l)
                                        * tdata b ! ((k div (n * p) * m + l) * p + k mod p))
                                 [0..<m])))
          else Inl RuntimeError
      | _ \<Rightarrow> Inl RuntimeError)"

text \<open>\<^verbatim>\<open>t.reshape(*new)\<close>\<close>

definition reshape :: "nat list \<Rightarrow> tensor \<Rightarrow> error + tensor" where
  "reshape new t =
     (if prod_list (tshape t) = prod_list new then Inr (t\<lparr>tshape := new\<rparr>)
      else Inl RuntimeError)"

text \<open>Broadcasting of two shapes, aligned at their last dimensions (the lists are reversed
  here), and the flat index into an operand of shape \<open>s\<close> for a flat index into the
  broadcast result.\<close>

fun bshape_rev :: "nat list \<Rightarrow> nat list \<Rightarrow> nat list option" where
  "bshape_rev [] ys = Some ys"
| "bshape_rev (x # xs) [] = Some (x # xs)"
| "bshape_rev (x # xs) (y # ys) =
     (if x = y \<or> y = 1 then map_option ((#) x) (bshape_rev xs ys)
      else if x = 1 then map_option ((#) y) (bshape_rev xs ys)
      else None)"

definition broadcast_shapes :: "nat list \<Rightarrow> nat list \<Rightarrow> nat list option" where
  "broadcast_shapes a b = map_option rev (bshape_rev (rev a) (rev b))"

fun bidx_rev :: "nat list \<Rightarrow> nat list \<Rightarrow> nat \<Rightarrow> nat" where
  "bidx_rev (n # ns) (d # ds) k = (if d = 1 then 0 else k mod n) + d * bidx_rev ns ds (k div n)"
| "bidx_rev ns [] k = 0"
| "bidx_rev [] (d # ds) k = 0"

definition bidx :: "nat list \<Rightarrow> nat list \<Rightarrow> nat \<Rightarrow> nat" where
  "bidx out s k = bidx_rev (rev out) (rev s) k"

text \<open>An element-wise binary operation with broadcasting (\<^verbatim>\<open>a + b\<close>, \<^verbatim>\<open>a * b\<close>).\<close>

definition binop :: "(real \<Rightarrow> real \<Rightarrow> real) \<Rightarrow> tensor \<Rightarrow> tensor \<Rightarrow> error + tensor" where
  "binop f a b =
     (case broadcast_shapes (tshape a) (tshape b) of
        None \<Rightarrow> Inl RuntimeError
      | Some s \<Rightarrow> Inr (mk s (\<lambda>k. f (tdata a ! bidx s (tshape a) k)
                                   (tdata b ! bidx s (tshape b) k))))"

definition tadd :: "tensor \<Rightarrow> tensor \<Rightarrow> error + tensor" where
  "tadd = binop (+)"

definition tmul :: "tensor \<Rightarrow> tensor \<Rightarrow> error + tensor" where
  "tmul = binop (*)"

text \<open>An element-wise unary operation (\<^verbatim>\<open>torch.sigmoid\<close>, \<^verbatim>\<open>torch.tanh\<close>, \<^verbatim>\<open>1 - z\<close>).\<close>

definition tmap :: "(real \<Rightarrow> real) \<Rightarrow> tensor \<Rightarrow> tensor" where
  "tmap f t = t\<lparr>tdata := map f (tdata t)\<rparr>"

definition sigmoid :: "real \<Rightarrow> real" where
  "sigmoid x = 1 / (1 + exp (- x))"

text \<open>\<^verbatim>\<open>t[:, lo:hi]\<close> (\<open>hi = None\<close> for \<^verbatim>\<open>t[:, lo:]\<close>) needs at least two dimensions;
  \<^verbatim>\<open>t[lo:hi]\<close> needs at least one.  Slice bounds are clamped to the dimension's size.\<close>

definition slice_cols :: "nat \<Rightarrow> nat option \<Rightarrow> tensor \<Rightarrow> error + tensor" where
  "slice_cols lo hi t =
     (case tshape t of
        s0 # s1 # rest \<Rightarrow>
          Inr (let start = min lo s1;
                   stop = (case hi of None \<Rightarrow> s1 | Some h \<Rightarrow> min h s1);
                   len = stop - start;
                   r = prod_list rest
               in mk (s0 # len # rest)
                     (\<lambda>k. tdata t ! ((k div (len * r) * s1 + start + k div r mod len) * r + k mod r)))
      | _ \<Rightarrow> Inl IndexError)"

definition slice_rows :: "nat \<Rightarrow> nat option \<Rightarrow> tensor \<Rightarrow> error + tensor" where
  "slice_rows lo hi t =
     (case tshape t of
        s0 # rest \<Rightarrow>
          Inr (let start = min lo s0;
                   stop = (case hi of None \<Rightarrow> s0 | Some h \<Rightarrow> min h s0);
                   len = stop - start;
                   r = prod_list rest
               in mk (len # rest) (\<lambda>k. tdata t ! (start * r + k)))
      | [] \<Rightarrow> Inl IndexError)"

text \<open>\<^verbatim>\<open>out[:, t, :] = v\<close>: leading dimensions of size 1 of \<open>v\<close> are dropped, and what is
  left must expand to the shape of the slot that is assigned.\<close>

definition setitem_time :: "tensor \<Rightarrow> nat \<Rightarrow> tensor \<Rightarrow> error + tensor" where
  "setitem_time out t v =
     (case tshape out of
        s0 # s1 # s2 # rest \<Rightarrow>
          if t < s1
          then (let dst = s0 # s2 # rest;
                    src = dropWhile (\<lambda>d. d = 1) (tshape v);
                    r = prod_list (s2 # rest)
                in if broadcast_shapes src dst = Some dst
                   then Inr (mk (tshape out)
                          (\<lambda>k. if k div r mod s1 = t
                               then tdata v ! bidx dst src (k div (s1 * r) * r + k mod r)
                               else tdata out ! k))
                   else Inl RuntimeError)
          else Inl IndexError
      | _ \<Rightarrow> Inl IndexError)"

text \<open>\<^verbatim>\<open>for t in range(T)\<close> with a body that may raise.\<close>

fun eloop :: "(nat \<Rightarrow> 's \<Rightarrow> error + 's) \<Rightarrow> nat list \<Rightarrow> 's \<Rightarrow> error + 's" where
  "eloop body [] s = Inr s"
| "eloop body (t # ts) s = ebind (body t s) (eloop body ts)"

section \<open>The plain LSTM forward pass\<close>

text \<open>The body of the time loop of the first \<^verbatim>\<open>lstm_forward\<close>; the state is
  \<open>(prev_h, prev_c, output_h)\<close>.\<close>

definition lstm_step ::
  "tensor \<Rightarrow> nat \<Rightarrow> nat \<Rightarrow> tensor \<Rightarrow> tensor \<Rightarrow> tensor \<Rightarrow> tensor \<Rightarrow> nat
     \<Rightarrow> tensor \<times> tensor \<times> tensor \<Rightarrow> error + tensor \<times> tensor \<times> tensor" where
  "lstm_step data bs h_size batch_w_ih batch_w_hh b_ih b_hh t st =
     (case st of (prev_h, prev_c, output_h) \<Rightarrow>
      ebind (select_time t data) (\<lambda>x.
      ebind (bmm batch_w_ih (unsqueeze_last x)) (\<lambda>w_times_x.
      ebind (reshape [bs, h_size] prev_h) (\<lambda>h2.
      ebind (bmm batch_w_hh (unsqueeze_last h2)) (\<lambda>w_times_prev_h.
      ebind (tadd (squeeze w_times_x) b_ih) (\<lambda>s1.
      ebind (tadd s1 (squeeze w_times_prev_h)) (\<lambda>s2.
      ebind (tadd s2 b_hh) (\<lambda>all_before_activating.
      ebind (slice_cols 0 (Some h_size) all_before_activating) (\<lambda>zi.
      ebind (slice_cols h_size (Some (2 * h_size)) all_before_activating) (\<lambda>zf.
      ebind (slice_cols (2 * h_size) (Some (3 * h_size)) all_before_activating) (\<lambda>zg.
      ebind (slice_cols (3 * h_size) None all_before_activating) (\<lambda>zo.
      let i_t = tmap sigmoid zi; f_t = tmap sigmoid zf;
          g_t = tmap tanh zg; o_t = tmap sigmoid zo in
      ebind (tmul f_t prev_c) (\<lambda>fc.
      ebind (tmul i_t g_t) (\<lambda>ig.
      ebind (tadd fc ig) (\<lambda>new_c.
      ebind (tmul o_t (tmap tanh new_c)) (\<lambda>new_h.
      ebind (setitem_time output_h t new_h) (\<lambda>output_h'.
      Inr (new_h, new_c, output_h'))))))))))))))))))"

text \<open>The values of the non-linear functions in one iteration of that loop: the local variables
  \<^verbatim>\<open>i_t\<close>, \<^verbatim>\<open>f_t\<close>, \<^verbatim>\<open>g_t\<close> and \<^verbatim>\<open>o_t\<close>, and the value of \<^verbatim>\<open>torch.tanh(prev_c)\<close> at the new
  cell state.  This is the loop body up to the assignment of \<^verbatim>\<open>prev_c\<close>, returning these
  five tensors instead of the new state (see \<open>lstm_step_activations_step\<close> below).\<close>

definition lstm_step_activations ::
  "tensor \<Rightarrow> nat \<Rightarrow> nat \<Rightarrow> tensor \<Rightarrow> tensor \<Rightarrow> tensor \<Rightarrow> tensor \<Rightarrow> nat
     \<Rightarrow> tensor \<times> tensor \<times> tensor \<Rightarrow> error + tensor \<times> tensor \<times> tensor \<times> tensor \<times> tensor" where
  "lstm_step_activations data bs h_size batch_w_ih batch_w_hh b_ih b_hh t st =
     (case st of (prev_h, prev_c, output_h) \<Rightarrow>
      ebind (select_time t data) (\<lambda>x.
      ebind (bmm batch_w_ih (unsqueeze_last x)) (\<lambda>w_times_x.
      ebind (reshape [bs, h_size] prev_h) (\<lambda>h2.
      ebind (bmm batch_w_hh (unsqueeze_last h2)) (\<lambda>w_times_prev_h.
      ebind (tadd (squeeze w_times_x) b_ih) (\<lambda>s1.
      ebind (tadd s1 (squeeze w_times_prev_h)) (\<lambda>s2.
      ebind (tadd s2 b_hh) (\<lambda>all_before_activating.
      ebind (slice_cols 0 (Some h_size) all_before_activating) (\<lambda>zi.
      ebind (slice_cols h_size (Some (2 * h_size)) all_before_activating) (\<lambda>zf.
      ebind (slice_cols (2 * h_size) (Some (3 * h_size)) all_before_activating) (\<lambda>zg.
      ebind (slice_cols (3 * h_size) None all_before_activating) (\<lambda>zo.
      let i_t = tmap sigmoid zi; f_t = tmap sigmoid zf;
          g_t = tmap tanh zg; o_t = tmap sigmoid zo in
      ebind (tmul f_t prev_c) (\<lambda>fc.
      ebind (tmul i_t g_t) (\<lambda>ig.
      ebind (tadd fc ig) (\<lambda>new_c.
      Inr (i_t, f_t, g_t, o_t, tmap tanh new_c))))))))))))))))"

text \<open>\<^verbatim>\<open>lstm_forward(data, initial_states, w_ih, w_hh, b_ih, b_hh)\<close> as first defined in the
  notebook.  The result is \<open>(output_h, (prev_h, prev_c))\<close>.\<close>

definition lstm_forward ::
  "tensor \<Rightarrow> tensor \<times> tensor \<Rightarrow> tensor \<Rightarrow> tensor \<Rightarrow> tensor \<Rightarrow> tensor
     \<Rightarrow> error + tensor \<times> tensor \<times> tensor" where
  "lstm_forward data initial_states w_ih w_hh b_ih b_hh =
     (case initial_states of (h0, c0) \<Rightarrow>
      (case tshape data of
         [bs, T, i_size] \<Rightarrow>
           (case tshape w_ih of
              [] \<Rightarrow> Inl IndexError
            | rows # _ \<Rightarrow>
                let h_size = rows div 4;
                    batch_w_ih = tile_batch bs (unsqueeze_first w_ih);
                    batch_w_hh = tile_batch bs (unsqueeze_first w_hh);
                    output_size = h_size;
                    output_h = zeros [bs, T, output_size]
                in ebind (eloop (lstm_step data bs h_size batch_w_ih batch_w_hh b_ih b_hh)
                                [0..<T] (h0, c0, output_h))
                     (\<lambda>(prev_h, prev_c, output_h). Inr (output_h, (prev_h, prev_c))))
       | _ \<Rightarrow> Inl ValueError))"

section \<open>The LSTM forward pass with an optional projection\<close>

text \<open>The body of the time loop of the second \<^verbatim>\<open>lstm_forward\<close>.  The local variables
  \<^verbatim>\<open>p_size\<close> and \<^verbatim>\<open>batch_w_hr\<close> are bound only when \<^verbatim>\<open>w_hr\<close> is not \<^verbatim>\<open>None\<close>: \<open>proj\<close> is
  \<open>Some (p_size, batch_w_hr)\<close> then, and \<open>None\<close> otherwise, where reading \<^verbatim>\<open>p_size\<close>
  raises.\<close>

definition lstm_proj_step ::
  "tensor \<Rightarrow> nat \<Rightarrow> nat \<Rightarrow> (nat \<times> tensor) option \<Rightarrow> tensor \<Rightarrow> tensor \<Rightarrow> tensor \<Rightarrow> tensor
     \<Rightarrow> nat \<Rightarrow> tensor \<times> tensor \<times> tensor \<Rightarrow> error + tensor \<times> tensor \<times> tensor" where
  "lstm_proj_step data bs h_size proj batch_w_ih batch_w_hh b_ih b_hh t st =
     (case st of (prev_h, prev_c, output_h) \<Rightarrow>
      ebind (select_time t data) (\<lambda>x.
      ebind (bmm batch_w_ih (unsqueeze_last x)) (\<lambda>w_times_x.
      ebind (case proj of None \<Rightarrow> Inl UnboundLocalError
             | Some (p_size, batch_w_hr) \<Rightarrow> reshape [bs, p_size] prev_h) (\<lambda>h2.
      ebind (bmm batch_w_hh (unsqueeze_last h2)) (\<lambda>w_times_prev_h.
      ebind (tadd (squeeze w_times_x) b_ih) (\<lambda>s1.
      ebind (tadd s1 (squeeze w_times_prev_h)) (\<lambda>s2.
      ebind (tadd s2 b_hh) (\<lambda>all_before_activating.
      ebind (slice_cols 0 (Some h_size) all_before_activating) (\<lambda>zi.
      ebind (slice_cols h_size (Some (2 * h_size)) all_before_activating) (\<lambda>zf.
      ebind (slice_cols (2 * h_size) (Some (3 * h_size)) all_before_activating) (\<lambda>zg.
      ebind (slice_cols (3 * h_size) None all_before_activating) (\<lambda>zo.
      let i_t = tmap sigmoid zi; f_t = tmap sigmoid zf;
          g_t = tmap tanh zg; o_t = tmap sigmoid zo in
      ebind (tmul f_t prev_c) (\<lambda>fc.
      ebind (tmul i_t g_t) (\<lambda>ig.
      ebind (tadd fc ig) (\<lambda>new_c.
      ebind (tmul o_t (tmap tanh new_c)) (\<lambda>full_h.
      ebind (case proj of None \<Rightarrow> Inr full_h
             | Some (p_size, batch_w_hr) \<Rightarrow>
                 ebind (bmm batch_w_hr (unsqueeze_last (squeeze full_h)))
                   (\<lambda>ph. Inr (squeeze ph))) (\<lambda>new_h.
      ebind (setitem_time output_h t new_h) (\<lambda>output_h'.
      Inr (new_h, new_c, output_h')))))))))))))))))))"

text \<open>\<^verbatim>\<open>lstm_forward(data, initial_states, w_ih, w_hh, b_ih, b_hh, w_hr=None)\<close>, the
  notebook's second definition of that name.\<close>

definition lstm_forward_proj ::
  "tensor \<Rightarrow> tensor \<times> tensor \<Rightarrow> tensor \<Rightarrow> tensor \<Rightarrow> tensor \<Rightarrow> tensor \<Rightarrow> tensor option
     \<Rightarrow> error + tensor \<times> tensor \<times> tensor" where
  "lstm_forward_proj data initial_states w_ih w_hh b_ih b_hh w_hr =
     (case initial_states of (h0, c0) \<Rightarrow>
      (case tshape data of
         [bs, T, i_size] \<Rightarrow>
           (case tshape w_ih of
              [] \<Rightarrow> Inl IndexError
            | rows # _ \<Rightarrow>
                let h_size = rows div 4;
                    batch_w_ih = tile_batch bs (unsqueeze_first w_ih);
                    batch_w_hh = tile_batch bs (unsqueeze_first w_hh)
                in ebind (case w_hr of
                            None \<Rightarrow> Inr (h_size, None)
                          | Some w \<Rightarrow>
                              (case tshape w of
                                 [] \<Rightarrow> Inl IndexError
                               | p_size # _ \<Rightarrow>
                                   Inr (p_size, Some (p_size, tile_batch bs (unsqueeze_first w)))))
                     (\<lambda>(output_size, proj).
                        let output_h = zeros [bs, T, output_size]
                        in ebind (eloop (lstm_proj_step data bs h_size proj
                                           batch_w_ih batch_w_hh b_ih b_hh)
                                        [0..<T] (h0, c0, output_h))
                             (\<lambda>(prev_h, prev_c, output_h).
                                ebind (reshape [1, bs, output_size] prev_h)
                                  (\<lambda>h_final. Inr (output_h, (h_final, prev_c))))))
       | _ \<Rightarrow> Inl ValueError))"

section \<open>The GRU forward pass\<close>

text \<open>The body of the time loop of \<^verbatim>\<open>gru_forward\<close>; the state is \<open>(prev_h, output_h)\<close>.\<close>

definition gru_step ::
  "tensor \<Rightarrow> nat \<Rightarrow> nat \<Rightarrow> tensor \<Rightarrow> tensor \<Rightarrow> tensor \<Rightarrow> tensor \<Rightarrow> nat
     \<Rightarrow> tensor \<times> tensor \<Rightarrow> error + tensor \<times> tensor" where
  "gru_step data bs h_size batch_w_ih batch_w_hh b_ih b_hh t st =
     (case st of (prev_h, output_h) \<Rightarrow>
      ebind (select_time t data) (\<lambda>x.
      ebind (bmm batch_w_ih (unsqueeze_last x)) (\<lambda>w_times_x.
      ebind (reshape [bs, h_size] prev_h) (\<lambda>h2.
      ebind (bmm batch_w_hh (unsqueeze_last h2)) (\<lambda>w_times_prev_h.
      ebind (slice_cols 0 (Some (2 * h_size)) (squeeze w_times_x)) (\<lambda>x_rz.
      ebind (slice_rows 0 (Some (2 * h_size)) b_ih) (\<lambda>b_ih_rz.
      ebind (tadd x_rz b_ih_rz) (\<lambda>s1.
      ebind (slice_cols 0 (Some (2 * h_size)) (squeeze w_times_prev_h)) (\<lambda>h_rz.
      ebind (tadd s1 h_rz) (\<lambda>s2.
      ebind (slice_rows 0 (Some (2 * h_size)) b_hh) (\<lambda>b_hh_rz.
      ebind (tadd s2 b_hh_rz) (\<lambda>r_z_before_activating.
      ebind (slice_cols 0 (Some h_size) r_z_before_activating) (\<lambda>zr.
      ebind (slice_cols h_size (Some (2 * h_size)) r_z_before_activating) (\<lambda>zz.
      let r_t = tmap sigmoid zr; z_t = tmap sigmoid zz in
      ebind (slice_cols (2 * h_size) None (squeeze w_times_x)) (\<lambda>x_n.
      ebind (slice_rows (2 * h_size) None b_ih) (\<lambda>b_ih_n.
      ebind (tadd x_n b_ih_n) (\<lambda>n1.
      ebind (slice_cols (2 * h_size) None (squeeze w_times_prev_h)) (\<lambda>h_n.
      ebind (slice_rows (2 * h_size) None b_hh) (\<lambda>b_hh_n.
      ebind (tadd h_n b_hh_n) (\<lambda>n2.
      ebind (tmul r_t n2) (\<lambda>n3.
      ebind (tadd n1 n3) (\<lambda>n4.
      let n_t = tmap tanh n4 in
      ebind (tmul (tmap (\<lambda>z. 1 - z) z_t) n_t) (\<lambda>u1.
      ebind (tmul z_t prev_h) (\<lambda>u2.
      ebind (tadd u1 u2) (\<lambda>new_h.
      ebind (setitem_time output_h t new_h) (\<lambda>output_h'.
      Inr (new_h, output_h')))))))))))))))))))))))))))"

text \<open>\<^verbatim>\<open>gru_forward(data, initial_states, w_ih, w_hh, b_ih, b_hh)\<close>; the result is
  \<open>(output_h, prev_h)\<close>.\<close>

definition gru_forward ::
  "tensor \<Rightarrow> tensor \<Rightarrow> tensor \<Rightarrow> tensor \<Rightarrow> tensor \<Rightarrow> tensor \<Rightarrow> error + tensor \<times> tensor" where
  "gru_forward data initial_states w_ih w_hh b_ih b_hh =
     (let h0 = initial_states in
      (case tshape data of
         [bs, T, i_size] \<Rightarrow>
           (case tshape w_ih of
              [] \<Rightarrow> Inl IndexError
            | rows # _ \<Rightarrow>
                let h_size = rows div 3;
                    batch_w_ih = tile_batch bs (unsqueeze_first w_ih);
                    batch_w_hh = tile_batch bs (unsqueeze_first w_hh);
                    output_size = h_size;
                    output_h = zeros [bs, T, output_size]
                in ebind (eloop (gru_step data bs h_size batch_w_ih batch_w_hh b_ih b_hh)
                                [0..<T] (h0, output_h))
                     (\<lambda>(prev_h, output_h). Inr (output_h, prev_h)))
       | _ \<Rightarrow> Inl ValueError))"

text \<open>\<open>of_rows s n u\<close> is the tensor of shape \<open>s\<close> whose \<open>i\<close>-th group of \<open>n\<close> consecutive
  elements is the vector \<open>u i\<close>; \<open>of_vector\<close> is a one-dimensional tensor.\<close>

definition of_rows :: "nat list \<Rightarrow> nat \<Rightarrow> (nat \<Rightarrow> real list) \<Rightarrow> tensor" where
  "of_rows s n u = mk s (\<lambda>k. u (k div n) ! (k mod n))"

definition of_vector :: "real list \<Rightarrow> tensor" where
  "of_vector xs = \<lparr>tshape = [length xs], tdata = xs\<rparr>"

section \<open>Fragments of the loop bodies\<close>

text \<open>The loop bodies above are compositions of the following fragments (see
  \<open>lstm_step_fragments\<close>, \<open>lstm_proj_step_fragments\<close> and \<open>gru_step_fragments\<close> below):
  the two batched matrix-vector products, the LSTM gates and state update (and, for
  \<open>lstm_step_activations\<close>, the values of the gates), the optional projection, and the GRU
  gates and state update.\<close>

definition rnn_products ::
  "tensor \<Rightarrow> nat \<Rightarrow> nat \<Rightarrow> tensor \<Rightarrow> tensor \<Rightarrow> nat \<Rightarrow> tensor \<Rightarrow> error + tensor \<times> tensor" where
  "rnn_products data bs p batch_w_ih batch_w_hh t prev_h =
      ebind (select_time t data) (\<lambda>x.
      ebind (bmm batch_w_ih (unsqueeze_last x)) (\<lambda>w_times_x.
      ebind (reshape [bs, p] prev_h) (\<lambda>h2.
      ebind (bmm batch_w_hh (unsqueeze_last h2)) (\<lambda>w_times_prev_h.
      Inr (w_times_x, w_times_prev_h)))))"

definition lstm_gates ::
  "nat \<Rightarrow> tensor \<Rightarrow> tensor \<Rightarrow> tensor \<Rightarrow> tensor \<Rightarrow> tensor \<Rightarrow> error + tensor \<times> tensor" where
  "lstm_gates h_size w_times_x w_times_prev_h b_ih b_hh prev_c =
      ebind (tadd (squeeze w_times_x) b_ih) (\<lambda>s1.
      ebind (tadd s1 (squeeze w_times_prev_h)) (\<lambda>s2.
      ebind (tadd s2 b_hh) (\<lambda>all_before_activating.
      ebind (slice_cols 0 (Some h_size) all_before_activating) (\<lambda>zi.
      ebind (slice_cols h_size (Some (2 * h_size)) all_before_activating) (\<lambda>zf.
      ebind (slice_cols (2 * h_size) (Some (3 * h_size)) all_before_activating) (\<lambda>zg.
      ebind (slice_cols (3 * h_size) None all_before_activating) (\<lambda>zo.
      let i_t = tmap sigmoid zi; f_t = tmap sigmoid zf;
          g_t = tmap tanh zg; o_t = tmap sigmoid zo in
      ebind (tmul f_t prev_c) (\<lambda>fc.
      ebind (tmul i_t g_t) (\<lambda>ig.
      ebind (tadd fc ig) (\<lambda>new_c.
      ebind (tmul o_t (tmap tanh new_c)) (\<lambda>new_h.
      Inr (new_h, new_c))))))))))))"

definition lstm_gate_values ::
  "nat \<Rightarrow> tensor \<Rightarrow> tensor \<Rightarrow> tensor \<Rightarrow> tensor \<Rightarrow> tensor
     \<Rightarrow> error + tensor \<times> tensor \<times> tensor \<times> tensor \<times> tensor" where
  "lstm_gate_values h_size w_times_x w_times_prev_h b_ih b_hh prev_c =
      ebind (tadd (squeeze w_times_x) b_ih) (\<lambda>s1.
      ebind (tadd s1 (squeeze w_times_prev_h)) (\<lambda>s2.
      ebind (tadd s2 b_hh) (\<lambda>all_before_activating.
      ebind (slice_cols 0 (Some h_size) all_before_activating) (\<lambda>zi.
      ebind (slice_cols h_size (Some (2 * h_size)) all_before_activating) (\<lambda>zf.
      ebind (slice_cols (2 * h_size) (Some (3 * h_size)) all_before_activating) (\<lambda>zg.
      ebind (slice_cols (3 * h_size) None all_before_activating) (\<lambda>zo.
      let i_t = tmap sigmoid zi; f_t = tmap sigmoid zf;
          g_t = tmap tanh zg; o_t = tmap sigmoid zo in
      ebind (tmul f_t prev_c) (\<lambda>fc.
      ebind (tmul i_t g_t) (\<lambda>ig.
      ebind (tadd fc ig) (\<lambda>new_c.
      Inr (i_t, f_t, g_t, o_t, tmap tanh new_c)))))))))))"

definition lstm_project :: "tensor \<Rightarrow> tensor \<Rightarrow> error + tensor" where
  "lstm_project batch_w_hr full_h =
      ebind (bmm batch_w_hr (unsqueeze_last (squeeze full_h))) (\<lambda>ph. Inr (squeeze ph))"

definition gru_gates ::
  "nat \<Rightarrow> tensor \<Rightarrow> tensor \<Rightarrow> tensor \<Rightarrow> tensor \<Rightarrow> tensor \<Rightarrow> error + tensor" where
  "gru_gates h_size w_times_x w_times_prev_h b_ih b_hh prev_h =
      ebind (slice_cols 0 (Some (2 * h_size)) (squeeze w_times_x)) (\<lambda>x_rz.
      ebind (slice_rows 0 (Some (2 * h_size)) b_ih) (\<lambda>b_ih_rz.
      ebind (tadd x_rz b_ih_rz) (\<lambda>s1.
      ebind (slice_cols 0 (Some (2 * h_size)) (squeeze w_times_prev_h)) (\<lambda>h_rz.
      ebind (tadd s1 h_rz) (\<lambda>s2.
      ebind (slice_rows 0 (Some (2 * h_size)) b_hh) (\<lambda>b_hh_rz.
      ebind (tadd s2 b_hh_rz) (\<lambda>r_z_before_activating.
      ebind (slice_cols 0 (Some h_size) r_z_before_activating) (\<lambda>zr.
      ebind (slice_cols h_size (Some (2 * h_size)) r_z_before_activating) (\<lambda>zz.
      let r_t = tmap sigmoid zr; z_t = tmap sigmoid zz in
      ebind (slice_cols (2 * h_size) None (squeeze w_times_x)) (\<lambda>x_n.
      ebind (slice_rows (2 * h_size) None b_ih) (\<lambda>b_ih_n.
      ebind (tadd x_n b_ih_n) (\<lambda>n1.
      ebind (slice_cols (2 * h_size) None (squeeze w_times_prev_h)) (\<lambda>h_n.
      ebind (slice_rows (2 * h_size) None b_hh) (\<lambda>b_hh_n.
      ebind (tadd h_n b_hh_n) (\<lambda>n2.
      ebind (tmul r_t n2) (\<lambda>n3.
      ebind (tadd n1 n3) (\<lambda>n4.
      let n_t = tmap tanh n4 in
      ebind (tmul (tmap (\<lambda>z. 1 - z) z_t) n_t) (\<lambda>u1.
      ebind (tmul z_t prev_h) (\<lambda>u2.
      tadd u1 u2)))))))))))))))))))"

section \<open>The recurrences as the specification words them\<close>

text \<open>Vectors are lists of reals and matrices are lists of rows.  \<open>row n i t\<close> is the
  \<open>i\<close>-th group of \<open>n\<close> consecutive elements of a tensor, that is row \<open>i\<close> of a tensor
  whose last dimension is \<open>n\<close>; \<open>block H k z\<close> is the \<open>k\<close>-th \<open>H\<close>-wide block of a vector.\<close>

definition row :: "nat \<Rightarrow> nat \<Rightarrow> tensor \<Rightarrow> real list" where
  "row n i t = take n (drop (i * n) (tdata t))"

definition matrix_rows :: "nat \<Rightarrow> nat \<Rightarrow> tensor \<Rightarrow> real list list" where
  "matrix_rows r c t = map (\<lambda>i. row c i t) [0..<r]"

definition block :: "nat \<Rightarrow> nat \<Rightarrow> real list \<Rightarrow> real list" where
  "block H k z = take H (drop (k * H) z)"

definition dot :: "real list \<Rightarrow> real list \<Rightarrow> real" where
  "dot u v = sum_list (map2 (*) u v)"

definition matvec :: "real list list \<Rightarrow> real list \<Rightarrow> real list" where
  "matvec W x = map (\<lambda>r. dot r x) W"

definition vadd :: "real list \<Rightarrow> real list \<Rightarrow> real list" where
  "vadd u v = map2 (+) u v"

definition vmul :: "real list \<Rightarrow> real list \<Rightarrow> real list" where
  "vmul u v = map2 (*) u v"

text \<open>Section 4.1, step 1: \<open>z_t = W_ih\<cdot>x_t + b_ih + W_hh\<cdot>h_{t-1} + b_hh\<close>.\<close>

definition lstm_z_spec ::
  "real list list \<Rightarrow> real list list \<Rightarrow> real list \<Rightarrow> real list \<Rightarrow> real list \<Rightarrow> real list
     \<Rightarrow> real list" where
  "lstm_z_spec W_ih W_hh b_ih b_hh x h =
     vadd (vadd (vadd (matvec W_ih x) b_ih) (matvec W_hh h)) b_hh"

text \<open>Section 4.1, steps 2 to 4: the four blocks of \<open>z_t\<close> in the order input, forget,
  cell candidate, output; \<open>c_t = f_t \<odot> c_{t-1} + i_t \<odot> g_t\<close> and \<open>h_t = o_t \<odot> tanh c_t\<close>.
  The result is \<open>(h_t, c_t)\<close>.\<close>

definition lstm_update_spec :: "nat \<Rightarrow> real list \<Rightarrow> real list \<Rightarrow> real list \<times> real list" where
  "lstm_update_spec H z c =
     (let i_t = map sigmoid (block H 0 z);
          f_t = map sigmoid (block H 1 z);
          g_t = map tanh (block H 2 z);
          o_t = map sigmoid (block H 3 z);
          c_t = vadd (vmul f_t c) (vmul i_t g_t);
          h_t = vmul o_t (map tanh c_t)
      in (h_t, c_t))"

definition lstm_cell_spec ::
  "nat \<Rightarrow> real list list \<Rightarrow> real list list \<Rightarrow> real list \<Rightarrow> real list
     \<Rightarrow> real list \<times> real list \<Rightarrow> real list \<Rightarrow> real list \<times> real list" where
  "lstm_cell_spec H W_ih W_hh b_ih b_hh s x =
     lstm_update_spec H (lstm_z_spec W_ih W_hh b_ih b_hh x (fst s)) (snd s)"

text \<open>The state \<open>(h, c)\<close> after the first \<open>n\<close> inputs of a sequence.\<close>

definition lstm_state_spec ::
  "nat \<Rightarrow> real list list \<Rightarrow> real list list \<Rightarrow> real list \<Rightarrow> real list
     \<Rightarrow> real list list \<Rightarrow> real list \<times> real list \<Rightarrow> nat \<Rightarrow> real list \<times> real list" where
  "lstm_state_spec H W_ih W_hh b_ih b_hh xs s n =
     foldl (lstm_cell_spec H W_ih W_hh b_ih b_hh) s (take n xs)"

text \<open>Section 4.2: with a projection, \<open>h_t\<close> is computed as in section 4.1 and then replaced
  by \<open>W_hr\<cdot>h_t\<close>; the cell state is not projected.\<close>

definition lstmp_cell_spec ::
  "nat \<Rightarrow> real list list \<Rightarrow> real list list \<Rightarrow> real list \<Rightarrow> real list \<Rightarrow> real list list
     \<Rightarrow> real list \<times> real list \<Rightarrow> real list \<Rightarrow> real list \<times> real list" where
  "lstmp_cell_spec H W_ih W_hh b_ih b_hh W_hr s x =
     (let s' = lstm_cell_spec H W_ih W_hh b_ih b_hh s x in (matvec W_hr (fst s'), snd s'))"

definition lstmp_state_spec ::
  "nat \<Rightarrow> real list list \<Rightarrow> real list list \<Rightarrow> real list \<Rightarrow> real list \<Rightarrow> real list list
     \<Rightarrow> real list list \<Rightarrow> real list \<times> real list \<Rightarrow> nat \<Rightarrow> real list \<times> real list" where
  "lstmp_state_spec H W_ih W_hh b_ih b_hh W_hr xs s n =
     foldl (lstmp_cell_spec H W_ih W_hh b_ih b_hh W_hr) s (take n xs)"

text \<open>Section 4.3: \<open>p_t = W_ih\<cdot>x_t + b_ih\<close>, \<open>q_t = W_hh\<cdot>h_{t-1} + b_hh\<close>,
  \<open>r_t = sigmoid (p_t[0:H] + q_t[0:H])\<close>, \<open>z_t = sigmoid (p_t[H:2H] + q_t[H:2H])\<close>,
  \<open>n_t = tanh (p_t[2H:3H] + r_t \<odot> q_t[2H:3H])\<close> and
  \<open>h_t = (1 - z_t) \<odot> n_t + z_t \<odot> h_{t-1}\<close>.\<close>

definition gru_update_spec :: "nat \<Rightarrow> real list \<Rightarrow> real list \<Rightarrow> real list \<Rightarrow> real list" where
  "gru_update_spec H p q h =
     (let r_t = map sigmoid (vadd (block H 0 p) (block H 0 q));
          z_t = map sigmoid (vadd (block H 1 p) (block H 1 q));
          n_t = map tanh (vadd (block H 2 p) (vmul r_t (block H 2 q)))
      in vadd (vmul (map (\<lambda>z. 1 - z) z_t) n_t) (vmul z_t h))"

definition gru_cell_spec ::
  "nat \<Rightarrow> real list list \<Rightarrow> real list list \<Rightarrow> real list \<Rightarrow> real list
     \<Rightarrow> real list \<Rightarrow> real list \<Rightarrow> real list" where
  "gru_cell_spec H W_ih W_hh b_ih b_hh h x =
     gru_update_spec H (vadd (matvec W_ih x) b_ih) (vadd (matvec W_hh h) b_hh) h"

definition gru_state_spec ::
  "nat \<Rightarrow> real list list \<Rightarrow> real list list \<Rightarrow> real list \<Rightarrow> real list
     \<Rightarrow> real list list \<Rightarrow> real list \<Rightarrow> nat \<Rightarrow> real list" where
  "gru_state_spec H W_ih W_hh b_ih b_hh xs h n =
     foldl (gru_cell_spec H W_ih W_hh b_ih b_hh) h (take n xs)"

text \<open>The input sequence of batch element \<open>b\<close> of a \<open>(B, T, I)\<close> tensor.\<close>

definition batch_inputs :: "nat \<Rightarrow> nat \<Rightarrow> tensor \<Rightarrow> nat \<Rightarrow> real list list" where
  "batch_inputs T I data b = map (\<lambda>t. row I (b * T + t) data) [0..<T]"

text \<open>The states that the specification's recurrences assign to batch element \<open>b\<close> after
  \<open>n\<close> time steps, for the tensors that the notebook's functions are called with: rows of the
  weight matrices, the bias vectors, the inputs of batch element \<open>b\<close> and row \<open>b\<close> of the
  initial states.\<close>

definition lstm_trace ::
  "nat \<Rightarrow> nat \<Rightarrow> nat \<Rightarrow> tensor \<Rightarrow> tensor \<Rightarrow> tensor \<Rightarrow> tensor \<Rightarrow> tensor \<Rightarrow> tensor \<Rightarrow> tensor
     \<Rightarrow> nat \<Rightarrow> nat \<Rightarrow> real list \<times> real list" where
  "lstm_trace T I H data h0 c0 w_ih w_hh b_ih b_hh b n =
     lstm_state_spec H (matrix_rows (4 * H) I w_ih) (matrix_rows (4 * H) H w_hh)
       (tdata b_ih) (tdata b_hh) (batch_inputs T I data b) (row H b h0, row H b c0) n"

definition lstmp_trace ::
  "nat \<Rightarrow> nat \<Rightarrow> nat \<Rightarrow> nat \<Rightarrow> tensor \<Rightarrow> tensor \<Rightarrow> tensor \<Rightarrow> tensor \<Rightarrow> tensor \<Rightarrow> tensor \<Rightarrow> tensor
     \<Rightarrow> tensor \<Rightarrow> nat \<Rightarrow> nat \<Rightarrow> real list \<times> real list" where
  "lstmp_trace T I H P data h0 c0 w_ih w_hh b_ih b_hh w_hr b n =
     lstmp_state_spec H (matrix_rows (4 * H) I w_ih) (matrix_rows (4 * H) P w_hh)
       (tdata b_ih) (tdata b_hh) (matrix_rows P H w_hr) (batch_inputs T I data b)
       (row P b h0, row H b c0) n"

definition gru_trace ::
  "nat \<Rightarrow> nat \<Rightarrow> nat \<Rightarrow> tensor \<Rightarrow> tensor \<Rightarrow> tensor \<Rightarrow> tensor \<Rightarrow> tensor \<Rightarrow> tensor
     \<Rightarrow> nat \<Rightarrow> nat \<Rightarrow> real list" where
  "gru_trace T I H data h0 w_ih w_hh b_ih b_hh b n =
     gru_state_spec H (matrix_rows (3 * H) I w_ih) (matrix_rows (3 * H) H w_hh)
       (tdata b_ih) (tdata b_hh) (batch_inputs T I data b) (row H b h0) n"

section \<open>Properties of the tensor operations\<close>

lemma tshape_mk [simp]: "tshape (mk s f) = s"
  by (simp add: mk_def)

lemma length_tdata_mk [simp]: "length (tdata (mk s f)) = prod_list s"
  by (simp add: mk_def)

lemma nth_tdata_mk [simp]: "k < prod_list s \<Longrightarrow> tdata (mk s f) ! k = f k"
  by (simp add: mk_def)

lemma well_formed_mk [simp]: "well_formed (mk s f)"
  by (simp add: well_formed_def)

lemma mk_cong: "(\<And>k. k < prod_list s \<Longrightarrow> f k = g k) \<Longrightarrow> mk s f = mk s g"
  by (simp add: mk_def)

lemma mk_eta: "well_formed t \<Longrightarrow> mk (tshape t) (\<lambda>k. tdata t ! k) = t"
  by (cases t) (simp add: mk_def well_formed_def, metis map_nth)

lemma mk_same_numel: "prod_list s = prod_list s' \<Longrightarrow> mk s f\<lparr>tshape := s'\<rparr> = mk s' f"
  by (simp add: mk_def)

lemma ebind_Inr [simp]: "ebind (Inr v) f = f v"
  by (simp add: ebind_def)

lemma ebind_Inl [simp]: "ebind (Inl e) f = Inl e"
  by (simp add: ebind_def)

lemma mod_mult_add: "l < c \<Longrightarrow> (k * c + l) mod (r * c) = k mod r * c + (l::nat)"
  by (simp add: mod_mult2_eq mult.commute)

lemma idx_less: "k < b * n \<Longrightarrow> l < m \<Longrightarrow> k div n * m + l < b * (m::nat)"
proof -
  assume a: "k < b * n" "l < m"
  then have "k div n < b" by (simp add: less_mult_imp_div_less)
  then have "Suc (k div n) \<le> b" by simp
  then have "Suc (k div n) * m \<le> b * m" by (rule mult_le_mono1)
  with a show ?thesis by simp
qed

lemma tile_unsqueeze:
  assumes "tshape w = [r, c]"
  shows "tile_batch b (unsqueeze_first w) = mk [b, r, c] (\<lambda>k. tdata w ! (k mod (r * c)))"
  using assms
  apply (simp add: tile_batch_def unsqueeze_first_def Let_def numeral_3_eq_3)
  apply (rule mk_cong)
  apply simp
  done

lemma select_time_3d:
  assumes "tshape x = [b, n, i]" "t < n"
  shows "select_time t x = Inr (mk [b, i] (\<lambda>k. tdata x ! ((k div i * n + t) * i + k mod i)))"
  using assms by (simp add: select_time_def)

lemma idx_less1: "k < b * r \<Longrightarrow> l < c \<Longrightarrow> k * c + l < b * r * (c::nat)"
  using idx_less [of k "b * r" 1 l c] by simp

lemma bmm_matvec:
  "bmm (mk [b, r, c] (\<lambda>k. w ! (k mod (r * c)))) (unsqueeze_last (mk [b, c] xf)) =
     Inr (mk [b, r, Suc 0] (\<lambda>k. (\<Sum>l\<leftarrow>[0..<c]. w ! (k mod r * c + l) * xf (k div r * c + l))))"
proof -
  have "(\<Sum>l\<leftarrow>[0..<c]. tdata (mk [b, r, c] (\<lambda>k. w ! (k mod (r * c)))) ! ((k div r * r + k mod r) * c + l)
            * tdata (mk [b, c] xf) ! (k div r * c + l))
      = (\<Sum>l\<leftarrow>[0..<c]. w ! (k mod r * c + l) * xf (k div r * c + l))"
    if "k < b * r" for k
  proof (rule arg_cong [where f = sum_list], rule map_cong [OF refl])
    fix l assume "l \<in> set [0..<c]"
    then have l: "l < c" by simp
    have 1: "k * c + l < b * r * c" using that l by (rule idx_less1)
    have 2: "k div r * c + l < b * c" using that l by (rule idx_less)
    show "tdata (mk [b, r, c] (\<lambda>k. w ! (k mod (r * c)))) ! ((k div r * r + k mod r) * c + l)
            * tdata (mk [b, c] xf) ! (k div r * c + l) = w ! (k mod r * c + l) * xf (k div r * c + l)"
      using l 1 2 by (simp add: mod_mult_add mult.assoc)
  qed
  then have "mk [b, r, 1] (\<lambda>k. \<Sum>l\<leftarrow>[0..<c]. tdata (mk [b, r, c] (\<lambda>k. w ! (k mod (r * c)))) ! ((k div r * r + k mod r) * c + l)
            * tdata (mk [b, c] xf) ! (k div r * c + l)) 
       = mk [b, r, 1] (\<lambda>k. (\<Sum>l\<leftarrow>[0..<c]. w ! (k mod r * c + l) * xf (k div r * c + l)))"
    by (intro mk_cong) simp 
  then show ?thesis
    by (simp add: bmm_def unsqueeze_last_def)
qed

lemma reshape_wf:
  "well_formed t \<Longrightarrow> prod_list (tshape t) = prod_list s \<Longrightarrow>
     reshape s t = Inr (mk s (\<lambda>k. tdata t ! k))"
  using mk_eta [of t] by (simp add: reshape_def) (metis mk_same_numel)

lemma squeeze_col:
  "b \<noteq> Suc 0 \<Longrightarrow> r \<noteq> Suc 0 \<Longrightarrow> squeeze (mk [b, r, Suc 0] f) = mk [b, r] f"
  by (simp add: squeeze_def mk_def)

lemma tmap_mk: "tmap f (mk s g) = mk s (\<lambda>k. f (g k))"
  by (simp add: tmap_def mk_def)

lemma div_mod_id: "k < b * r \<Longrightarrow> k mod r + r * (k div r mod b) = (k::nat)"
  by (simp add: less_mult_imp_div_less)

lemma bidx_2_2: "k < b * r \<Longrightarrow> bidx [b, r] [b, r] k = k"
  by (cases "b = 1"; cases "r = 1") (simp_all add: bidx_def less_mult_imp_div_less)

lemma bidx_2_1: "bidx [b, r] [r] k = k mod r"
  by (simp add: bidx_def)

lemma bidx_3_2: "k < b * r \<Longrightarrow> bidx [Suc 0, b, r] [b, r] k = k"
  by (cases "b = 1"; cases "r = 1") (simp_all add: bidx_def less_mult_imp_div_less)

lemma bidx_3_3: "k < b * r \<Longrightarrow> bidx [Suc 0, b, r] [Suc 0, b, r] k = k"
  by (cases "b = 1"; cases "r = 1") (simp_all add: bidx_def less_mult_imp_div_less)

lemma binop_row:
  assumes "tshape v = [r]"
  shows "binop f (mk [b, r] g) v = Inr (mk [b, r] (\<lambda>k. f (g k) (tdata v ! (k mod r))))"
proof -
  have "mk [b, r] (\<lambda>k. f (tdata (mk [b, r] g) ! bidx [b, r] [b, r] k) (tdata v ! bidx [b, r] [r] k))
      = mk [b, r] (\<lambda>k. f (g k) (tdata v ! (k mod r)))"
    by (rule mk_cong) (simp add: bidx_2_2 bidx_2_1)
  then show ?thesis using assms by (simp add: binop_def broadcast_shapes_def)
qed

text \<open>Element-wise operations between tensors of the shapes that a recurrent state can
  have, \<open>(B, H)\<close> and \<open>(1, B, H)\<close>.\<close>

lemma binop_2_2:
  "binop f (mk [b, r] g) (mk [b, r] g') = Inr (mk [b, r] (\<lambda>k. f (g k) (g' k)))"
proof -
  have "mk [b, r] (\<lambda>k. f (tdata (mk [b, r] g) ! bidx [b, r] [b, r] k) (tdata (mk [b, r] g') ! bidx [b, r] [b, r] k))
      = mk [b, r] (\<lambda>k. f (g k) (g' k))"
    by (rule mk_cong) (simp add: bidx_2_2)
  then show ?thesis by (simp add: binop_def broadcast_shapes_def)
qed

lemma binop_2_3:
  "binop f (mk [b, r] g) (mk [Suc 0, b, r] g') = Inr (mk [Suc 0, b, r] (\<lambda>k. f (g k) (g' k)))"
proof -
  have "mk [Suc 0, b, r] (\<lambda>k. f (tdata (mk [b, r] g) ! bidx [Suc 0, b, r] [b, r] k) (tdata (mk [Suc 0, b, r] g') ! bidx [Suc 0, b, r] [Suc 0, b, r] k))
      = mk [Suc 0, b, r] (\<lambda>k. f (g k) (g' k))"
    by (rule mk_cong) (simp add: bidx_3_2 bidx_3_3)
  then show ?thesis by (simp add: binop_def broadcast_shapes_def)
qed

lemma binop_3_2:
  "binop f (mk [Suc 0, b, r] g) (mk [b, r] g') = Inr (mk [Suc 0, b, r] (\<lambda>k. f (g k) (g' k)))"
proof -
  have "mk [Suc 0, b, r] (\<lambda>k. f (tdata (mk [Suc 0, b, r] g) ! bidx [Suc 0, b, r] [Suc 0, b, r] k) (tdata (mk [b, r] g') ! bidx [Suc 0, b, r] [b, r] k))
      = mk [Suc 0, b, r] (\<lambda>k. f (g k) (g' k))"
    by (rule mk_cong) (simp add: bidx_3_2 bidx_3_3)
  then show ?thesis by (simp add: binop_def broadcast_shapes_def)
qed

lemma slice_idx_less:
  assumes "k < b * (hi - lo)" "hi \<le> (r::nat)"
  shows "k div (hi - lo) * r + lo + k mod (hi - lo) < b * r"
proof -
  have pos: "0 < hi - lo" using assms(1) by (cases "hi - lo") simp_all
  have "k mod (hi - lo) < hi - lo" using pos by simp
  then have "lo + k mod (hi - lo) < r" using assms(2) by simp
  then show ?thesis
    using idx_less [OF assms(1), of "lo + k mod (hi - lo)" r] by (simp add: add.assoc)
qed

lemma slice_cols_mk:
  assumes "lo \<le> hi" "hi \<le> r"
  shows "slice_cols lo (Some hi) (mk [b, r] g) =
           Inr (mk [b, hi - lo] (\<lambda>k. g (k div (hi - lo) * r + lo + k mod (hi - lo))))"
proof -
  have "mk [b, hi - lo] (\<lambda>k. tdata (mk [b, r] g) ! (k div (hi - lo) * r + lo + k mod (hi - lo)))
      = mk [b, hi - lo] (\<lambda>k. g (k div (hi - lo) * r + lo + k mod (hi - lo)))"
    by (rule mk_cong) (simp add: slice_idx_less assms)
  then show ?thesis
    using assms by (simp add: slice_cols_def min_absorb1 min_absorb2 Let_def)
qed

lemma slice_cols_mk_end:
  assumes "lo \<le> r"
  shows "slice_cols lo None (mk [b, r] g) =
           Inr (mk [b, r - lo] (\<lambda>k. g (k div (r - lo) * r + lo + k mod (r - lo))))"
proof -
  have "mk [b, r - lo] (\<lambda>k. tdata (mk [b, r] g) ! (k div (r - lo) * r + lo + k mod (r - lo)))
      = mk [b, r - lo] (\<lambda>k. g (k div (r - lo) * r + lo + k mod (r - lo)))"
    by (rule mk_cong) (simp add: slice_idx_less assms)
  then show ?thesis
    using assms by (simp add: slice_cols_def min_absorb1 Let_def)
qed


lemma binop_3_3:
  "binop f (mk [Suc 0, b, r] g) (mk [Suc 0, b, r] g') = Inr (mk [Suc 0, b, r] (\<lambda>k. f (g k) (g' k)))"
proof -
  have "mk [Suc 0, b, r] (\<lambda>k. f (tdata (mk [Suc 0, b, r] g) ! bidx [Suc 0, b, r] [Suc 0, b, r] k) (tdata (mk [Suc 0, b, r] g') ! bidx [Suc 0, b, r] [Suc 0, b, r] k))
      = mk [Suc 0, b, r] (\<lambda>k. f (g k) (g' k))"
    using bidx_3_3 by (intro mk_cong) simp
  then show ?thesis by (simp add: binop_def broadcast_shapes_def)
qed

lemma binop_state:
  "s = [b, r] \<or> s = [Suc 0, b, r] \<Longrightarrow>
     binop f (mk [b, r] g) (mk s g') = Inr (mk s (\<lambda>k. f (g k) (g' k)))"
  using binop_2_2 binop_2_3 by auto

lemma binop_state_left:
  "s = [b, r] \<or> s = [Suc 0, b, r] \<Longrightarrow>
     binop f (mk s g) (mk [b, r] g') = Inr (mk s (\<lambda>k. f (g k) (g' k)))"
  using binop_2_2 binop_3_2 by auto

lemma setitem_idx_less:
  assumes "k < b * n * (h::nat)"
  shows "k div (n * h) * h + k mod h < b * h"
proof -
  have "0 < h" using assms by (cases h) simp_all
  then have "k mod h < h" by simp
  moreover have "k < b * (n * h)" using assms by (simp add: mult.assoc)
  ultimately show ?thesis by (rule idx_less [rotated])
qed

lemma setitem_state:
  assumes "s = [b, h] \<or> s = [Suc 0, b, h]" "b \<noteq> Suc 0" "t < n"
  shows "setitem_time (mk [b, n, h] out) t (mk s g) =
           Inr (mk [b, n, h] (\<lambda>k. if k div h mod n = t then g (k div (n * h) * h + k mod h)
                                  else out k))"
proof -
  have src: "dropWhile (\<lambda>d. d = 1) s = [b, h]"
    using assms(1,2) by auto
  have pt: "tdata (mk s g) ! bidx [b, h] [b, h] (k div (n * h) * h + k mod h)
              = g (k div (n * h) * h + k mod h)" if "k < prod_list [b, n, h]" for k
  proof -
    have k: "k < b * n * h" using that by (simp add: mult.assoc)
    have "k div (n * h) * h + k mod h < prod_list s"
      using setitem_idx_less [OF k] assms(1) by auto
    then show ?thesis
      using setitem_idx_less [OF k] by (simp add: bidx_2_2)
  qed
  show ?thesis
    using assms(3) src
    apply (simp add: setitem_time_def broadcast_shapes_def Let_def cong: if_cong)
    apply (rule mk_cong)
    apply (simp add: pt)
    done
qed

lemma ebind_assoc: "ebind (ebind m f) g = ebind m (\<lambda>x. ebind (f x) g)"
  by (cases m) simp_all

lemma lstm_step_fragments:
  "lstm_step data bs h_size batch_w_ih batch_w_hh b_ih b_hh t (prev_h, prev_c, output_h) =
     ebind (rnn_products data bs h_size batch_w_ih batch_w_hh t prev_h) (\<lambda>(wx, wh).
     ebind (lstm_gates h_size wx wh b_ih b_hh prev_c) (\<lambda>(new_h, new_c).
     ebind (setitem_time output_h t new_h) (\<lambda>output_h'.
     Inr (new_h, new_c, output_h'))))"
  by (simp add: lstm_step_def rnn_products_def lstm_gates_def ebind_assoc Let_def)

lemma lstm_proj_step_fragments:
  "lstm_proj_step data bs h_size (Some (p_size, batch_w_hr)) batch_w_ih batch_w_hh b_ih b_hh t
       (prev_h, prev_c, output_h) =
     ebind (rnn_products data bs p_size batch_w_ih batch_w_hh t prev_h) (\<lambda>(wx, wh).
     ebind (lstm_gates h_size wx wh b_ih b_hh prev_c) (\<lambda>(full_h, new_c).
     ebind (lstm_project batch_w_hr full_h) (\<lambda>new_h.
     ebind (setitem_time output_h t new_h) (\<lambda>output_h'.
     Inr (new_h, new_c, output_h')))))"
  by (simp add: lstm_proj_step_def rnn_products_def lstm_gates_def lstm_project_def
      ebind_assoc Let_def)

lemma gru_step_fragments:
  "gru_step data bs h_size batch_w_ih batch_w_hh b_ih b_hh t (prev_h, output_h) =
     ebind (rnn_products data bs h_size batch_w_ih batch_w_hh t prev_h) (\<lambda>(wx, wh).
     ebind (gru_gates h_size wx wh b_ih b_hh prev_h) (\<lambda>new_h.
     ebind (setitem_time output_h t new_h) (\<lambda>output_h'.
     Inr (new_h, output_h'))))"
  by (simp add: gru_step_def rnn_products_def gru_gates_def ebind_assoc Let_def)

subsection \<open>Vectors\<close>

lemma length_row: "(Suc i) * n \<le> length (tdata t) \<Longrightarrow> length (row n i t) = n"
  by (simp add: row_def)

lemma nth_row:
  "Suc i * n \<le> length (tdata t) \<Longrightarrow> j < n \<Longrightarrow> row n i t ! j = tdata t ! (i * n + j)"
  by (simp add: row_def)

lemma row_mk:
  assumes "Suc i * n \<le> prod_list s"
  shows "row n i (mk s f) = map (\<lambda>j. f (i * n + j)) [0..<n]"
proof (rule nth_equalityI)
  show "length (row n i (mk s f)) = length (map (\<lambda>j. f (i * n + j)) [0..<n])"
    using assms by (simp add: length_row)
next
  fix j assume "j < length (row n i (mk s f))"
  then have j: "j < n" using assms by (simp add: length_row)
  then have "i * n + j < prod_list s" using assms by simp
  then show "row n i (mk s f) ! j = map (\<lambda>j. f (i * n + j)) [0..<n] ! j"
    using assms j by (simp add: nth_row)
qed

lemma sum_upt_cong:
  "(\<And>l. l < n \<Longrightarrow> f l = g l) \<Longrightarrow> (\<Sum>l\<leftarrow>[0..<n]. f l) = (\<Sum>l\<leftarrow>[0..<n]. (g l :: real))"
  by (rule arg_cong [where f = sum_list], rule map_cong) simp_all

lemma dot_sum:
  assumes "length u = n" "length v = n"
  shows "dot u v = (\<Sum>l\<leftarrow>[0..<n]. u ! l * v ! l)"
proof -
  have "map2 (*) u v = map (\<lambda>l. u ! l * v ! l) [0..<n]"
    using assms by (intro nth_equalityI) simp_all
  then show ?thesis by (simp add: dot_def)
qed

lemma length_matvec [simp]: "length (matvec W x) = length W"
  by (simp add: matvec_def)

lemma length_matrix_rows [simp]: "length (matrix_rows r c t) = r"
  by (simp add: matrix_rows_def)

lemma length_vadd [simp]: "length (vadd u v) = min (length u) (length v)"
  by (simp add: vadd_def)

lemma length_vmul [simp]: "length (vmul u v) = min (length u) (length v)"
  by (simp add: vmul_def)

lemma nth_vadd: "j < length u \<Longrightarrow> j < length v \<Longrightarrow> vadd u v ! j = u ! j + v ! j"
  by (simp add: vadd_def)

lemma nth_vmul: "j < length u \<Longrightarrow> j < length v \<Longrightarrow> vmul u v ! j = u ! j * v ! j"
  by (simp add: vmul_def)

lemma length_block: "Suc k * H \<le> length z \<Longrightarrow> length (block H k z) = H"
  by (simp add: block_def)

lemma nth_block: "Suc k * H \<le> length z \<Longrightarrow> j < H \<Longrightarrow> block H k z ! j = z ! (k * H + j)"
  by (simp add: block_def)

lemma row_bound: "i < r \<Longrightarrow> Suc i * c \<le> r * (c::nat)"
  by (metis Suc_leI mult_le_mono1)

lemma matvec_entry:
  assumes "i < r" "length (tdata w) = r * c" "Suc j * c \<le> length (tdata x)"
  shows "matvec (matrix_rows r c w) (row c j x) ! i =
           (\<Sum>l\<leftarrow>[0..<c]. tdata w ! (i * c + l) * tdata x ! (j * c + l))"
proof -
  have bw: "Suc i * c \<le> length (tdata w)" using row_bound [OF assms(1), of c] assms(2) by simp
  have "matvec (matrix_rows r c w) (row c j x) ! i = dot (row c i w) (row c j x)"
    using assms(1) by (simp add: matvec_def matrix_rows_def)
  also have "\<dots> = (\<Sum>l\<leftarrow>[0..<c]. row c i w ! l * row c j x ! l)"
    using bw assms(3) by (intro dot_sum) (simp_all add: length_row)
  also have "\<dots> = (\<Sum>l\<leftarrow>[0..<c]. tdata w ! (i * c + l) * tdata x ! (j * c + l))"
    using bw assms(3) by (intro sum_upt_cong) (simp add: nth_row)
  finally show ?thesis .
qed

lemma of_rowsI:
  assumes "prod_list s = B * n" "\<And>b j. b < B \<Longrightarrow> j < n \<Longrightarrow> f (b * n + j) = u b ! j"
  shows "mk s f = of_rows s n u"
  unfolding of_rows_def
proof (rule mk_cong)
  fix k assume "k < prod_list s"
  then have k: "k < B * n" using assms(1) by simp
  then have n: "0 < n" by (cases n) simp_all
  have "f (k div n * n + k mod n) = u (k div n) ! (k mod n)"
    using k n by (intro assms(2)) (simp_all add: less_mult_imp_div_less)
  then show "f k = u (k div n) ! (k mod n)" by simp
qed

lemma of_rows_cong:
  assumes "prod_list s = B * n" "\<And>b. b < B \<Longrightarrow> take n (u b) = take n (v b)"
  shows "of_rows s n u = of_rows s n v"
  unfolding of_rows_def
proof (rule mk_cong)
  fix k assume "k < prod_list s"
  then have k: "k < B * n" using assms(1) by simp
  then have n: "0 < n" by (cases n) simp_all
  have "take n (u (k div n)) ! (k mod n) = take n (v (k div n)) ! (k mod n)"
    using k by (simp add: assms(2) less_mult_imp_div_less)
  then show "u (k div n) ! (k mod n) = v (k div n) ! (k mod n)" using n by simp
qed

lemma tshape_of_rows [simp]: "tshape (of_rows s n u) = s"
  by (simp add: of_rows_def)

lemma well_formed_of_rows [simp]: "well_formed (of_rows s n u)"
  by (simp add: of_rows_def)

lemma row_of_rows:
  assumes "prod_list s = B * n" "b < B" "length (u b) = n"
  shows "row n b (of_rows s n u) = u b"
proof -
  have "Suc b * n \<le> prod_list s" using row_bound [OF assms(2), of n] assms(1) by simp
  then have "row n b (of_rows s n u) = map (\<lambda>j. u ((b * n + j) div n) ! ((b * n + j) mod n)) [0..<n]"
    unfolding of_rows_def by (rule row_mk)
  also have "\<dots> = map (\<lambda>j. u b ! j) [0..<n]"
    by (rule map_cong) simp_all
  also have "\<dots> = u b" using assms(3) by (metis map_nth)
  finally show ?thesis .
qed

lemma of_rows_row:
  assumes "well_formed c" "prod_list (tshape c) = B * n"
  shows "of_rows (tshape c) n (\<lambda>b. row n b c) = c"
proof -
  have "mk (tshape c) (\<lambda>k. tdata c ! k) = of_rows (tshape c) n (\<lambda>b. row n b c)"
  proof (rule of_rowsI [OF assms(2)])
    fix b j assume "b < B" "j < n"
    moreover have "Suc b * n \<le> length (tdata c)"
      using assms row_bound [OF \<open>b < B\<close>, of n] by (simp add: well_formed_def)
    ultimately show "tdata c ! (b * n + j) = row n b c ! j" by (simp add: nth_row)
  qed
  then show ?thesis using mk_eta [OF assms(1)] by simp
qed

lemma rnn_products_closed:
  assumes "tshape data = [B, T, I]" "well_formed data" "t < T"
    "tshape w_ih = [R, I]" "well_formed w_ih" "tshape w_hh = [R, p]" "well_formed w_hh"
    "well_formed h" "prod_list (tshape h) = B * p"
  shows "rnn_products data B p (tile_batch B (unsqueeze_first w_ih))
           (tile_batch B (unsqueeze_first w_hh)) t h =
         Inr (of_rows [B, R, Suc 0] R
                (\<lambda>b. matvec (matrix_rows R I w_ih) (row I (b * T + t) data)),
              of_rows [B, R, Suc 0] R
                (\<lambda>b. matvec (matrix_rows R p w_hh) (row p b h)))"
  unfolding of_rows_def
proof -
  have 1: "mk [B, R, Suc 0] (\<lambda>k. \<Sum>l\<leftarrow>[0..<I]. tdata w_ih ! (k mod R * I + l) *
              tdata data ! (((k div R * I + l) div I * T + t) * I + l mod I))
         = mk [B, R, Suc 0]
             (\<lambda>k. matvec (matrix_rows R I w_ih) (row I (k div R * T + t) data) ! (k mod R))"
  proof (rule mk_cong)
    fix k assume "k < prod_list [B, R, Suc 0]"
    then have k: "k < B * R" by simp
    then have R: "0 < R" by (cases R) simp_all
    have b: "k div R < B" using k by (simp add: less_mult_imp_div_less)
    have "k div R * T + t < B * T"
      using idx_less [of "k div R * Suc 0" B "Suc 0" t T] b assms(3) by simp
    then have "Suc (k div R * T + t) * I \<le> length (tdata data)"
      using assms(1,2) row_bound [of "k div R * T + t" "B * T" I]
      by (simp add: well_formed_def mult.assoc)
    moreover have "length (tdata w_ih) = R * I"
      using assms(4,5) by (simp add: well_formed_def)
    ultimately have "matvec (matrix_rows R I w_ih) (row I (k div R * T + t) data) ! (k mod R)
        = (\<Sum>l\<leftarrow>[0..<I]. tdata w_ih ! (k mod R * I + l) * tdata data ! ((k div R * T + t) * I + l))"
      using R by (intro matvec_entry) simp_all
    also have "\<dots> = (\<Sum>l\<leftarrow>[0..<I]. tdata w_ih ! (k mod R * I + l) *
              tdata data ! (((k div R * I + l) div I * T + t) * I + l mod I))"
      by (rule sum_upt_cong) simp
    finally show "(\<Sum>l\<leftarrow>[0..<I]. tdata w_ih ! (k mod R * I + l) *
              tdata data ! (((k div R * I + l) div I * T + t) * I + l mod I))
         = matvec (matrix_rows R I w_ih) (row I (k div R * T + t) data) ! (k mod R)" by simp
  qed
  have 2: "mk [B, R, Suc 0] (\<lambda>k. \<Sum>l\<leftarrow>[0..<p]. tdata w_hh ! (k mod R * p + l) *
              tdata h ! (k div R * p + l))
         = mk [B, R, Suc 0]
             (\<lambda>k. matvec (matrix_rows R p w_hh) (row p (k div R) h) ! (k mod R))"
  proof (rule mk_cong)
    fix k assume "k < prod_list [B, R, Suc 0]"
    then have k: "k < B * R" by simp
    then have R: "0 < R" by (cases R) simp_all
    have b: "k div R < B" using k by (simp add: less_mult_imp_div_less)
    have "Suc (k div R) * p \<le> length (tdata h)"
      using assms(8,9) row_bound [OF b, of p] by (simp add: well_formed_def)
    moreover have "length (tdata w_hh) = R * p"
      using assms(6,7) by (simp add: well_formed_def)
    ultimately show "(\<Sum>l\<leftarrow>[0..<p]. tdata w_hh ! (k mod R * p + l) * tdata h ! (k div R * p + l))
        = matvec (matrix_rows R p w_hh) (row p (k div R) h) ! (k mod R)"
      using R by (subst matvec_entry) simp_all
  qed
  show "rnn_products data B p (tile_batch B (unsqueeze_first w_ih))
           (tile_batch B (unsqueeze_first w_hh)) t h =
         Inr (mk [B, R, Suc 0]
                (\<lambda>k. matvec (matrix_rows R I w_ih) (row I (k div R * T + t) data) ! (k mod R)),
              mk [B, R, Suc 0]
                (\<lambda>k. matvec (matrix_rows R p w_hh) (row p (k div R) h) ! (k mod R)))"
    using assms(1,3,4,6,8,9)
    by (simp add: rnn_products_def select_time_3d tile_unsqueeze bmm_matvec reshape_wf 1 2)
qed

subsection \<open>Operations on tensors given by their rows\<close>

lemma squeeze_of_rows:
  "b \<noteq> Suc 0 \<Longrightarrow> r \<noteq> Suc 0 \<Longrightarrow> squeeze (of_rows [b, r, Suc 0] n u) = of_rows [b, r] n u"
  by (simp add: of_rows_def squeeze_col)

lemma tadd_bias:
  assumes "tshape v = [r]" "length (tdata v) = r" "\<And>b. b < B \<Longrightarrow> length (u b) = r"
  shows "tadd (of_rows [B, r] r u) v = Inr (of_rows [B, r] r (\<lambda>b. vadd (u b) (tdata v)))"
proof -
  have "mk [B, r] (\<lambda>k. u (k div r) ! (k mod r) + tdata v ! (k mod r))
      = of_rows [B, r] r (\<lambda>b. vadd (u b) (tdata v))"
    by (rule of_rowsI [where B = B]) (simp_all add: nth_vadd assms)
  then show ?thesis
    using assms(1) by (simp add: tadd_def of_rows_def binop_row)
qed

lemma binop_of_rows:
  assumes "s = [B, n] \<or> s = [Suc 0, B, n]" "s' = [B, n] \<or> s' = [Suc 0, B, n]"
    "\<And>b. b < B \<Longrightarrow> length (u b) = n" "\<And>b. b < B \<Longrightarrow> length (v b) = n"
  shows "binop f (of_rows s n u) (of_rows s' n v) =
           Inr (of_rows (if s = [B, n] then s' else s) n (\<lambda>b. map2 f (u b) (v b)))"
proof -
  have "mk s'' (\<lambda>k. f (u (k div n) ! (k mod n)) (v (k div n) ! (k mod n)))
      = of_rows s'' n (\<lambda>b. map2 f (u b) (v b))" if "prod_list s'' = B * n" for s''
    using that by (rule of_rowsI) (simp_all add: assms(3,4))
  then have key: "mk s'' (\<lambda>k. f (u (k div n) ! (k mod n)) (v (k div n) ! (k mod n)))
      = mk s'' (\<lambda>k. map2 f (u (k div n)) (v (k div n)) ! (k mod n))"
    if "prod_list s'' = B * n" for s''
    using that by (simp add: of_rows_def)
  from assms(1,2) consider "s = [B, n]" "s' = [B, n]" | "s = [B, n]" "s' = [Suc 0, B, n]"
    | "s = [Suc 0, B, n]" "s' = [B, n]" | "s = [Suc 0, B, n]" "s' = [Suc 0, B, n]"
    by blast
  then show ?thesis
  proof cases
    case 1
    then show ?thesis by (simp add: of_rows_def binop_2_2 key)
  next
    case 2
    then show ?thesis by (simp add: of_rows_def binop_2_3 key)
  next
    case 3
    then show ?thesis by (simp add: of_rows_def binop_3_2 key)
  next
    case 4
    then show ?thesis by (simp add: of_rows_def binop_3_3 key)
  qed
qed


lemma tadd_of_rows:
  assumes "s = [B, n] \<or> s = [Suc 0, B, n]" "s' = [B, n] \<or> s' = [Suc 0, B, n]"
    "\<And>b. b < B \<Longrightarrow> length (u b) = n" "\<And>b. b < B \<Longrightarrow> length (v b) = n"
  shows "tadd (of_rows s n u) (of_rows s' n v) =
           Inr (of_rows (if s = [B, n] then s' else s) n (\<lambda>b. vadd (u b) (v b)))"
  unfolding tadd_def vadd_def using assms by (rule binop_of_rows)

lemma tmul_of_rows:
  assumes "s = [B, n] \<or> s = [Suc 0, B, n]" "s' = [B, n] \<or> s' = [Suc 0, B, n]"
    "\<And>b. b < B \<Longrightarrow> length (u b) = n" "\<And>b. b < B \<Longrightarrow> length (v b) = n"
  shows "tmul (of_rows s n u) (of_rows s' n v) =
           Inr (of_rows (if s = [B, n] then s' else s) n (\<lambda>b. vmul (u b) (v b)))"
  unfolding tmul_def vmul_def using assms by (rule binop_of_rows)

lemma tmap_of_rows:
  assumes "prod_list s = B * n" "\<And>b. b < B \<Longrightarrow> length (u b) = n"
  shows "tmap f (of_rows s n u) = of_rows s n (\<lambda>b. map f (u b))"
proof -
  have "mk s (\<lambda>k. f (u (k div n) ! (k mod n))) = of_rows s n (\<lambda>b. map f (u b))"
    using assms(1) by (rule of_rowsI) (simp add: assms(2))
  then show ?thesis by (simp add: of_rows_def tmap_mk)
qed

lemma slice_cols_of_rows:
  assumes "lo \<le> hi" "hi \<le> r" "\<And>b. b < B \<Longrightarrow> length (u b) = r"
  shows "slice_cols lo (Some hi) (of_rows [B, r] r u) =
           Inr (of_rows [B, hi - lo] (hi - lo) (\<lambda>b. take (hi - lo) (drop lo (u b))))"
proof -
  have "mk [B, hi - lo] (\<lambda>k. u ((k div (hi - lo) * r + lo + k mod (hi - lo)) div r)
                             ! ((k div (hi - lo) * r + lo + k mod (hi - lo)) mod r))
      = of_rows [B, hi - lo] (hi - lo) (\<lambda>b. take (hi - lo) (drop lo (u b)))"
  proof (rule of_rowsI [where B = B])
    fix b j assume b: "b < B" and j: "j < hi - lo"
    have "lo + j < r" using j assms(2) by simp
    then show "u (((b * (hi - lo) + j) div (hi - lo) * r + lo + (b * (hi - lo) + j) mod (hi - lo)) div r)
                 ! (((b * (hi - lo) + j) div (hi - lo) * r + lo + (b * (hi - lo) + j) mod (hi - lo)) mod r)
             = take (hi - lo) (drop lo (u b)) ! j"
      using j assms(3) [OF b] by (simp add: add.assoc [where 'a = nat])
  qed simp
  then show ?thesis
    using assms(1,2) by (simp add: of_rows_def slice_cols_mk)
qed

lemma slice_cols_of_rows_end:
  assumes "lo \<le> r" "\<And>b. b < B \<Longrightarrow> length (u b) = r"
  shows "slice_cols lo None (of_rows [B, r] r u) =
           Inr (of_rows [B, r - lo] (r - lo) (\<lambda>b. drop lo (u b)))"
proof -
  have "slice_cols lo None (of_rows [B, r] r u) = slice_cols lo (Some r) (of_rows [B, r] r u)"
    by (simp add: slice_cols_def)
  also have "\<dots> = Inr (of_rows [B, r - lo] (r - lo) (\<lambda>b. take (r - lo) (drop lo (u b))))"
    using assms by (intro slice_cols_of_rows) simp_all
  also have "of_rows [B, r - lo] (r - lo) (\<lambda>b. take (r - lo) (drop lo (u b)))
           = of_rows [B, r - lo] (r - lo) (\<lambda>b. drop lo (u b))"
    by (rule of_rows_cong [where B = B]) simp_all
  finally show ?thesis .
qed

lemma lstm_gates_closed:
  assumes B: "B \<noteq> Suc 0" and sc: "sc = [B, H] \<or> sc = [Suc 0, B, H]"
    and bi: "tshape b_ih = [4 * H]" "well_formed b_ih"
    and bh: "tshape b_hh = [4 * H]" "well_formed b_hh"
    and c: "tshape c = sc" "well_formed c"
    and px: "\<And>b. b < B \<Longrightarrow> length (px b) = 4 * H"
    and ph: "\<And>b. b < B \<Longrightarrow> length (ph b) = 4 * H"
  shows "lstm_gates H (of_rows [B, 4 * H, Suc 0] (4 * H) px)
           (of_rows [B, 4 * H, Suc 0] (4 * H) ph) b_ih b_hh c =
         Inr (of_rows sc H (\<lambda>b. fst (lstm_update_spec H
                 (vadd (vadd (vadd (px b) (tdata b_ih)) (ph b)) (tdata b_hh)) (row H b c))),
              of_rows sc H (\<lambda>b. snd (lstm_update_spec H
                 (vadd (vadd (vadd (px b) (tdata b_ih)) (ph b)) (tdata b_hh)) (row H b c))))"
proof -
  let ?z = "\<lambda>b. vadd (vadd (vadd (px b) (tdata b_ih)) (ph b)) (tdata b_hh)"
  let ?i = "\<lambda>b. map sigmoid (block H 0 (?z b))"
  let ?f = "\<lambda>b. map sigmoid (block H (Suc 0) (?z b))"
  let ?g = "\<lambda>b. map tanh (block H 2 (?z b))"
  let ?o = "\<lambda>b. map sigmoid (block H 3 (?z b))"
  let ?c = "\<lambda>b. vadd (vmul (?f b) (row H b c)) (vmul (?i b) (?g b))"
  have n1: "4 * H \<noteq> Suc 0" by arith
  have psc: "prod_list sc = B * H" using sc by auto
  have lbi: "length (tdata b_ih) = 4 * H" using bi by (simp add: well_formed_def)
  have lbh: "length (tdata b_hh) = 4 * H" using bh by (simp add: well_formed_def)
  have lz: "length (?z b) = 4 * H" if "b < B" for b
    using px [OF that] ph [OF that] lbi lbh by simp
  have lrow: "length (row H b c) = H" if "b < B" for b
    using row_bound [OF that, of H] c psc by (intro length_row) (simp add: well_formed_def)
  have cr: "c = of_rows sc H (\<lambda>b. row H b c)"
    using of_rows_row [of c B H] c psc by simp
  have s1: "tadd (squeeze (of_rows [B, 4 * H, Suc 0] (4 * H) px)) b_ih
              = Inr (of_rows [B, 4 * H] (4 * H) (\<lambda>b. vadd (px b) (tdata b_ih)))"
    using B n1 bi(1) lbi px by (simp add: squeeze_of_rows tadd_bias)
  have s2: "tadd (of_rows [B, 4 * H] (4 * H) (\<lambda>b. vadd (px b) (tdata b_ih)))
                 (squeeze (of_rows [B, 4 * H, Suc 0] (4 * H) ph))
              = Inr (of_rows [B, 4 * H] (4 * H) (\<lambda>b. vadd (vadd (px b) (tdata b_ih)) (ph b)))"
    using tadd_of_rows [of "[B, 4 * H]" B "4 * H" "[B, 4 * H]" "\<lambda>b. vadd (px b) (tdata b_ih)" ph]
      B n1 px ph lbi by (simp add: squeeze_of_rows)
  have s3: "tadd (of_rows [B, 4 * H] (4 * H) (\<lambda>b. vadd (vadd (px b) (tdata b_ih)) (ph b))) b_hh
              = Inr (of_rows [B, 4 * H] (4 * H) ?z)"
    using bh(1) lbh px ph lbi by (intro tadd_bias) simp_all
  have zi: "slice_cols 0 (Some H) (of_rows [B, 4 * H] (4 * H) ?z)
              = Inr (of_rows [B, H] H (\<lambda>b. block H 0 (?z b)))"
    using slice_cols_of_rows [of 0 H "4 * H" B ?z] lz by (simp add: block_def)
  have zf: "slice_cols H (Some (2 * H)) (of_rows [B, 4 * H] (4 * H) ?z)
              = Inr (of_rows [B, H] H (\<lambda>b. block H (Suc 0) (?z b)))"
    using slice_cols_of_rows [of H "2 * H" "4 * H" B ?z] lz by (simp add: block_def)
  have zg: "slice_cols (2 * H) (Some (3 * H)) (of_rows [B, 4 * H] (4 * H) ?z)
              = Inr (of_rows [B, H] H (\<lambda>b. block H 2 (?z b)))"
    using slice_cols_of_rows [of "2 * H" "3 * H" "4 * H" B ?z] lz by (simp add: block_def)
  have zo: "slice_cols (3 * H) None (of_rows [B, 4 * H] (4 * H) ?z)
              = Inr (of_rows [B, H] H (\<lambda>b. block H 3 (?z b)))"
  proof -
    have "of_rows [B, H] H (\<lambda>b. drop (3 * H) (?z b)) = of_rows [B, H] H (\<lambda>b. block H 3 (?z b))"
      by (rule of_rows_cong [where B = B]) (simp_all add: block_def)
    then show ?thesis
      using slice_cols_of_rows_end [of "3 * H" "4 * H" B ?z] lz by simp
  qed
  have lb: "length (block H k (?z b)) = H" if "b < B" "k < 4" for b k
  proof -
    have "Suc k * H \<le> 4 * H" using that(2) by simp
    then show ?thesis using lz [OF that(1)] by (simp add: length_block)
  qed
  have ti: "tmap sigmoid (of_rows [B, H] H (\<lambda>b. block H 0 (?z b))) = of_rows [B, H] H ?i"
    by (rule tmap_of_rows [where B = B]) (simp_all add: lb)
  have tf: "tmap sigmoid (of_rows [B, H] H (\<lambda>b. block H (Suc 0) (?z b))) = of_rows [B, H] H ?f"
    by (rule tmap_of_rows [where B = B]) (simp_all add: lb)
  have tg: "tmap tanh (of_rows [B, H] H (\<lambda>b. block H 2 (?z b))) = of_rows [B, H] H ?g"
    by (rule tmap_of_rows [where B = B]) (simp_all add: lb)
  have to: "tmap sigmoid (of_rows [B, H] H (\<lambda>b. block H 3 (?z b))) = of_rows [B, H] H ?o"
    by (rule tmap_of_rows [where B = B]) (simp_all add: lb)
  have fc: "tmul (of_rows [B, H] H ?f) c = Inr (of_rows sc H (\<lambda>b. vmul (?f b) (row H b c)))"
    using tmul_of_rows [of "[B, H]" B H sc ?f "\<lambda>b. row H b c"] sc lb lrow cr by simp
  have ig: "tmul (of_rows [B, H] H ?i) (of_rows [B, H] H ?g)
              = Inr (of_rows [B, H] H (\<lambda>b. vmul (?i b) (?g b)))"
    using tmul_of_rows [of "[B, H]" B H "[B, H]" ?i ?g] lb by simp
  have nc: "tadd (of_rows sc H (\<lambda>b. vmul (?f b) (row H b c)))
                 (of_rows [B, H] H (\<lambda>b. vmul (?i b) (?g b))) = Inr (of_rows sc H ?c)"
    using tadd_of_rows [of sc B H "[B, H]" "\<lambda>b. vmul (?f b) (row H b c)" "\<lambda>b. vmul (?i b) (?g b)"]
      sc lb lrow by auto
  have lc: "length (?c b) = H" if "b < B" for b
    using lb [OF that] lrow [OF that] by simp
  have tc: "tmap tanh (of_rows sc H ?c) = of_rows sc H (\<lambda>b. map tanh (?c b))"
    using psc lc by (rule tmap_of_rows)
  have nh: "tmul (of_rows [B, H] H ?o) (of_rows sc H (\<lambda>b. map tanh (?c b)))
              = Inr (of_rows sc H (\<lambda>b. vmul (?o b) (map tanh (?c b))))"
    using tmul_of_rows [of "[B, H]" B H sc ?o "\<lambda>b. map tanh (?c b)"] sc lb lc by simp
  show ?thesis
    by (simp add: lstm_gates_def s1 s2 s3 zi zf zg zo ti tf tg to fc ig nc tc nh
        lstm_update_spec_def Let_def)
qed


lemma setitem_of_rows:
  assumes s: "s = [B, H] \<or> s = [Suc 0, B, H]" and B: "B \<noteq> Suc 0" and t: "t < T"
    and out: "well_formed out" "tshape out = [B, T, H]"
  shows "setitem_time out t (of_rows s H u) =
           Inr (of_rows [B, T, H] H (\<lambda>i. if i mod T = t then u (i div T) else row H i out))"
proof -
  have lo: "length (tdata out) = B * T * H" using out by (simp add: well_formed_def mult.assoc)
  have "mk [B, T, H] (\<lambda>k. if k div H mod T = t
            then u ((k div (T * H) * H + k mod H) div H) ! ((k div (T * H) * H + k mod H) mod H)
            else tdata out ! k)
      = of_rows [B, T, H] H (\<lambda>i. if i mod T = t then u (i div T) else row H i out)"
  proof (rule of_rowsI [where B = "B * T"])
    fix i j assume i: "i < B * T" and j: "j < H"
    have d: "(i * H + j) div (T * H) = i div T"
      using j div_mult2_eq [of "i * H + j" H T] by (simp add: mult.commute)
    have "Suc i * H \<le> length (tdata out)" using row_bound [OF i, of H] lo by simp
    then have r: "row H i out ! j = tdata out ! (i * H + j)" using j by (simp add: nth_row)
    show "(if (i * H + j) div H mod T = t
            then u (((i * H + j) div (T * H) * H + (i * H + j) mod H) div H)
                   ! (((i * H + j) div (T * H) * H + (i * H + j) mod H) mod H)
            else tdata out ! (i * H + j))
          = (if i mod T = t then u (i div T) else row H i out) ! j"
      using j r by (simp add: d)
  qed (simp add: mult.assoc)
  moreover have "out = mk [B, T, H] (\<lambda>k. tdata out ! k)"
    using mk_eta [OF out(1)] out(2) by simp
  ultimately show ?thesis
    using setitem_state [OF s B t, of "\<lambda>k. tdata out ! k" "\<lambda>k. u (k div H) ! (k mod H)"]
    by (simp add: of_rows_def)
qed

lemma lstm_update_spec_length:
  assumes "length z = 4 * H" "length c = H"
  shows "length (fst (lstm_update_spec H z c)) = H" "length (snd (lstm_update_spec H z c)) = H"
  using assms by (simp_all add: lstm_update_spec_def Let_def block_def)

lemma lstm_cell_spec_length:
  assumes "length W_ih = 4 * H" "length W_hh = 4 * H" "length b_ih = 4 * H" "length b_hh = 4 * H"
    "length (snd s) = H"
  shows "length (fst (lstm_cell_spec H W_ih W_hh b_ih b_hh s x)) = H"
    "length (snd (lstm_cell_spec H W_ih W_hh b_ih b_hh s x)) = H"
  using assms by (simp_all add: lstm_cell_spec_def lstm_z_spec_def lstm_update_spec_length)

lemma lstm_step_closed:
  assumes data: "tshape data = [B, T, I]" "well_formed data" and t: "t < T"
    and wih: "tshape w_ih = [4 * H, I]" "well_formed w_ih"
    and whh: "tshape w_hh = [4 * H, H]" "well_formed w_hh"
    and bi: "tshape b_ih = [4 * H]" "well_formed b_ih"
    and bh: "tshape b_hh = [4 * H]" "well_formed b_hh"
    and B: "B \<noteq> Suc 0" and sc: "sc = [B, H] \<or> sc = [Suc 0, B, H]"
    and h: "well_formed h" "prod_list (tshape h) = B * H"
    and c: "tshape c = sc" "well_formed c"
    and out: "well_formed out" "tshape out = [B, T, H]"
  shows "lstm_step data B H (tile_batch B (unsqueeze_first w_ih))
           (tile_batch B (unsqueeze_first w_hh)) b_ih b_hh t (h, c, out) =
         Inr (of_rows sc H (\<lambda>b. fst (lstm_cell_spec H (matrix_rows (4 * H) I w_ih)
                  (matrix_rows (4 * H) H w_hh) (tdata b_ih) (tdata b_hh)
                  (row H b h, row H b c) (row I (b * T + t) data))),
              of_rows sc H (\<lambda>b. snd (lstm_cell_spec H (matrix_rows (4 * H) I w_ih)
                  (matrix_rows (4 * H) H w_hh) (tdata b_ih) (tdata b_hh)
                  (row H b h, row H b c) (row I (b * T + t) data))),
              of_rows [B, T, H] H (\<lambda>i. if i mod T = t
                 then fst (lstm_cell_spec H (matrix_rows (4 * H) I w_ih)
                        (matrix_rows (4 * H) H w_hh) (tdata b_ih) (tdata b_hh)
                        (row H (i div T) h, row H (i div T) c) (row I (i div T * T + t) data))
                 else row H i out))"
  by (simp add: lstm_step_fragments
      rnn_products_closed [OF data t wih whh h]
      lstm_gates_closed [OF B sc bi bh c]
      setitem_of_rows [OF sc B t out]
      lstm_cell_spec_def lstm_z_spec_def cong: if_cong)


subsection \<open>The time loop\<close>

lemma eloop_append: "eloop body (xs @ ys) s = ebind (eloop body xs s) (eloop body ys)"
proof (induction xs arbitrary: s)
  case Nil
  show ?case by simp
next
  case (Cons x xs)
  show ?case by (cases "body x s") (simp_all add: Cons.IH)
qed

lemma eloop_invariant:
  assumes "P 0 s0"
    and "\<And>n s. n < T \<Longrightarrow> P n s \<Longrightarrow> \<exists>s'. body n s = Inr s' \<and> P (Suc n) s'"
  shows "\<exists>s. eloop body [0..<T] s0 = Inr s \<and> P T s"
  using assms(2)
proof (induction T)
  case 0
  then show ?case using assms(1) by simp
next
  case (Suc T)
  then obtain s where s: "eloop body [0..<T] s0 = Inr s" "P T s"
    by (metis less_Suc_eq)
  obtain s' where "body T s = Inr s'" "P (Suc T) s'"
    using Suc.prems [of T s] s(2) by auto
  then show ?case using s(1) by (simp add: eloop_append)
qed

lemma lstm_state_spec_0 [simp]: "lstm_state_spec H W_ih W_hh b_ih b_hh xs s 0 = s"
  by (simp add: lstm_state_spec_def)

lemma lstm_state_spec_Suc:
  "n < length xs \<Longrightarrow> lstm_state_spec H W_ih W_hh b_ih b_hh xs s (Suc n) =
     lstm_cell_spec H W_ih W_hh b_ih b_hh (lstm_state_spec H W_ih W_hh b_ih b_hh xs s n) (xs ! n)"
  by (simp add: lstm_state_spec_def take_Suc_conv_app_nth)

lemma batch_inputs_nth [simp]:
  "length (batch_inputs T I data b) = T"
  "t < T \<Longrightarrow> batch_inputs T I data b ! t = row I (b * T + t) data"
  by (simp_all add: batch_inputs_def)


lemma lstm_loop:
  assumes data: "tshape data = [B, T, I]" "well_formed data"
    and wih: "tshape w_ih = [4 * H, I]" "well_formed w_ih"
    and whh: "tshape w_hh = [4 * H, H]" "well_formed w_hh"
    and bi: "tshape b_ih = [4 * H]" "well_formed b_ih"
    and bh: "tshape b_hh = [4 * H]" "well_formed b_hh"
    and B: "B \<noteq> Suc 0"
    and h0: "well_formed h0" "prod_list (tshape h0) = B * H"
    and c0: "well_formed c0" "tshape c0 = [B, H] \<or> tshape c0 = [Suc 0, B, H]"
    and out0: "well_formed out0" "tshape out0 = [B, T, H]"
  defines "S \<equiv> \<lambda>b. lstm_state_spec H (matrix_rows (4 * H) I w_ih) (matrix_rows (4 * H) H w_hh)
                    (tdata b_ih) (tdata b_hh) (batch_inputs T I data b) (row H b h0, row H b c0)"
  shows "\<exists>h c out.
           eloop (lstm_step data B H (tile_batch B (unsqueeze_first w_ih))
                    (tile_batch B (unsqueeze_first w_hh)) b_ih b_hh) [0..<T] (h0, c0, out0)
             = Inr (h, c, out) \<and>
           well_formed h \<and> prod_list (tshape h) = B * H \<and> (0 < T \<longrightarrow> tshape h = tshape c0) \<and>
           (T = 0 \<longrightarrow> h = h0 \<and> c = c0) \<and>
           well_formed c \<and> tshape c = tshape c0 \<and> well_formed out \<and> tshape out = [B, T, H] \<and>
           (\<forall>b<B. row H b h = fst (S b T) \<and> row H b c = snd (S b T)) \<and>
           (\<forall>b<B. \<forall>t<T. row H (b * T + t) out = fst (S b (Suc t)))"
proof -
  let ?Wih = "matrix_rows (4 * H) I w_ih" and ?Whh = "matrix_rows (4 * H) H w_hh"
  let ?body = "lstm_step data B H (tile_batch B (unsqueeze_first w_ih))
                 (tile_batch B (unsqueeze_first w_hh)) b_ih b_hh"
  define P where "P = (\<lambda>n (s :: tensor \<times> tensor \<times> tensor). case s of (h, c, out) \<Rightarrow>
           well_formed h \<and> prod_list (tshape h) = B * H \<and> (0 < n \<longrightarrow> tshape h = tshape c0) \<and>
           (n = 0 \<longrightarrow> h = h0 \<and> c = c0) \<and>
           well_formed c \<and> tshape c = tshape c0 \<and> well_formed out \<and> tshape out = [B, T, H] \<and>
           (\<forall>b<B. row H b h = fst (S b n) \<and> row H b c = snd (S b n)) \<and>
           (\<forall>b<B. \<forall>t<n. row H (b * T + t) out = fst (S b (Suc t))))"
  have lbi: "length (tdata b_ih) = 4 * H" using bi by (simp add: well_formed_def)
  have lbh: "length (tdata b_hh) = 4 * H" using bh by (simp add: well_formed_def)
  have psc: "prod_list (tshape c0) = B * H" using c0(2) by auto
  have init: "P 0 (h0, c0, out0)"
    using h0 c0 out0 by (simp add: P_def S_def)
  have step: "\<exists>s'. ?body n s = Inr s' \<and> P (Suc n) s'" if n: "n < T" and Pn: "P n s" for n s
  proof -
    obtain h c out where s: "s = (h, c, out)" by (cases s)
    from Pn have h: "well_formed h" "prod_list (tshape h) = B * H"
      and c: "tshape c = tshape c0" "well_formed c"
      and out: "well_formed out" "tshape out = [B, T, H]"
      and rows: "\<And>b. b < B \<Longrightarrow> row H b h = fst (S b n) \<and> row H b c = snd (S b n)"
      and orows: "\<And>b t. b < B \<Longrightarrow> t < n \<Longrightarrow> row H (b * T + t) out = fst (S b (Suc t))"
      by (simp_all add: P_def s)
    let ?cell = "\<lambda>b. lstm_cell_spec H ?Wih ?Whh (tdata b_ih) (tdata b_hh)
                    (row H b h, row H b c) (row I (b * T + n) data)"
    have lrow: "length (row H b c) = H" if "b < B" for b
      using row_bound [OF that, of H] c psc by (intro length_row) (simp add: well_formed_def)
    have lcell: "length (fst (?cell b)) = H" "length (snd (?cell b)) = H" if "b < B" for b
      using lbi lbh lrow [OF that] by (simp_all add: lstm_cell_spec_length)
    have cell: "?cell b = S b (Suc n)" if "b < B" for b
      using rows [OF that] n by (simp add: S_def lstm_state_spec_Suc)
    let ?h' = "of_rows (tshape c0) H (\<lambda>b. fst (?cell b))"
    let ?c' = "of_rows (tshape c0) H (\<lambda>b. snd (?cell b))"
    let ?out' = "of_rows [B, T, H] H (\<lambda>i. if i mod T = n then fst (?cell (i div T))
                   else row H i out)"
    have eq: "?body n s = Inr (?h', ?c', ?out')"
      unfolding s by (rule lstm_step_closed [OF data n wih whh bi bh B c0(2) h c out])
    have r1: "row H b ?h' = fst (S b (Suc n))" "row H b ?c' = snd (S b (Suc n))" if "b < B" for b
    proof -
      have "row H b ?h' = fst (?cell b)"
        using psc that lcell(1) [OF that] by (rule row_of_rows)
      then show "row H b ?h' = fst (S b (Suc n))" by (simp only: cell [OF that])
      have "row H b ?c' = snd (?cell b)"
        using psc that lcell(2) [OF that] by (rule row_of_rows)
      then show "row H b ?c' = snd (S b (Suc n))" by (simp only: cell [OF that])
    qed
    have r2: "row H (b * T + t) ?out' = fst (S b (Suc t))" if b: "b < B" and t: "t < Suc n" for b t
    proof -
      have tT: "t < T" using t n by simp
      have i: "b * T + t < B * T"
        using idx_less [of "b * Suc 0" B "Suc 0" t T] b tT by simp
      have lo: "length (tdata out) = B * T * H" using out by (simp add: well_formed_def mult.assoc)
      have "Suc (b * T + t) * H \<le> length (tdata out)" using row_bound [OF i, of H] lo by simp
      then have lr: "length (row H (b * T + t) out) = H" by (rule length_row)
      have dm: "(b * T + t) div T = b" "(b * T + t) mod T = t" using tT by simp_all
      have l: "length (if (b * T + t) mod T = n then fst (?cell ((b * T + t) div T))
                   else row H (b * T + t) out) = H"
        unfolding dm using lcell(1) [OF b] lr by simp
      have "row H (b * T + t) ?out' = (if (b * T + t) mod T = n then fst (?cell ((b * T + t) div T))
                   else row H (b * T + t) out)"
      proof (rule row_of_rows [where B = "B * T"])
        show "prod_list [B, T, H] = B * T * H" by (simp add: mult.assoc)
        show "b * T + t < B * T" by (rule i)
        show "length (if (b * T + t) mod T = n then fst (?cell ((b * T + t) div T))
                   else row H (b * T + t) out) = H" by (rule l)
      qed
      also have "\<dots> = fst (S b (Suc t))"
        unfolding dm using t cell [OF b] orows [OF b, of t] by (cases "t = n") simp_all
      finally show ?thesis .
    qed
    have "P (Suc n) (?h', ?c', ?out')"
      using psc r1 r2 by (simp add: P_def)
    then show ?thesis using eq by blast
  qed
  obtain s where s: "eloop ?body [0..<T] (h0, c0, out0) = Inr s" "P T s"
    using eloop_invariant [of P "(h0, c0, out0)" T ?body, OF init step] by blast
  obtain h c out where "s = (h, c, out)" by (cases s)
  then show ?thesis using s by (auto simp add: P_def)
qed

section \<open>Degenerate batch and time dimensions\<close>

lemma lstm_gates_batch1:
  assumes "tshape b_ih = [4 * H]" "tshape b_hh = [4 * H]"
  shows "lstm_gates H (of_rows [Suc 0, 4 * H, Suc 0] (4 * H) px)
           (of_rows [Suc 0, 4 * H, Suc 0] (4 * H) ph) b_ih b_hh c = Inl IndexError"
proof -
  have n1: "4 * H \<noteq> Suc 0" by arith
  show ?thesis
    using assms n1
    by (simp add: lstm_gates_def squeeze_def of_rows_def mk_def tadd_def binop_def
        broadcast_shapes_def slice_cols_def)
qed

lemma gru_gates_batch1:
  "gru_gates H (of_rows [Suc 0, 3 * H, Suc 0] (3 * H) px)
           (of_rows [Suc 0, 3 * H, Suc 0] (3 * H) ph) b_ih b_hh h = Inl IndexError"
proof -
  have n1: "3 * H \<noteq> Suc 0" by arith
  show ?thesis
    using n1
    by (simp add: gru_gates_def squeeze_def of_rows_def mk_def slice_cols_def)
qed

lemma eloop_first:
  "0 < T \<Longrightarrow> body 0 s = Inl e \<Longrightarrow> eloop body [0..<T] s = Inl e"
  by (simp add: upt_conv_Cons)

lemma lstm_forward_batch1:
  assumes "tshape data = [1, T, I]" "well_formed data" "0 < T"
    and "well_formed h0" "prod_list (tshape h0) = H"
    and "tshape w_ih = [4 * H, I]" "well_formed w_ih" "tshape w_hh = [4 * H, H]" "well_formed w_hh"
    and "tshape b_ih = [4 * H]" "tshape b_hh = [4 * H]"
  shows "lstm_forward data (h0, c0) w_ih w_hh b_ih b_hh = Inl IndexError"
proof -
  have p1: "rnn_products data (Suc 0) H (tile_batch (Suc 0) (unsqueeze_first w_ih))
           (tile_batch (Suc 0) (unsqueeze_first w_hh)) 0 h0 =
         Inr (of_rows [Suc 0, 4 * H, Suc 0] (4 * H)
                (\<lambda>b. matvec (matrix_rows (4 * H) I w_ih) (row I (b * T + 0) data)),
              of_rows [Suc 0, 4 * H, Suc 0] (4 * H)
                (\<lambda>b. matvec (matrix_rows (4 * H) H w_hh) (row H b h0)))"
    using assms by (intro rnn_products_closed) simp_all
  have "lstm_step data (Suc 0) H (tile_batch (Suc 0) (unsqueeze_first w_ih))
           (tile_batch (Suc 0) (unsqueeze_first w_hh)) b_ih b_hh 0 (h0, c0, out) = Inl IndexError"
    for out
    using assms(10,11) by (simp add: lstm_step_fragments p1 lstm_gates_batch1)
  then show ?thesis
    using assms(1,3,6) by (simp add: lstm_forward_def Let_def eloop_first)
qed

lemma gru_forward_batch1:
  assumes "tshape data = [1, T, I]" "well_formed data" "0 < T"
    and "well_formed h0" "prod_list (tshape h0) = H"
    and "tshape v_ih = [3 * H, I]" "well_formed v_ih" "tshape v_hh = [3 * H, H]" "well_formed v_hh"
  shows "gru_forward data h0 v_ih v_hh d_ih d_hh = Inl IndexError"
proof -
  have p2: "rnn_products data (Suc 0) H (tile_batch (Suc 0) (unsqueeze_first v_ih))
           (tile_batch (Suc 0) (unsqueeze_first v_hh)) 0 h0 =
         Inr (of_rows [Suc 0, 3 * H, Suc 0] (3 * H)
                (\<lambda>b. matvec (matrix_rows (3 * H) I v_ih) (row I (b * T + 0) data)),
              of_rows [Suc 0, 3 * H, Suc 0] (3 * H)
                (\<lambda>b. matvec (matrix_rows (3 * H) H v_hh) (row H b h0)))"
    using assms by (intro rnn_products_closed) simp_all
  have "gru_step data (Suc 0) H (tile_batch (Suc 0) (unsqueeze_first v_ih))
           (tile_batch (Suc 0) (unsqueeze_first v_hh)) d_ih d_hh 0 (h0, out) = Inl IndexError"
    for out
    by (simp add: gru_step_fragments p2 gru_gates_batch1)
  then show ?thesis
    using assms(1,3,6) by (simp add: gru_forward_def Let_def eloop_first)
qed

lemma well_formed_zeros [simp]: "well_formed (zeros s)"
  by (simp add: zeros_def)

lemma tshape_zeros [simp]: "tshape (zeros s) = s"
  by (simp add: zeros_def)

text \<open>
  Claim C9.  For batch size 1 and at least one time step, with all other shapes as the
  functions expect them, \<^verbatim>\<open>lstm_forward\<close> and \<^verbatim>\<open>gru_forward\<close> raise an \<^verbatim>\<open>IndexError\<close>:
  \<^verbatim>\<open>squeeze()\<close> removes the batch dimension of the matrix products, and the gate slicing
  \<^verbatim>\<open>[:, ...]\<close> is then applied to a one-dimensional tensor.
\<close>

theorem batch_of_one_fails:
  assumes "tshape data = [1, T, I]" "well_formed data" "0 < T"
    and "well_formed h0" "prod_list (tshape h0) = H"
    and "tshape w_ih = [4 * H, I]" "well_formed w_ih" "tshape w_hh = [4 * H, H]" "well_formed w_hh"
    and "tshape b_ih = [4 * H]" "tshape b_hh = [4 * H]"
    and "tshape v_ih = [3 * H, I]" "well_formed v_ih" "tshape v_hh = [3 * H, H]" "well_formed v_hh"
  shows "lstm_forward data (h0, c0) w_ih w_hh b_ih b_hh = Inl IndexError \<and>
         gru_forward data h0 v_ih v_hh d_ih d_hh = Inl IndexError"
  using lstm_forward_batch1 [OF assms(1-11)] gru_forward_batch1 [OF assms(1-5,12-15)] by simp

theorem batch_of_one_fails_witness:
  "lstm_forward (zeros [1, 2, 3]) (zeros [1, 1, 2], zeros [1, 1, 2])
      (zeros [8, 3]) (zeros [8, 2]) (zeros [8]) (zeros [8]) = Inl IndexError \<and>
   gru_forward (zeros [1, 2, 3]) (zeros [1, 1, 2])
      (zeros [6, 3]) (zeros [6, 2]) (zeros [6]) (zeros [6]) = Inl IndexError"
  using batch_of_one_fails [of "zeros [1, 2, 3]" 2 3 "zeros [1, 1, 2]" 2 "zeros [8, 3]"
      "zeros [8, 2]" "zeros [8]" "zeros [8]" "zeros [6, 3]" "zeros [6, 2]"
      "zeros [1, 1, 2]" "zeros [6]" "zeros [6]"]
  by simp

text \<open>
  Claim C10.  With an empty time dimension the loop body never runs: \<^verbatim>\<open>lstm_forward\<close> and
  \<^verbatim>\<open>gru_forward\<close> return an output of shape \<open>(B, 0, H)\<close> and the initial states, unchanged.
\<close>

theorem empty_sequence_returns_initial_states:
  assumes "tshape data = [B, 0, I]" "tshape w_ih = [4 * H, I]" "tshape v_ih = [3 * H, I]"
  shows "lstm_forward data (h0, c0) w_ih w_hh b_ih b_hh = Inr (zeros [B, 0, H], (h0, c0)) \<and>
         gru_forward data h0 v_ih v_hh d_ih d_hh = Inr (zeros [B, 0, H], h0)"
  using assms by (simp add: lstm_forward_def gru_forward_def Let_def)

theorem empty_sequence_returns_initial_states_witness:
  "lstm_forward (zeros [2, 0, 3]) (mk [1, 2, 1] (\<lambda>k. 5), mk [1, 2, 1] (\<lambda>k. 7))
      (zeros [4, 3]) (zeros [4, 1]) (zeros [4]) (zeros [4])
     = Inr (zeros [2, 0, 1], (mk [1, 2, 1] (\<lambda>k. 5), mk [1, 2, 1] (\<lambda>k. 7))) \<and>
   gru_forward (zeros [2, 0, 3]) (mk [1, 2, 1] (\<lambda>k. 5))
      (zeros [3, 3]) (zeros [3, 1]) (zeros [3]) (zeros [3])
     = Inr (zeros [2, 0, 1], mk [1, 2, 1] (\<lambda>k. 5))"
  using empty_sequence_returns_initial_states [of "zeros [2, 0, 3]" 2 3 "zeros [4, 3]" 1
      "zeros [3, 3]" "mk [1, 2, 1] (\<lambda>k. 5)" "mk [1, 2, 1] (\<lambda>k. 7)" "zeros [4, 1]" "zeros [4]"
      "zeros [4]" "zeros [3, 1]" "zeros [3]" "zeros [3]"]
  by simp


lemma lstm_forward_refines:
  assumes data: "tshape data = [B, T, I]" "well_formed data"
    and wih: "tshape w_ih = [4 * H, I]" "well_formed w_ih"
    and whh: "tshape w_hh = [4 * H, H]" "well_formed w_hh"
    and bi: "tshape b_ih = [4 * H]" "well_formed b_ih"
    and bh: "tshape b_hh = [4 * H]" "well_formed b_hh"
    and B: "B \<noteq> 1"
    and h0: "well_formed h0" "prod_list (tshape h0) = B * H"
    and c0: "well_formed c0" "tshape c0 = [B, H] \<or> tshape c0 = [1, B, H]"
  shows "\<exists>out h c.
           lstm_forward data (h0, c0) w_ih w_hh b_ih b_hh = Inr (out, (h, c)) \<and>
           well_formed h \<and> tshape h = (if T = 0 then tshape h0 else tshape c0) \<and>
           (T = 0 \<longrightarrow> h = h0 \<and> c = c0) \<and>
           well_formed c \<and> tshape c = tshape c0 \<and> well_formed out \<and> tshape out = [B, T, H] \<and>
           (\<forall>b<B. row H b h = fst (lstm_trace T I H data h0 c0 w_ih w_hh b_ih b_hh b T) \<and>
                  row H b c = snd (lstm_trace T I H data h0 c0 w_ih w_hh b_ih b_hh b T)) \<and>
           (\<forall>b<B. \<forall>t<T. row H (b * T + t) out =
                  fst (lstm_trace T I H data h0 c0 w_ih w_hh b_ih b_hh b (Suc t)))"
proof -
  have B': "B \<noteq> Suc 0" using B by simp
  have c0': "tshape c0 = [B, H] \<or> tshape c0 = [Suc 0, B, H]" using c0(2) by simp
  have o: "well_formed (zeros [B, T, H])" "tshape (zeros [B, T, H]) = [B, T, H]"
    by (simp_all add: zeros_def)
  obtain h c out where r:
    "eloop (lstm_step data B H (tile_batch B (unsqueeze_first w_ih))
                    (tile_batch B (unsqueeze_first w_hh)) b_ih b_hh) [0..<T]
        (h0, c0, zeros [B, T, H]) = Inr (h, c, out)"
    "well_formed h" "0 < T \<longrightarrow> tshape h = tshape c0" "T = 0 \<longrightarrow> h = h0 \<and> c = c0"
    "well_formed c" "tshape c = tshape c0" "well_formed out" "tshape out = [B, T, H]"
    "\<forall>b<B. row H b h = fst (lstm_trace T I H data h0 c0 w_ih w_hh b_ih b_hh b T) \<and>
           row H b c = snd (lstm_trace T I H data h0 c0 w_ih w_hh b_ih b_hh b T)"
    "\<forall>b<B. \<forall>t<T. row H (b * T + t) out =
           fst (lstm_trace T I H data h0 c0 w_ih w_hh b_ih b_hh b (Suc t))"
    using lstm_loop [OF data wih whh bi bh B' h0 c0(1) c0' o]
    unfolding lstm_trace_def by blast
  have "lstm_forward data (h0, c0) w_ih w_hh b_ih b_hh = Inr (out, (h, c))"
    using data(1) wih(1) r(1) by (simp add: lstm_forward_def Let_def)
  moreover have "tshape h = (if T = 0 then tshape h0 else tshape c0)"
    using r(3,4) by auto
  ultimately show ?thesis using r(2,4-10) by blast
qed

section \<open>The plain LSTM forward pass refines the recurrence\<close>

lemma lstm_trace_Suc:
  "t < T \<Longrightarrow> lstm_trace T I H data h0 c0 w_ih w_hh b_ih b_hh b (Suc t) =
     lstm_cell_spec H (matrix_rows (4 * H) I w_ih) (matrix_rows (4 * H) H w_hh)
       (tdata b_ih) (tdata b_hh) (lstm_trace T I H data h0 c0 w_ih w_hh b_ih b_hh b t)
       (row I (b * T + t) data)"
  by (simp add: lstm_trace_def lstm_state_spec_Suc)

lemma lstm_trace_0: "lstm_trace T I H data h0 c0 w_ih w_hh b_ih b_hh b 0 = (row H b h0, row H b c0)"
  by (simp add: lstm_trace_def)

lemmas tensor_eval = mk_def zeros_def unsqueeze_first_def unsqueeze_last_def squeeze_def
  tile_batch_def select_time_def bmm_def reshape_def broadcast_shapes_def bidx_def binop_def
  tadd_def tmul_def tmap_def slice_cols_def slice_rows_def setitem_time_def ebind_def Let_def
  upt_rec

lemma sigmoid_0 [simp]: "sigmoid 0 = 1 / 2"
  by (simp add: sigmoid_def)

text \<open>
  Claim C1, for batch sizes other than 1 (at batch size 1 the function raises, see
  \<open>lstm_forward_batch1\<close>).  For an input of shape \<open>(B, T, I)\<close>, weights of shapes
  \<open>(4H, I)\<close> and \<open>(4H, H)\<close>, biases of shape \<open>(4H)\<close> and initial states of \<open>B\<cdot>H\<close> elements,
  \<^verbatim>\<open>lstm_forward\<close> returns, and for every batch element \<open>b\<close> and time step \<open>t\<close> the state
  \<open>(h_t, c_t)\<close> is obtained from the previous state and \<open>x_t\<close> by the recurrence of section 4.1
  (\<open>lstm_cell_spec\<close>: pre-activations \<open>W_ih\<cdot>x_t + b_ih + W_hh\<cdot>h_{t-1} + b_hh\<close>, the four
  blocks through sigmoid, sigmoid, tanh, sigmoid, \<open>c_t = f_t \<odot> c_{t-1} + i_t \<odot> g_t\<close>,
  \<open>h_t = o_t \<odot> tanh c_t\<close>), starting from row \<open>b\<close> of the initial states; \<open>h_t\<close> is row
  \<open>(b, t)\<close> of the output, and the final states are the states after \<open>T\<close> steps.
\<close>

theorem lstm_forward_recurrence:
  assumes "tshape data = [B, T, I]" "well_formed data"
    and "tshape w_ih = [4 * H, I]" "well_formed w_ih"
    and "tshape w_hh = [4 * H, H]" "well_formed w_hh"
    and "tshape b_ih = [4 * H]" "well_formed b_ih"
    and "tshape b_hh = [4 * H]" "well_formed b_hh"
    and "B \<noteq> 1"
    and "well_formed h0" "prod_list (tshape h0) = B * H"
    and "well_formed c0" "tshape c0 = [B, H] \<or> tshape c0 = [1, B, H]"
  shows "\<exists>out h_T c_T.
           lstm_forward data (h0, c0) w_ih w_hh b_ih b_hh = Inr (out, (h_T, c_T)) \<and>
           tshape out = [B, T, H] \<and> well_formed out \<and>
           (\<forall>b<B.
              lstm_trace T I H data h0 c0 w_ih w_hh b_ih b_hh b 0 = (row H b h0, row H b c0) \<and>
              (\<forall>t<T.
                 lstm_trace T I H data h0 c0 w_ih w_hh b_ih b_hh b (Suc t) =
                   lstm_cell_spec H (matrix_rows (4 * H) I w_ih) (matrix_rows (4 * H) H w_hh)
                     (tdata b_ih) (tdata b_hh)
                     (lstm_trace T I H data h0 c0 w_ih w_hh b_ih b_hh b t)
                     (row I (b * T + t) data) \<and>
                 row H (b * T + t) out =
                   fst (lstm_trace T I H data h0 c0 w_ih w_hh b_ih b_hh b (Suc t))) \<and>
              row H b h_T = fst (lstm_trace T I H data h0 c0 w_ih w_hh b_ih b_hh b T) \<and>
              row H b c_T = snd (lstm_trace T I H data h0 c0 w_ih w_hh b_ih b_hh b T))"
  using lstm_forward_refines [OF assms] by (auto simp add: lstm_trace_Suc lstm_trace_0)

theorem lstm_forward_recurrence_witness:
  "lstm_forward (zeros [2, 1, 1]) (zeros [1, 2, 1], mk [1, 2, 1] (\<lambda>k. 1))
      (zeros [4, 1]) (zeros [4, 1]) (zeros [4]) (zeros [4])
   = Inr (\<lparr>tshape = [2, 1, 1], tdata = [tanh (1 / 2) / 2, tanh (1 / 2) / 2]\<rparr>,
          \<lparr>tshape = [1, 2, 1], tdata = [tanh (1 / 2) / 2, tanh (1 / 2) / 2]\<rparr>,
          \<lparr>tshape = [1, 2, 1], tdata = [1 / 2, 1 / 2]\<rparr>)"
proof -
  have h: "tshape (zeros [2, 1, 1]) = [2, 1, 1]" "well_formed (zeros [2, 1, 1])"
    "tshape (zeros [4, 1]) = [4 * 1, 1]" "well_formed (zeros [4, 1])"
    "tshape (zeros [4, 1]) = [4 * 1, 1]" "well_formed (zeros [4, 1])"
    "tshape (zeros [4]) = [4 * 1]" "well_formed (zeros [4])"
    "tshape (zeros [4]) = [4 * 1]" "well_formed (zeros [4])"
    "(2::nat) \<noteq> 1"
    "well_formed (zeros [1, 2, 1])" "prod_list (tshape (zeros [1, 2, 1])) = 2 * 1"
    "well_formed (mk [1, 2, 1] (\<lambda>k. 1))"
    "tshape (mk [1, 2, 1] (\<lambda>k. 1)) = [2, 1] \<or> tshape (mk [1, 2, 1] (\<lambda>k. 1)) = [1, 2, 1]"
    by simp_all
  have e: "lstm_forward (zeros [2, 1, 1]) (zeros [1, 2, 1], mk [1, 2, 1] (\<lambda>k. 1))
      (zeros [4, 1]) (zeros [4, 1]) (zeros [4]) (zeros [4])
   = Inr (\<lparr>tshape = [2, 1, 1], tdata = [tanh (1 / 2) / 2, tanh (1 / 2) / 2]\<rparr>,
          \<lparr>tshape = [1, 2, 1], tdata = [tanh (1 / 2) / 2, tanh (1 / 2) / 2]\<rparr>,
          \<lparr>tshape = [1, 2, 1], tdata = [1 / 2, 1 / 2]\<rparr>)"
    by (simp add: lstm_forward_def lstm_step_def tensor_eval)
  from lstm_forward_recurrence [OF h] e show ?thesis by blast
qed

theorem lstm_forward_recurrence_counterexample:
  "lstm_forward (zeros [1, 1, 1]) (zeros [1, 1, 1], zeros [1, 1, 1])
      (zeros [4, 1]) (zeros [4, 1]) (zeros [4]) (zeros [4]) = Inl IndexError"
  by (rule lstm_forward_batch1 [where H = 1 and T = 1 and I = 1]) simp_all

text \<open>
  Claim C7, for batch sizes other than 1.  With initial states of shape \<open>(1, B, H)\<close>, the
  first \<^verbatim>\<open>lstm_forward\<close> returns final states \<open>h_T\<close> and \<open>c_T\<close> of shape \<open>(1, B, H)\<close>.
\<close>

theorem lstm_forward_final_state_shapes:
  assumes "tshape data = [B, T, I]" "well_formed data"
    and "tshape w_ih = [4 * H, I]" "well_formed w_ih"
    and "tshape w_hh = [4 * H, H]" "well_formed w_hh"
    and "tshape b_ih = [4 * H]" "well_formed b_ih"
    and "tshape b_hh = [4 * H]" "well_formed b_hh"
    and "B \<noteq> 1"
    and "well_formed h0" "tshape h0 = [1, B, H]"
    and "well_formed c0" "tshape c0 = [1, B, H]"
  shows "\<exists>out h_T c_T.
           lstm_forward data (h0, c0) w_ih w_hh b_ih b_hh = Inr (out, (h_T, c_T)) \<and>
           tshape h_T = [1, B, H] \<and> tshape c_T = [1, B, H]"
proof -
  have "prod_list (tshape h0) = B * H" "tshape c0 = [B, H] \<or> tshape c0 = [1, B, H]"
    using assms(13,15) by simp_all
  from lstm_forward_refines [OF assms(1-12) this(1) assms(14) this(2)]
  show ?thesis using assms(13,15) by auto
qed

theorem lstm_forward_final_state_shapes_witness:
  "map_sum id (\<lambda>(out, h_T, c_T). (tshape h_T, tshape c_T))
     (lstm_forward (zeros [3, 2, 2]) (zeros [1, 3, 2], zeros [1, 3, 2])
        (zeros [8, 2]) (zeros [8, 2]) (zeros [8]) (zeros [8]))
   = Inr ([1, 3, 2], [1, 3, 2])"
proof -
  have h: "tshape (zeros [3, 2, 2]) = [3, 2, 2]" "well_formed (zeros [3, 2, 2])"
    "tshape (zeros [8, 2]) = [4 * 2, 2]" "well_formed (zeros [8, 2])"
    "tshape (zeros [8, 2]) = [4 * 2, 2]" "well_formed (zeros [8, 2])"
    "tshape (zeros [8]) = [4 * 2]" "well_formed (zeros [8])"
    "tshape (zeros [8]) = [4 * 2]" "well_formed (zeros [8])"
    "(3::nat) \<noteq> 1"
    "well_formed (zeros [1, 3, 2])" "tshape (zeros [1, 3, 2]) = [1, 3, 2]"
    "well_formed (zeros [1, 3, 2])" "tshape (zeros [1, 3, 2]) = [1, 3, 2]"
    by simp_all
  from lstm_forward_final_state_shapes [OF h] show ?thesis by auto
qed

theorem lstm_forward_final_state_shapes_counterexample:
  "lstm_forward (zeros [1, 2, 3]) (zeros [1, 1, 2], zeros [1, 1, 2])
      (zeros [8, 3]) (zeros [8, 2]) (zeros [8]) (zeros [8]) = Inl IndexError"
  by (rule lstm_forward_batch1 [where H = 2 and T = 2 and I = 3]) simp_all


subsection \<open>Zero weights\<close>

lemma tdata_zeros: "tdata (zeros s) = replicate (prod_list s) 0"
  by (simp add: zeros_def mk_def map_replicate_const)

lemma row_zeros: "Suc i * n \<le> prod_list s \<Longrightarrow> row n i (zeros s) = replicate n 0"
  by (simp add: row_def tdata_zeros min_absorb2)

lemma matrix_rows_zeros: "matrix_rows r c (zeros [r, c]) = replicate r (replicate c 0)"
proof -
  have "map (\<lambda>i. row c i (zeros [r, c])) [0..<r] = map (\<lambda>i. replicate c 0) [0..<r]"
  proof (rule map_cong [OF refl])
    fix i assume "i \<in> set [0..<r]"
    then have "Suc i * c \<le> prod_list [r, c]" using row_bound [of i r c] by simp
    then show "row c i (zeros [r, c]) = replicate c 0" by (rule row_zeros)
  qed
  then show ?thesis by (simp add: matrix_rows_def map_replicate_const)
qed

lemma dot_zero: "dot (replicate n 0) x = 0"
  unfolding dot_def by (induction n arbitrary: x) (simp_all add: zip_Cons1 split: list.split)

lemma matvec_zero: "matvec (replicate r (replicate c 0)) x = replicate r 0"
  by (simp add: matvec_def dot_zero)

lemma vadd_zero: "vadd (replicate n 0) (replicate n 0) = replicate n 0"
  by (simp add: vadd_def zip_replicate)

lemma lstm_z_spec_zero:
  "lstm_z_spec (matrix_rows (4 * H) I (zeros [4 * H, I])) (matrix_rows (4 * H) P (zeros [4 * H, P]))
     (tdata (zeros [4 * H])) (tdata (zeros [4 * H])) x h = replicate (4 * H) 0"
  by (simp add: lstm_z_spec_def matrix_rows_zeros matvec_zero tdata_zeros vadd_zero)

lemma block_zero: "Suc k * H \<le> n \<Longrightarrow> block H k (replicate n 0) = replicate H (0::real)"
proof -
  assume "Suc k * H \<le> n"
  then have "H \<le> n - k * H" by simp
  then show ?thesis by (simp add: block_def min_absorb2)
qed

lemma lstm_update_spec_zero:
  "lstm_update_spec H (replicate (4 * H) 0) (replicate H 0) = (replicate H 0, replicate H 0)"
  by (simp add: lstm_update_spec_def Let_def block_zero vadd_def vmul_def zip_replicate)

lemma zeros_of_rows:
  assumes "prod_list s = B * n"
  shows "of_rows s n (\<lambda>b. replicate n 0) = zeros s"
proof -
  have "mk s (\<lambda>k. 0) = of_rows s n (\<lambda>b. replicate n 0)"
    using assms by (rule of_rowsI) simp
  then show ?thesis by (simp add: zeros_def)
qed

lemma lstm_step_activations_fragments:
  "lstm_step_activations data bs h_size batch_w_ih batch_w_hh b_ih b_hh t
       (prev_h, prev_c, output_h) =
     ebind (rnn_products data bs h_size batch_w_ih batch_w_hh t prev_h) (\<lambda>(wx, wh).
       lstm_gate_values h_size wx wh b_ih b_hh prev_c)"
  by (simp add: lstm_step_activations_def rnn_products_def lstm_gate_values_def ebind_assoc Let_def)

lemma lstm_gates_values:
  "lstm_gates h_size wx wh b_ih b_hh prev_c =
     ebind (lstm_gate_values h_size wx wh b_ih b_hh prev_c) (\<lambda>(i_t, f_t, g_t, o_t, tanh_c).
     ebind (tmul f_t prev_c) (\<lambda>fc.
     ebind (tmul i_t g_t) (\<lambda>ig.
     ebind (tadd fc ig) (\<lambda>new_c.
     ebind (tmul o_t tanh_c) (\<lambda>new_h.
     Inr (new_h, new_c))))))"
  by (simp add: lstm_gates_def lstm_gate_values_def ebind_def Let_def split: sum.splits)

lemma lstm_step_activations_step:
  "lstm_step data bs h_size batch_w_ih batch_w_hh b_ih b_hh t (prev_h, prev_c, output_h) =
     ebind (lstm_step_activations data bs h_size batch_w_ih batch_w_hh b_ih b_hh t
              (prev_h, prev_c, output_h)) (\<lambda>(i_t, f_t, g_t, o_t, tanh_c).
     ebind (tmul f_t prev_c) (\<lambda>fc.
     ebind (tmul i_t g_t) (\<lambda>ig.
     ebind (tadd fc ig) (\<lambda>new_c.
     ebind (tmul o_t tanh_c) (\<lambda>new_h.
     ebind (setitem_time output_h t new_h) (\<lambda>output_h'.
     Inr (new_h, new_c, output_h')))))))"
  by (simp add: lstm_step_fragments lstm_step_activations_fragments lstm_gates_values ebind_def
      split: sum.splits prod.splits)


lemma lstm_gate_values_closed:
  assumes B: "B \<noteq> Suc 0" and sc: "sc = [B, H] \<or> sc = [Suc 0, B, H]"
    and bi: "tshape b_ih = [4 * H]" "well_formed b_ih"
    and bh: "tshape b_hh = [4 * H]" "well_formed b_hh"
    and c: "tshape c = sc" "well_formed c"
    and px: "\<And>b. b < B \<Longrightarrow> length (px b) = 4 * H"
    and ph: "\<And>b. b < B \<Longrightarrow> length (ph b) = 4 * H"
  shows "lstm_gate_values H (of_rows [B, 4 * H, Suc 0] (4 * H) px)
           (of_rows [B, 4 * H, Suc 0] (4 * H) ph) b_ih b_hh c =
         Inr (of_rows [B, H] H (\<lambda>b. map sigmoid (block H 0
                 (vadd (vadd (vadd (px b) (tdata b_ih)) (ph b)) (tdata b_hh)))),
              of_rows [B, H] H (\<lambda>b. map sigmoid (block H 1
                 (vadd (vadd (vadd (px b) (tdata b_ih)) (ph b)) (tdata b_hh)))),
              of_rows [B, H] H (\<lambda>b. map tanh (block H 2
                 (vadd (vadd (vadd (px b) (tdata b_ih)) (ph b)) (tdata b_hh)))),
              of_rows [B, H] H (\<lambda>b. map sigmoid (block H 3
                 (vadd (vadd (vadd (px b) (tdata b_ih)) (ph b)) (tdata b_hh)))),
              of_rows sc H (\<lambda>b. map tanh (snd (lstm_update_spec H
                 (vadd (vadd (vadd (px b) (tdata b_ih)) (ph b)) (tdata b_hh)) (row H b c)))))"
proof -
  let ?z = "\<lambda>b. vadd (vadd (vadd (px b) (tdata b_ih)) (ph b)) (tdata b_hh)"
  let ?i = "\<lambda>b. map sigmoid (block H 0 (?z b))"
  let ?f = "\<lambda>b. map sigmoid (block H (Suc 0) (?z b))"
  let ?g = "\<lambda>b. map tanh (block H 2 (?z b))"
  let ?o = "\<lambda>b. map sigmoid (block H 3 (?z b))"
  let ?c = "\<lambda>b. vadd (vmul (?f b) (row H b c)) (vmul (?i b) (?g b))"
  have n1: "4 * H \<noteq> Suc 0" by arith
  have psc: "prod_list sc = B * H" using sc by auto
  have lbi: "length (tdata b_ih) = 4 * H" using bi by (simp add: well_formed_def)
  have lbh: "length (tdata b_hh) = 4 * H" using bh by (simp add: well_formed_def)
  have lz: "length (?z b) = 4 * H" if "b < B" for b
    using px [OF that] ph [OF that] lbi lbh by simp
  have lrow: "length (row H b c) = H" if "b < B" for b
    using row_bound [OF that, of H] c psc by (intro length_row) (simp add: well_formed_def)
  have cr: "c = of_rows sc H (\<lambda>b. row H b c)"
    using of_rows_row [of c B H] c psc by simp
  have s1: "tadd (squeeze (of_rows [B, 4 * H, Suc 0] (4 * H) px)) b_ih
              = Inr (of_rows [B, 4 * H] (4 * H) (\<lambda>b. vadd (px b) (tdata b_ih)))"
    using B n1 bi(1) lbi px by (simp add: squeeze_of_rows tadd_bias)
  have s2: "tadd (of_rows [B, 4 * H] (4 * H) (\<lambda>b. vadd (px b) (tdata b_ih)))
                 (squeeze (of_rows [B, 4 * H, Suc 0] (4 * H) ph))
              = Inr (of_rows [B, 4 * H] (4 * H) (\<lambda>b. vadd (vadd (px b) (tdata b_ih)) (ph b)))"
    using tadd_of_rows [of "[B, 4 * H]" B "4 * H" "[B, 4 * H]" "\<lambda>b. vadd (px b) (tdata b_ih)" ph]
      B n1 px ph lbi by (simp add: squeeze_of_rows)
  have s3: "tadd (of_rows [B, 4 * H] (4 * H) (\<lambda>b. vadd (vadd (px b) (tdata b_ih)) (ph b))) b_hh
              = Inr (of_rows [B, 4 * H] (4 * H) ?z)"
    using bh(1) lbh px ph lbi by (intro tadd_bias) simp_all
  have zi: "slice_cols 0 (Some H) (of_rows [B, 4 * H] (4 * H) ?z)
              = Inr (of_rows [B, H] H (\<lambda>b. block H 0 (?z b)))"
    using slice_cols_of_rows [of 0 H "4 * H" B ?z] lz by (simp add: block_def)
  have zf: "slice_cols H (Some (2 * H)) (of_rows [B, 4 * H] (4 * H) ?z)
              = Inr (of_rows [B, H] H (\<lambda>b. block H (Suc 0) (?z b)))"
    using slice_cols_of_rows [of H "2 * H" "4 * H" B ?z] lz by (simp add: block_def)
  have zg: "slice_cols (2 * H) (Some (3 * H)) (of_rows [B, 4 * H] (4 * H) ?z)
              = Inr (of_rows [B, H] H (\<lambda>b. block H 2 (?z b)))"
    using slice_cols_of_rows [of "2 * H" "3 * H" "4 * H" B ?z] lz by (simp add: block_def)
  have zo: "slice_cols (3 * H) None (of_rows [B, 4 * H] (4 * H) ?z)
              = Inr (of_rows [B, H] H (\<lambda>b. block H 3 (?z b)))"
  proof -
    have "of_rows [B, H] H (\<lambda>b. drop (3 * H) (?z b)) = of_rows [B, H] H (\<lambda>b. block H 3 (?z b))"
      by (rule of_rows_cong [where B = B]) (simp_all add: block_def)
    then show ?thesis
      using slice_cols_of_rows_end [of "3 * H" "4 * H" B ?z] lz by simp
  qed
  have lb: "length (block H k (?z b)) = H" if "b < B" "k < 4" for b k
  proof -
    have "Suc k * H \<le> 4 * H" using that(2) by simp
    then show ?thesis using lz [OF that(1)] by (simp add: length_block)
  qed
  have ti: "tmap sigmoid (of_rows [B, H] H (\<lambda>b. block H 0 (?z b))) = of_rows [B, H] H ?i"
    by (rule tmap_of_rows [where B = B]) (simp_all add: lb)
  have tf: "tmap sigmoid (of_rows [B, H] H (\<lambda>b. block H (Suc 0) (?z b))) = of_rows [B, H] H ?f"
    by (rule tmap_of_rows [where B = B]) (simp_all add: lb)
  have tg: "tmap tanh (of_rows [B, H] H (\<lambda>b. block H 2 (?z b))) = of_rows [B, H] H ?g"
    by (rule tmap_of_rows [where B = B]) (simp_all add: lb)
  have to: "tmap sigmoid (of_rows [B, H] H (\<lambda>b. block H 3 (?z b))) = of_rows [B, H] H ?o"
    by (rule tmap_of_rows [where B = B]) (simp_all add: lb)
  have fc: "tmul (of_rows [B, H] H ?f) c = Inr (of_rows sc H (\<lambda>b. vmul (?f b) (row H b c)))"
    using tmul_of_rows [of "[B, H]" B H sc ?f "\<lambda>b. row H b c"] sc lb lrow cr by simp
  have ig: "tmul (of_rows [B, H] H ?i) (of_rows [B, H] H ?g)
              = Inr (of_rows [B, H] H (\<lambda>b. vmul (?i b) (?g b)))"
    using tmul_of_rows [of "[B, H]" B H "[B, H]" ?i ?g] lb by simp
  have nc: "tadd (of_rows sc H (\<lambda>b. vmul (?f b) (row H b c)))
                 (of_rows [B, H] H (\<lambda>b. vmul (?i b) (?g b))) = Inr (of_rows sc H ?c)"
    using tadd_of_rows [of sc B H "[B, H]" "\<lambda>b. vmul (?f b) (row H b c)" "\<lambda>b. vmul (?i b) (?g b)"]
      sc lb lrow by auto
  have lc: "length (?c b) = H" if "b < B" for b
    using lb [OF that] lrow [OF that] by simp
  have tc: "tmap tanh (of_rows sc H ?c) = of_rows sc H (\<lambda>b. map tanh (?c b))"
    using psc lc by (rule tmap_of_rows)
  show ?thesis
    by (simp add: lstm_gate_values_def s1 s2 s3 zi zf zg zo ti tf tg to fc ig nc tc
        lstm_update_spec_def Let_def)
qed

lemma const_of_rows:
  assumes "prod_list s = B * n"
  shows "of_rows s n (\<lambda>b. replicate n v) = mk s (\<lambda>k. v)"
proof -
  have "mk s (\<lambda>k. v) = of_rows s n (\<lambda>b. replicate n v)"
    using assms by (rule of_rowsI) simp
  then show ?thesis by simp
qed

lemma lstm_step_zero:
  assumes data: "tshape data = [B, T, I]" "well_formed data" and t: "t < T" and B: "B \<noteq> Suc 0"
    and sh: "prod_list sh = B * H" and sc: "sc = [B, H] \<or> sc = [Suc 0, B, H]"
  shows "lstm_step data B H (tile_batch B (unsqueeze_first (zeros [4 * H, I])))
           (tile_batch B (unsqueeze_first (zeros [4 * H, H]))) (zeros [4 * H]) (zeros [4 * H]) t
           (zeros sh, zeros sc, zeros [B, T, H])
         = Inr (zeros sc, zeros sc, zeros [B, T, H])"
proof -
  let ?cell = "\<lambda>b. lstm_cell_spec H (matrix_rows (4 * H) I (zeros [4 * H, I]))
                  (matrix_rows (4 * H) H (zeros [4 * H, H])) (tdata (zeros [4 * H]))
                  (tdata (zeros [4 * H])) (row H b (zeros sh), row H b (zeros sc))
                  (row I (b * T + t) data)"
  have psc: "prod_list sc = B * H" using sc by auto
  have rz: "row H b (zeros sh) = replicate H 0" "row H b (zeros sc) = replicate H 0"
    if "b < B" for b
    using row_bound [OF that, of H] sh psc by (simp_all add: row_zeros)
  have cell: "?cell b = (replicate H 0, replicate H 0)" if "b < B" for b
    by (simp add: lstm_cell_spec_def lstm_z_spec_zero rz [OF that] lstm_update_spec_zero)
  have 1: "of_rows sc H (\<lambda>b. fst (?cell b)) = zeros sc"
  proof -
    have "of_rows sc H (\<lambda>b. fst (?cell b)) = of_rows sc H (\<lambda>b. replicate H 0)"
      using psc by (rule of_rows_cong) (simp add: cell)
    then show ?thesis by (simp only: zeros_of_rows [OF psc])
  qed
  have 2: "of_rows sc H (\<lambda>b. snd (?cell b)) = zeros sc"
  proof -
    have "of_rows sc H (\<lambda>b. snd (?cell b)) = of_rows sc H (\<lambda>b. replicate H 0)"
      using psc by (rule of_rows_cong) (simp add: cell)
    then show ?thesis by (simp only: zeros_of_rows [OF psc])
  qed
  have p3: "prod_list [B, T, H] = B * T * H" by (simp add: mult.assoc)
  have 3: "of_rows [B, T, H] H (\<lambda>i. if i mod T = t then fst (?cell (i div T))
              else row H i (zeros [B, T, H])) = zeros [B, T, H]"
  proof -
    have "of_rows [B, T, H] H (\<lambda>i. if i mod T = t then fst (?cell (i div T))
              else row H i (zeros [B, T, H])) = of_rows [B, T, H] H (\<lambda>i. replicate H 0)"
      using p3
    proof (rule of_rows_cong)
      fix i assume i: "i < B * T"
      then have "i div T < B" by (simp add: less_mult_imp_div_less)
      moreover have "Suc i * H \<le> prod_list [B, T, H]" using row_bound [OF i, of H] p3 by simp
      ultimately show "take H (if i mod T = t then fst (?cell (i div T))
              else row H i (zeros [B, T, H])) = take H (replicate H 0)"
        by (simp add: cell row_zeros)
    qed
    then show ?thesis by (simp only: zeros_of_rows [OF p3])
  qed
  have "lstm_step data B H (tile_batch B (unsqueeze_first (zeros [4 * H, I])))
           (tile_batch B (unsqueeze_first (zeros [4 * H, H]))) (zeros [4 * H]) (zeros [4 * H]) t
           (zeros sh, zeros sc, zeros [B, T, H])
        = Inr (of_rows sc H (\<lambda>b. fst (?cell b)), of_rows sc H (\<lambda>b. snd (?cell b)),
               of_rows [B, T, H] H (\<lambda>i. if i mod T = t then fst (?cell (i div T))
                 else row H i (zeros [B, T, H])))"
    using sh by (intro lstm_step_closed [OF data t _ _ _ _ _ _ _ _ B sc]) simp_all
  then show ?thesis by (simp only: 1 2 3)
qed

lemma lstm_loop_zero:
  assumes data: "tshape data = [B, T, I]" "well_formed data" and t: "t \<le> T" and B: "B \<noteq> Suc 0"
    and sh: "sh = [B, H] \<or> sh = [Suc 0, B, H]" and sc: "sc = [B, H] \<or> sc = [Suc 0, B, H]"
  shows "eloop (lstm_step data B H (tile_batch B (unsqueeze_first (zeros [4 * H, I])))
           (tile_batch B (unsqueeze_first (zeros [4 * H, H]))) (zeros [4 * H]) (zeros [4 * H]))
           [0..<t] (zeros sh, zeros sc, zeros [B, T, H])
         = Inr (zeros (if t = 0 then sh else sc), zeros sc, zeros [B, T, H])"
  using t
proof (induction t)
  case 0
  show ?case by simp
next
  case (Suc t)
  have t: "t < T" "t \<le> T" using Suc.prems by simp_all
  have p: "prod_list (if t = 0 then sh else sc) = B * H" using sh sc by auto
  show ?case
    using Suc.IH [OF t(2)] lstm_step_zero [OF data t(1) B p sc]
    by (simp add: eloop_append)
qed

lemma lstm_step_activations_zero:
  assumes data: "tshape data = [B, T, I]" "well_formed data" and t: "t < T" and B: "B \<noteq> Suc 0"
    and sh: "prod_list sh = B * H" and sc: "sc = [B, H] \<or> sc = [Suc 0, B, H]"
  shows "lstm_step_activations data B H (tile_batch B (unsqueeze_first (zeros [4 * H, I])))
           (tile_batch B (unsqueeze_first (zeros [4 * H, H]))) (zeros [4 * H]) (zeros [4 * H]) t
           (zeros sh, zeros sc, out)
         = Inr (mk [B, H] (\<lambda>k. 1 / 2), mk [B, H] (\<lambda>k. 1 / 2), zeros [B, H],
                mk [B, H] (\<lambda>k. 1 / 2), zeros sc)"
proof -
  let ?px = "\<lambda>b. matvec (matrix_rows (4 * H) I (zeros [4 * H, I])) (row I (b * T + t) data)"
  let ?ph = "\<lambda>b. matvec (matrix_rows (4 * H) H (zeros [4 * H, H])) (row H b (zeros sh))"
  let ?z = "\<lambda>b. vadd (vadd (vadd (?px b) (tdata (zeros [4 * H]))) (?ph b)) (tdata (zeros [4 * H]))"
  have psc: "prod_list sc = B * H" using sc by auto
  have pbh: "prod_list [B, H] = B * H" by simp
  have z: "?z b = replicate (4 * H) 0" for b
    using lstm_z_spec_zero [of H I H "row I (b * T + t) data" "row H b (zeros sh)"]
    by (simp only: lstm_z_spec_def)
  have rz: "row H b (zeros sc) = replicate H 0" if "b < B" for b
    using row_bound [OF that, of H] psc by (simp add: row_zeros)
  have 1: "rnn_products data B H (tile_batch B (unsqueeze_first (zeros [4 * H, I])))
             (tile_batch B (unsqueeze_first (zeros [4 * H, H]))) t (zeros sh)
           = Inr (of_rows [B, 4 * H, Suc 0] (4 * H) ?px, of_rows [B, 4 * H, Suc 0] (4 * H) ?ph)"
    using sh by (intro rnn_products_closed [OF data t]) simp_all
  have 2: "lstm_gate_values H (of_rows [B, 4 * H, Suc 0] (4 * H) ?px)
             (of_rows [B, 4 * H, Suc 0] (4 * H) ?ph) (zeros [4 * H]) (zeros [4 * H]) (zeros sc)
           = Inr (of_rows [B, H] H (\<lambda>b. map sigmoid (block H 0 (?z b))),
                  of_rows [B, H] H (\<lambda>b. map sigmoid (block H 1 (?z b))),
                  of_rows [B, H] H (\<lambda>b. map tanh (block H 2 (?z b))),
                  of_rows [B, H] H (\<lambda>b. map sigmoid (block H 3 (?z b))),
                  of_rows sc H (\<lambda>b. map tanh (snd (lstm_update_spec H (?z b)
                     (row H b (zeros sc))))))"
    by (rule lstm_gate_values_closed [OF B sc]) simp_all
  have g: "map sigmoid (block H k (replicate (4 * H) 0)) = replicate H (1 / 2)"
    "map tanh (block H k (replicate (4 * H) 0)) = replicate H 0" if "k < 4" for k
    using that by (simp_all add: block_zero)
  have g0: "map sigmoid (block H 0 (replicate (4 * H) 0)) = replicate H (1 / 2)"
    and g1: "map sigmoid (block H 1 (replicate (4 * H) 0)) = replicate H (1 / 2)"
    and g2: "map tanh (block H 2 (replicate (4 * H) 0)) = replicate H 0"
    and g3: "map sigmoid (block H 3 (replicate (4 * H) 0)) = replicate H (1 / 2)"
    using g(1) [of 0] g(1) [of 1] g(2) [of 2] g(1) [of 3] by simp_all
  have 3: "of_rows sc H (\<lambda>b. map tanh (snd (lstm_update_spec H (?z b) (row H b (zeros sc)))))
           = zeros sc"
  proof -
    have "of_rows sc H (\<lambda>b. map tanh (snd (lstm_update_spec H (?z b) (row H b (zeros sc)))))
          = of_rows sc H (\<lambda>b. replicate H 0)"
      using psc by (rule of_rows_cong) (simp add: z rz lstm_update_spec_zero)
    then show ?thesis by (simp only: zeros_of_rows [OF psc])
  qed
  have "lstm_step_activations data B H (tile_batch B (unsqueeze_first (zeros [4 * H, I])))
           (tile_batch B (unsqueeze_first (zeros [4 * H, H]))) (zeros [4 * H]) (zeros [4 * H]) t
           (zeros sh, zeros sc, out)
        = Inr (of_rows [B, H] H (\<lambda>b. map sigmoid (block H 0 (?z b))),
                  of_rows [B, H] H (\<lambda>b. map sigmoid (block H 1 (?z b))),
                  of_rows [B, H] H (\<lambda>b. map tanh (block H 2 (?z b))),
                  of_rows [B, H] H (\<lambda>b. map sigmoid (block H 3 (?z b))),
                  of_rows sc H (\<lambda>b. map tanh (snd (lstm_update_spec H (?z b)
                     (row H b (zeros sc))))))"
    by (simp only: lstm_step_activations_fragments 1 2 ebind_Inr prod.case)
  then have "lstm_step_activations data B H (tile_batch B (unsqueeze_first (zeros [4 * H, I])))
           (tile_batch B (unsqueeze_first (zeros [4 * H, H]))) (zeros [4 * H]) (zeros [4 * H]) t
           (zeros sh, zeros sc, out)
        = Inr (of_rows [B, H] H (\<lambda>b. replicate H (1 / 2)),
               of_rows [B, H] H (\<lambda>b. replicate H (1 / 2)),
               of_rows [B, H] H (\<lambda>b. replicate H 0),
               of_rows [B, H] H (\<lambda>b. replicate H (1 / 2)), zeros sc)"
    by (simp only: 3) (simp only: z g0 g1 g2 g3)
  then show ?thesis
    by (simp only: zeros_of_rows [OF pbh] const_of_rows [OF pbh])
qed

text \<open>
  Claim C8, for batch sizes other than 1, a zero initial state and real-valued (finite)
  inputs.  With all weights and biases zero, in every iteration \<open>t\<close> of the time loop of
  \<^verbatim>\<open>lstm_forward\<close> the three sigmoid gates \<^verbatim>\<open>i_t\<close>, \<^verbatim>\<open>f_t\<close> and \<^verbatim>\<open>o_t\<close> are \<open>1/2\<close> everywhere, the
  candidate \<^verbatim>\<open>g_t\<close> and \<^verbatim>\<open>torch.tanh(prev_c)\<close> are \<open>0\<close> everywhere, whatever the input, and the
  state of the loop after any number of iterations consists of zero tensors: the hidden state
  and the cell state stay at zero, and the output and the final states are zero tensors.
\<close>

theorem lstm_forward_zero_weights:
  assumes "tshape data = [B, T, I]" "well_formed data" "B \<noteq> 1"
    and "sh = [B, H] \<or> sh = [1, B, H]" "sc = [B, H] \<or> sc = [1, B, H]"
  shows "lstm_forward data (zeros sh, zeros sc) (zeros [4 * H, I]) (zeros [4 * H, H])
             (zeros [4 * H]) (zeros [4 * H])
           = Inr (zeros [B, T, H], (zeros (if T = 0 then sh else sc), zeros sc)) \<and>
         (\<forall>t\<le>T. eloop (lstm_step data B H (tile_batch B (unsqueeze_first (zeros [4 * H, I])))
                          (tile_batch B (unsqueeze_first (zeros [4 * H, H])))
                          (zeros [4 * H]) (zeros [4 * H]))
                    [0..<t] (zeros sh, zeros sc, zeros [B, T, H])
                  = Inr (zeros (if t = 0 then sh else sc), zeros sc, zeros [B, T, H])) \<and>
         (\<forall>t<T. lstm_step_activations data B H
                    (tile_batch B (unsqueeze_first (zeros [4 * H, I])))
                    (tile_batch B (unsqueeze_first (zeros [4 * H, H])))
                    (zeros [4 * H]) (zeros [4 * H]) t
                    (zeros (if t = 0 then sh else sc), zeros sc, zeros [B, T, H])
                  = Inr (mk [B, H] (\<lambda>k. 1 / 2), mk [B, H] (\<lambda>k. 1 / 2), zeros [B, H],
                         mk [B, H] (\<lambda>k. 1 / 2), zeros sc))"
proof -
  have B: "B \<noteq> Suc 0" and sh: "sh = [B, H] \<or> sh = [Suc 0, B, H]"
    and sc: "sc = [B, H] \<or> sc = [Suc 0, B, H]"
    using assms(3-5) by simp_all
  have loop: "eloop (lstm_step data B H (tile_batch B (unsqueeze_first (zeros [4 * H, I])))
                          (tile_batch B (unsqueeze_first (zeros [4 * H, H])))
                          (zeros [4 * H]) (zeros [4 * H]))
                    [0..<t] (zeros sh, zeros sc, zeros [B, T, H])
                  = Inr (zeros (if t = 0 then sh else sc), zeros sc, zeros [B, T, H])"
    if "t \<le> T" for t
    using assms(1,2) that B sh sc by (rule lstm_loop_zero)
  have act: "lstm_step_activations data B H
                    (tile_batch B (unsqueeze_first (zeros [4 * H, I])))
                    (tile_batch B (unsqueeze_first (zeros [4 * H, H])))
                    (zeros [4 * H]) (zeros [4 * H]) t
                    (zeros (if t = 0 then sh else sc), zeros sc, zeros [B, T, H])
                  = Inr (mk [B, H] (\<lambda>k. 1 / 2), mk [B, H] (\<lambda>k. 1 / 2), zeros [B, H],
                         mk [B, H] (\<lambda>k. 1 / 2), zeros sc)"
    if "t < T" for t
  proof -
    have "prod_list (if t = 0 then sh else sc) = B * H" using sh sc by auto
    with assms(1,2) that B show ?thesis using sc by (rule lstm_step_activations_zero)
  qed
  have "lstm_forward data (zeros sh, zeros sc) (zeros [4 * H, I]) (zeros [4 * H, H])
             (zeros [4 * H]) (zeros [4 * H])
           = Inr (zeros [B, T, H], (zeros (if T = 0 then sh else sc), zeros sc))"
    using assms(1) loop [of T] by (simp add: lstm_forward_def Let_def)
  then show ?thesis using loop act by blast
qed

theorem lstm_forward_zero_weights_witness:
  "lstm_forward (mk [2, 3, 1] (\<lambda>k. real k)) (zeros [1, 2, 2], zeros [1, 2, 2])
      (zeros [8, 1]) (zeros [8, 2]) (zeros [8]) (zeros [8])
   = Inr (zeros [2, 3, 2], (zeros [1, 2, 2], zeros [1, 2, 2])) \<and>
   lstm_step_activations (mk [2, 3, 1] (\<lambda>k. real k)) 2 2
      (tile_batch 2 (unsqueeze_first (zeros [8, 1]))) (tile_batch 2 (unsqueeze_first (zeros [8, 2])))
      (zeros [8]) (zeros [8]) 2 (zeros [1, 2, 2], zeros [1, 2, 2], zeros [2, 3, 2])
   = Inr (mk [2, 2] (\<lambda>k. 1 / 2), mk [2, 2] (\<lambda>k. 1 / 2), zeros [2, 2],
          mk [2, 2] (\<lambda>k. 1 / 2), zeros [1, 2, 2])"
proof -
  have h: "tshape (mk [2, 3, 1] (\<lambda>k. real k)) = [2, 3, 1]" "well_formed (mk [2, 3, 1] (\<lambda>k. real k))"
    "(2::nat) \<noteq> 1" "[1, 2, 2] = [2, 2] \<or> [1, 2, 2] = [1, 2, 2::nat]"
    "[1, 2, 2] = [2, 2] \<or> [1, 2, 2] = [1, 2, 2::nat]"
    by simp_all
  note r = lstm_forward_zero_weights [OF h]
  from r have a: "lstm_forward (mk [2, 3, 1] (\<lambda>k. real k)) (zeros [1, 2, 2], zeros [1, 2, 2])
      (zeros [4 * 2, 1]) (zeros [4 * 2, 2]) (zeros [4 * 2]) (zeros [4 * 2])
   = Inr (zeros [2, 3, 2], (zeros (if (3::nat) = 0 then [1, 2, 2] else [1, 2, 2]), zeros [1, 2, 2]))"
    by blast
  from r have "\<forall>t<3. lstm_step_activations (mk [2, 3, 1] (\<lambda>k. real k)) 2 2
                    (tile_batch 2 (unsqueeze_first (zeros [4 * 2, 1])))
                    (tile_batch 2 (unsqueeze_first (zeros [4 * 2, 2])))
                    (zeros [4 * 2]) (zeros [4 * 2]) t
                    (zeros (if t = 0 then [1, 2, 2] else [1, 2, 2]), zeros [1, 2, 2], zeros [2, 3, 2])
                  = Inr (mk [2, 2] (\<lambda>k. 1 / 2), mk [2, 2] (\<lambda>k. 1 / 2), zeros [2, 2],
                         mk [2, 2] (\<lambda>k. 1 / 2), zeros [1, 2, 2])"
    by blast
  then have "lstm_step_activations (mk [2, 3, 1] (\<lambda>k. real k)) 2 2
                    (tile_batch 2 (unsqueeze_first (zeros [4 * 2, 1])))
                    (tile_batch 2 (unsqueeze_first (zeros [4 * 2, 2])))
                    (zeros [4 * 2]) (zeros [4 * 2]) 2
                    (zeros (if (2::nat) = 0 then [1, 2, 2] else [1, 2, 2]), zeros [1, 2, 2], zeros [2, 3, 2])
                  = Inr (mk [2, 2] (\<lambda>k. 1 / 2), mk [2, 2] (\<lambda>k. 1 / 2), zeros [2, 2],
                         mk [2, 2] (\<lambda>k. 1 / 2), zeros [1, 2, 2])"
    by simp
  with a show ?thesis by simp
qed

theorem lstm_forward_zero_weights_counterexample:
  "lstm_forward (mk [1, 3, 1] (\<lambda>k. real k)) (zeros [1, 1, 2], zeros [1, 1, 2])
      (zeros [8, 1]) (zeros [8, 2]) (zeros [8]) (zeros [8]) = Inl IndexError"
  by (rule lstm_forward_batch1 [where H = 2 and T = 3 and I = 1]) simp_all

section \<open>The GRU forward pass refines the recurrence\<close>

lemma slice_rows_vector:
  assumes "tshape v = [r]" "well_formed v" "lo \<le> hi" "hi \<le> r"
  shows "slice_rows lo (Some hi) v = Inr (of_vector (take (hi - lo) (drop lo (tdata v))))"
proof -
  have l: "length (tdata v) = r" using assms(1,2) by (simp add: well_formed_def)
  have "map (\<lambda>k. tdata v ! (lo + k)) [0..<hi - lo] = take (hi - lo) (drop lo (tdata v))"
    using l assms(3,4) by (intro nth_equalityI) simp_all
  then show ?thesis
    using assms(1,3,4) l by (simp add: slice_rows_def of_vector_def mk_def min_absorb1 min_absorb2 Let_def)
qed

lemma slice_rows_vector_end:
  assumes "tshape v = [r]" "well_formed v" "lo \<le> r"
  shows "slice_rows lo None v = Inr (of_vector (drop lo (tdata v)))"
proof -
  have l: "length (tdata v) = r" using assms(1,2) by (simp add: well_formed_def)
  have "slice_rows lo None v = slice_rows lo (Some r) v"
    using assms(1) by (simp add: slice_rows_def)
  then show ?thesis
    using slice_rows_vector [OF assms(1,2) assms(3) le_refl] l by simp
qed

lemma tshape_of_vector [simp]: "tshape (of_vector xs) = [length xs]"
  by (simp add: of_vector_def)

lemma tdata_of_vector [simp]: "tdata (of_vector xs) = xs"
  by (simp add: of_vector_def)

lemma gru_vectors:
  fixes px ph bi bh h :: "real list"
  assumes "length px = 3 * H" "length ph = 3 * H" "length bi = 3 * H" "length bh = 3 * H"
    "length h = H"
  defines "rz \<equiv> vadd (vadd (vadd (take (2 * H) px) (take (2 * H) bi)) (take (2 * H) ph))
                   (take (2 * H) bh)"
  defines "rt \<equiv> map sigmoid (take H rz)"
  defines "zt \<equiv> map sigmoid (take H (drop H rz))"
  defines "nt \<equiv> map tanh (vadd (vadd (drop (2 * H) px) (drop (2 * H) bi))
                  (vmul rt (vadd (drop (2 * H) ph) (drop (2 * H) bh))))"
  shows "vadd (vmul (map (\<lambda>z. 1 - z) zt) nt) (vmul zt h) =
           gru_update_spec H (vadd px bi) (vadd ph bh) h"
  using assms(1-5) unfolding rz_def rt_def zt_def nt_def
  by (intro nth_equalityI)
     (simp_all add: gru_update_spec_def Let_def block_def vadd_def vmul_def algebra_simps)


lemma tmul_rows_2d:
  assumes "\<And>b. b < B \<Longrightarrow> length (u b) = n" "\<And>b. b < B \<Longrightarrow> length (v b) = n"
  shows "tmul (of_rows [B, n] n u) (of_rows [B, n] n v) = Inr (of_rows [B, n] n (\<lambda>b. vmul (u b) (v b)))"
  using tmul_of_rows [of "[B, n]" B n "[B, n]" u v] assms by simp

lemma tadd_rows_2d:
  assumes "\<And>b. b < B \<Longrightarrow> length (u b) = n" "\<And>b. b < B \<Longrightarrow> length (v b) = n"
  shows "tadd (of_rows [B, n] n u) (of_rows [B, n] n v) = Inr (of_rows [B, n] n (\<lambda>b. vadd (u b) (v b)))"
  using tadd_of_rows [of "[B, n]" B n "[B, n]" u v] assms by simp

lemma tmul_rows_state:
  assumes "sc = [B, n] \<or> sc = [Suc 0, B, n]"
    "\<And>b. b < B \<Longrightarrow> length (u b) = n" "\<And>b. b < B \<Longrightarrow> length (v b) = n"
  shows "tmul (of_rows [B, n] n u) (of_rows sc n v) = Inr (of_rows sc n (\<lambda>b. vmul (u b) (v b)))"
  using tmul_of_rows [of "[B, n]" B n sc u v] assms by simp

lemma tadd_rows_state:
  assumes "sc = [B, n] \<or> sc = [Suc 0, B, n]"
    "\<And>b. b < B \<Longrightarrow> length (u b) = n" "\<And>b. b < B \<Longrightarrow> length (v b) = n"
  shows "tadd (of_rows [B, n] n u) (of_rows sc n v) = Inr (of_rows sc n (\<lambda>b. vadd (u b) (v b)))"
  using tadd_of_rows [of "[B, n]" B n sc u v] assms by simp

lemma tadd_bias_vector:
  assumes "length v = r" "\<And>b. b < B \<Longrightarrow> length (u b) = r"
  shows "tadd (of_rows [B, r] r u) (of_vector v) = Inr (of_rows [B, r] r (\<lambda>b. vadd (u b) v))"
  using tadd_bias [of "of_vector v" r B u] assms by simp

lemma slice_cols_take:
  assumes "hi \<le> r" "\<And>b. b < B \<Longrightarrow> length (u b) = r"
  shows "slice_cols 0 (Some hi) (of_rows [B, r] r u) = Inr (of_rows [B, hi] hi (\<lambda>b. take hi (u b)))"
  using slice_cols_of_rows [of 0 hi r B u] assms by simp

lemma slice_cols_second:
  assumes "2 * H \<le> r" "\<And>b. b < B \<Longrightarrow> length (u b) = r"
  shows "slice_cols H (Some (2 * H)) (of_rows [B, r] r u)
           = Inr (of_rows [B, H] H (\<lambda>b. take H (drop H (u b))))"
  using slice_cols_of_rows [of H "2 * H" r B u] assms by simp

lemma slice_cols_third:
  assumes "\<And>b. b < B \<Longrightarrow> length (u b) = 3 * H"
  shows "slice_cols (2 * H) None (of_rows [B, 3 * H] (3 * H) u)
           = Inr (of_rows [B, H] H (\<lambda>b. drop (2 * H) (u b)))"
  using slice_cols_of_rows_end [of "2 * H" "3 * H" B u] assms by simp

lemma length_take_eq: "length u = m \<Longrightarrow> n \<le> m \<Longrightarrow> length (take n u) = n"
  by simp

lemma length_take_drop_eq:
  "length u = m \<Longrightarrow> k + n \<le> m \<Longrightarrow> length (take n (drop k u)) = n"
  by simp

lemma length_vadd_eq: "length u = n \<Longrightarrow> length v = n \<Longrightarrow> length (vadd u v) = n"
  by simp

lemma length_vmul_eq: "length u = n \<Longrightarrow> length v = n \<Longrightarrow> length (vmul u v) = n"
  by simp

lemma of_rows_cong_eq:
  assumes "prod_list s = B * n" "\<And>b. b < B \<Longrightarrow> u b = v b"
  shows "of_rows s n u = of_rows s n v"
  using assms(1) by (rule of_rows_cong) (simp add: assms(2))

lemma gru_gates_closed:
  assumes B: "B \<noteq> Suc 0" and sc: "sc = [B, H] \<or> sc = [Suc 0, B, H]"
    and bi: "tshape b_ih = [3 * H]" "well_formed b_ih"
    and bh: "tshape b_hh = [3 * H]" "well_formed b_hh"
    and h: "tshape h = sc" "well_formed h"
    and px: "\<And>b. b < B \<Longrightarrow> length (px b) = 3 * H"
    and ph: "\<And>b. b < B \<Longrightarrow> length (ph b) = 3 * H"
  shows "gru_gates H (of_rows [B, 3 * H, Suc 0] (3 * H) px)
           (of_rows [B, 3 * H, Suc 0] (3 * H) ph) b_ih b_hh h =
         Inr (of_rows sc H (\<lambda>b. gru_update_spec H (vadd (px b) (tdata b_ih))
                                  (vadd (ph b) (tdata b_hh)) (row H b h)))"
proof -
  define x2 where "x2 = (\<lambda>b. take (2 * H) (px b))"
  define h2 where "h2 = (\<lambda>b. take (2 * H) (ph b))"
  define a1 where "a1 = (\<lambda>b. vadd (x2 b) (take (2 * H) (tdata b_ih)))"
  define a2 where "a2 = (\<lambda>b. vadd (a1 b) (h2 b))"
  define rz where "rz = (\<lambda>b. vadd (a2 b) (take (2 * H) (tdata b_hh)))"
  define rt where "rt = (\<lambda>b. map sigmoid (take H (rz b)))"
  define zt where "zt = (\<lambda>b. map sigmoid (take H (drop H (rz b))))"
  define x3 where "x3 = (\<lambda>b. drop (2 * H) (px b))"
  define h3 where "h3 = (\<lambda>b. drop (2 * H) (ph b))"
  define m1 where "m1 = (\<lambda>b. vadd (x3 b) (drop (2 * H) (tdata b_ih)))"
  define m2 where "m2 = (\<lambda>b. vadd (h3 b) (drop (2 * H) (tdata b_hh)))"
  define m3 where "m3 = (\<lambda>b. vmul (rt b) (m2 b))"
  define m4 where "m4 = (\<lambda>b. vadd (m1 b) (m3 b))"
  define nt where "nt = (\<lambda>b. map tanh (m4 b))"
  define omz where "omz = (\<lambda>b. map (\<lambda>z. 1 - z) (zt b))"
  define u1 where "u1 = (\<lambda>b. vmul (omz b) (nt b))"
  define u2 where "u2 = (\<lambda>b. vmul (zt b) (row H b h))"
  define hn where "hn = (\<lambda>b. vadd (u1 b) (u2 b))"
  have n1: "3 * H \<noteq> Suc 0" by arith
  have psc: "prod_list sc = B * H" using sc by auto
  have p2: "prod_list [B, H] = B * H" by simp
  have lvi: "length (tdata b_ih) = 3 * H" using bi by (simp add: well_formed_def)
  have lvh: "length (tdata b_hh) = 3 * H" using bh by (simp add: well_formed_def)
  have lrow: "length (row H b h) = H" if "b < B" for b
    using row_bound [OF that, of H] h psc by (intro length_row) (simp add: well_formed_def)
  have hr: "h = of_rows sc H (\<lambda>b. row H b h)"
    using of_rows_row [of h B H] h psc by simp
  have lv: "length (take (2 * H) (tdata b_ih)) = 2 * H" "length (take (2 * H) (tdata b_hh)) = 2 * H"
    "length (drop (2 * H) (tdata b_ih)) = H" "length (drop (2 * H) (tdata b_hh)) = H"
    using lvi lvh by simp_all
  have lx: "length (x2 b) = 2 * H" "length (h2 b) = 2 * H" "length (x3 b) = H" "length (h3 b) = H"
    if "b < B" for b
    using px [OF that] ph [OF that] by (simp_all add: x2_def h2_def x3_def h3_def)
  have la1: "length (a1 b) = 2 * H" if "b < B" for b
    unfolding a1_def by (intro length_vadd_eq lx [OF that] lv)
  have la2: "length (a2 b) = 2 * H" if "b < B" for b
    unfolding a2_def by (intro length_vadd_eq la1 [OF that] lx [OF that])
  have lrz: "length (rz b) = 2 * H" if "b < B" for b
    unfolding rz_def by (intro length_vadd_eq la2 [OF that] lv)
  have ltr: "length (take H (rz b)) = H" "length (take H (drop H (rz b))) = H" if "b < B" for b
  proof -
    show "length (take H (rz b)) = H"
      by (rule length_take_eq [OF lrz [OF that]]) simp
    show "length (take H (drop H (rz b))) = H"
      by (rule length_take_drop_eq [OF lrz [OF that]]) simp
  qed
  have lrt: "length (rt b) = H" "length (zt b) = H" "length (omz b) = H" if "b < B" for b
    by (simp_all only: rt_def zt_def omz_def length_map ltr [OF that])
  have lm1: "length (m1 b) = H" if "b < B" for b
    unfolding m1_def by (intro length_vadd_eq lx [OF that] lv)
  have lm2: "length (m2 b) = H" if "b < B" for b
    unfolding m2_def by (intro length_vadd_eq lx [OF that] lv)
  have lm3: "length (m3 b) = H" if "b < B" for b
    unfolding m3_def by (intro length_vmul_eq lrt [OF that] lm2 [OF that])
  have lm4: "length (m4 b) = H" if "b < B" for b
    unfolding m4_def by (intro length_vadd_eq lm1 [OF that] lm3 [OF that])
  have lnt: "length (nt b) = H" if "b < B" for b
    by (simp only: nt_def length_map lm4 [OF that])
  have lu1: "length (u1 b) = H" if "b < B" for b
    unfolding u1_def by (intro length_vmul_eq lrt [OF that] lnt [OF that])
  have lu2: "length (u2 b) = H" if "b < B" for b
    unfolding u2_def by (intro length_vmul_eq lrt [OF that] lrow [OF that])
  have sx: "squeeze (of_rows [B, 3 * H, Suc 0] (3 * H) px) = of_rows [B, 3 * H] (3 * H) px"
    using B n1 by (rule squeeze_of_rows)
  have sh: "squeeze (of_rows [B, 3 * H, Suc 0] (3 * H) ph) = of_rows [B, 3 * H] (3 * H) ph"
    using B n1 by (rule squeeze_of_rows)
  have e1: "slice_cols 0 (Some (2 * H)) (of_rows [B, 3 * H] (3 * H) px)
              = Inr (of_rows [B, 2 * H] (2 * H) x2)"
    unfolding x2_def by (rule slice_cols_take [OF _ px]) simp_all
  have e2: "slice_rows 0 (Some (2 * H)) b_ih = Inr (of_vector (take (2 * H) (tdata b_ih)))"
    using slice_rows_vector [OF bi, of 0 "2 * H"] by simp
  have e3: "tadd (of_rows [B, 2 * H] (2 * H) x2) (of_vector (take (2 * H) (tdata b_ih)))
              = Inr (of_rows [B, 2 * H] (2 * H) a1)"
    unfolding a1_def by (intro tadd_bias_vector lx lv)
  have e4: "slice_cols 0 (Some (2 * H)) (of_rows [B, 3 * H] (3 * H) ph)
              = Inr (of_rows [B, 2 * H] (2 * H) h2)"
    unfolding h2_def by (rule slice_cols_take [OF _ ph]) simp_all
  have e5: "tadd (of_rows [B, 2 * H] (2 * H) a1) (of_rows [B, 2 * H] (2 * H) h2)
              = Inr (of_rows [B, 2 * H] (2 * H) a2)"
    unfolding a2_def by (intro tadd_rows_2d la1 lx)
  have e6: "slice_rows 0 (Some (2 * H)) b_hh = Inr (of_vector (take (2 * H) (tdata b_hh)))"
    using slice_rows_vector [OF bh, of 0 "2 * H"] by simp
  have e7: "tadd (of_rows [B, 2 * H] (2 * H) a2) (of_vector (take (2 * H) (tdata b_hh)))
              = Inr (of_rows [B, 2 * H] (2 * H) rz)"
    unfolding rz_def by (intro tadd_bias_vector la2 lv)
  have e8: "slice_cols 0 (Some H) (of_rows [B, 2 * H] (2 * H) rz)
              = Inr (of_rows [B, H] H (\<lambda>b. take H (rz b)))"
    by (rule slice_cols_take [OF _ lrz]) simp_all
  have e9: "slice_cols H (Some (2 * H)) (of_rows [B, 2 * H] (2 * H) rz)
              = Inr (of_rows [B, H] H (\<lambda>b. take H (drop H (rz b))))"
    by (rule slice_cols_second [OF _ lrz]) simp_all
  have e10: "tmap sigmoid (of_rows [B, H] H (\<lambda>b. take H (rz b))) = of_rows [B, H] H rt"
    unfolding rt_def by (rule tmap_of_rows [OF p2 ltr(1)])
  have e11: "tmap sigmoid (of_rows [B, H] H (\<lambda>b. take H (drop H (rz b)))) = of_rows [B, H] H zt"
    unfolding zt_def by (rule tmap_of_rows [OF p2 ltr(2)])
  have e12: "slice_cols (2 * H) None (of_rows [B, 3 * H] (3 * H) px) = Inr (of_rows [B, H] H x3)"
    unfolding x3_def by (rule slice_cols_third [OF px])
  have e13: "slice_rows (2 * H) None b_ih = Inr (of_vector (drop (2 * H) (tdata b_ih)))"
    using slice_rows_vector_end [OF bi, of "2 * H"] by simp
  have e14: "tadd (of_rows [B, H] H x3) (of_vector (drop (2 * H) (tdata b_ih))) = Inr (of_rows [B, H] H m1)"
    unfolding m1_def by (intro tadd_bias_vector lx lv)
  have e15: "slice_cols (2 * H) None (of_rows [B, 3 * H] (3 * H) ph) = Inr (of_rows [B, H] H h3)"
    unfolding h3_def by (rule slice_cols_third [OF ph])
  have e16: "slice_rows (2 * H) None b_hh = Inr (of_vector (drop (2 * H) (tdata b_hh)))"
    using slice_rows_vector_end [OF bh, of "2 * H"] by simp
  have e17: "tadd (of_rows [B, H] H h3) (of_vector (drop (2 * H) (tdata b_hh))) = Inr (of_rows [B, H] H m2)"
    unfolding m2_def by (intro tadd_bias_vector lx lv)
  have e18: "tmul (of_rows [B, H] H rt) (of_rows [B, H] H m2) = Inr (of_rows [B, H] H m3)"
    unfolding m3_def by (intro tmul_rows_2d lrt lm2)
  have e19: "tadd (of_rows [B, H] H m1) (of_rows [B, H] H m3) = Inr (of_rows [B, H] H m4)"
    unfolding m4_def by (intro tadd_rows_2d lm1 lm3)
  have e20: "tmap tanh (of_rows [B, H] H m4) = of_rows [B, H] H nt"
    unfolding nt_def by (rule tmap_of_rows [OF p2 lm4])
  have e21: "tmap (\<lambda>z. 1 - z) (of_rows [B, H] H zt) = of_rows [B, H] H omz"
    unfolding omz_def by (rule tmap_of_rows [OF p2 lrt(2)])
  have e22: "tmul (of_rows [B, H] H omz) (of_rows [B, H] H nt) = Inr (of_rows [B, H] H u1)"
    unfolding u1_def by (intro tmul_rows_2d lrt lnt)
  have e23: "tmul (of_rows [B, H] H zt) h = Inr (of_rows sc H u2)"
  proof -
    have "tmul (of_rows [B, H] H zt) (of_rows sc H (\<lambda>b. row H b h)) = Inr (of_rows sc H u2)"
      unfolding u2_def by (intro tmul_rows_state sc lrt lrow)
    then show ?thesis using hr by simp
  qed
  have e24: "tadd (of_rows [B, H] H u1) (of_rows sc H u2) = Inr (of_rows sc H hn)"
    unfolding hn_def by (intro tadd_rows_state sc lu1 lu2)
  have fin: "of_rows sc H hn
           = of_rows sc H (\<lambda>b. gru_update_spec H (vadd (px b) (tdata b_ih))
                                  (vadd (ph b) (tdata b_hh)) (row H b h))"
  proof (rule of_rows_cong_eq [OF psc])
    fix b assume b: "b < B"
    show "hn b = gru_update_spec H (vadd (px b) (tdata b_ih)) (vadd (ph b) (tdata b_hh))
                   (row H b h)"
      unfolding hn_def u1_def u2_def omz_def nt_def m4_def m3_def m2_def m1_def h3_def x3_def
        zt_def rt_def rz_def a2_def a1_def h2_def x2_def
      by (rule gru_vectors [OF px [OF b] ph [OF b] lvi lvh lrow [OF b]])
  qed
  have "gru_gates H (of_rows [B, 3 * H, Suc 0] (3 * H) px)
           (of_rows [B, 3 * H, Suc 0] (3 * H) ph) b_ih b_hh h = Inr (of_rows sc H hn)"
    by (simp only: gru_gates_def Let_def sx sh e1 e2 e3 e4 e5 e6 e7 e8 e9 e10 e11 e12 e13 e14
        e15 e16 e17 e18 e19 e20 e21 e22 e23 e24 ebind_Inr)
  then show ?thesis by (simp only: fin)
qed


lemma gru_update_spec_length:
  assumes p: "length p = 3 * H" and q: "length q = 3 * H" and h: "length h = H"
  shows "length (gru_update_spec H p q h) = H"
proof -
  have lp: "length (block H 0 p) = H" "length (block H 1 p) = H" "length (block H 2 p) = H"
    using p by (simp_all add: block_def)
  have lq: "length (block H 0 q) = H" "length (block H 1 q) = H" "length (block H 2 q) = H"
    using q by (simp_all add: block_def)
  have lr: "length (map sigmoid (vadd (block H 0 p) (block H 0 q))) = H"
    "length (map sigmoid (vadd (block H 1 p) (block H 1 q))) = H"
    by (simp_all only: length_map length_vadd_eq [OF lp(1) lq(1)] length_vadd_eq [OF lp(2) lq(2)])
  have lrq: "length (vmul (map sigmoid (vadd (block H 0 p) (block H 0 q))) (block H 2 q)) = H"
    by (rule length_vmul_eq [OF lr(1) lq(3)])
  have ln: "length (map tanh (vadd (block H 2 p)
              (vmul (map sigmoid (vadd (block H 0 p) (block H 0 q))) (block H 2 q)))) = H"
    using length_vadd_eq [OF lp(3) lrq] by (simp only: length_map)
  have lomz: "length (map (\<lambda>z. 1 - z) (map sigmoid (vadd (block H 1 p) (block H 1 q)))) = H"
    using lr(2) by (simp only: length_map)
  show ?thesis
    unfolding gru_update_spec_def Let_def
    by (intro length_vadd_eq length_vmul_eq lomz ln lr(2) h)
qed

lemma gru_cell_spec_length:
  assumes "length W_ih = 3 * H" "length W_hh = 3 * H" "length b_ih = 3 * H" "length b_hh = 3 * H"
    "length h = H"
  shows "length (gru_cell_spec H W_ih W_hh b_ih b_hh h x) = H"
  unfolding gru_cell_spec_def using assms
  by (intro gru_update_spec_length length_vadd_eq) simp_all

lemma gru_step_closed:
  assumes data: "tshape data = [B, T, I]" "well_formed data" and t: "t < T"
    and wih: "tshape w_ih = [3 * H, I]" "well_formed w_ih"
    and whh: "tshape w_hh = [3 * H, H]" "well_formed w_hh"
    and bi: "tshape b_ih = [3 * H]" "well_formed b_ih"
    and bh: "tshape b_hh = [3 * H]" "well_formed b_hh"
    and B: "B \<noteq> Suc 0" and sc: "sc = [B, H] \<or> sc = [Suc 0, B, H]"
    and h: "tshape h = sc" "well_formed h"
    and out: "well_formed out" "tshape out = [B, T, H]"
  shows "gru_step data B H (tile_batch B (unsqueeze_first w_ih))
           (tile_batch B (unsqueeze_first w_hh)) b_ih b_hh t (h, out) =
         Inr (of_rows sc H (\<lambda>b. gru_cell_spec H (matrix_rows (3 * H) I w_ih)
                  (matrix_rows (3 * H) H w_hh) (tdata b_ih) (tdata b_hh)
                  (row H b h) (row I (b * T + t) data)),
              of_rows [B, T, H] H (\<lambda>i. if i mod T = t
                 then gru_cell_spec H (matrix_rows (3 * H) I w_ih)
                        (matrix_rows (3 * H) H w_hh) (tdata b_ih) (tdata b_hh)
                        (row H (i div T) h) (row I (i div T * T + t) data)
                 else row H i out))"
proof -
  have ph: "prod_list (tshape h) = B * H" using h(1) sc by auto
  show ?thesis
    by (simp add: gru_step_fragments
        rnn_products_closed [OF data t wih whh h(2) ph]
        gru_gates_closed [OF B sc bi bh h]
        setitem_of_rows [OF sc B t out]
        gru_cell_spec_def cong: if_cong)
qed

lemma gru_state_spec_0 [simp]: "gru_state_spec H W_ih W_hh b_ih b_hh xs s 0 = s"
  by (simp add: gru_state_spec_def)

lemma gru_state_spec_Suc:
  "n < length xs \<Longrightarrow> gru_state_spec H W_ih W_hh b_ih b_hh xs s (Suc n) =
     gru_cell_spec H W_ih W_hh b_ih b_hh (gru_state_spec H W_ih W_hh b_ih b_hh xs s n) (xs ! n)"
  by (simp add: gru_state_spec_def take_Suc_conv_app_nth)

lemma gru_trace_0: "gru_trace T I H data h0 w_ih w_hh b_ih b_hh b 0 = row H b h0"
  by (simp add: gru_trace_def)

lemma gru_trace_Suc:
  "t < T \<Longrightarrow> gru_trace T I H data h0 w_ih w_hh b_ih b_hh b (Suc t) =
     gru_cell_spec H (matrix_rows (3 * H) I w_ih) (matrix_rows (3 * H) H w_hh)
       (tdata b_ih) (tdata b_hh) (gru_trace T I H data h0 w_ih w_hh b_ih b_hh b t)
       (row I (b * T + t) data)"
  by (simp add: gru_trace_def gru_state_spec_Suc)

lemma gru_loop:
  assumes data: "tshape data = [B, T, I]" "well_formed data"
    and wih: "tshape w_ih = [3 * H, I]" "well_formed w_ih"
    and whh: "tshape w_hh = [3 * H, H]" "well_formed w_hh"
    and bi: "tshape b_ih = [3 * H]" "well_formed b_ih"
    and bh: "tshape b_hh = [3 * H]" "well_formed b_hh"
    and B: "B \<noteq> Suc 0"
    and h0: "well_formed h0" "tshape h0 = [B, H] \<or> tshape h0 = [Suc 0, B, H]"
    and out0: "well_formed out0" "tshape out0 = [B, T, H]"
  defines "S \<equiv> gru_trace T I H data h0 w_ih w_hh b_ih b_hh"
  shows "\<exists>h out.
           eloop (gru_step data B H (tile_batch B (unsqueeze_first w_ih))
                    (tile_batch B (unsqueeze_first w_hh)) b_ih b_hh) [0..<T] (h0, out0)
             = Inr (h, out) \<and>
           well_formed h \<and> tshape h = tshape h0 \<and> (T = 0 \<longrightarrow> h = h0) \<and>
           well_formed out \<and> tshape out = [B, T, H] \<and>
           (\<forall>b<B. row H b h = S b T) \<and>
           (\<forall>b<B. \<forall>t<T. row H (b * T + t) out = S b (Suc t))"
proof -
  let ?body = "gru_step data B H (tile_batch B (unsqueeze_first w_ih))
                 (tile_batch B (unsqueeze_first w_hh)) b_ih b_hh"
  define P where "P = (\<lambda>n (s :: tensor \<times> tensor). case s of (h, out) \<Rightarrow>
           well_formed h \<and> tshape h = tshape h0 \<and> (n = 0 \<longrightarrow> h = h0) \<and>
           well_formed out \<and> tshape out = [B, T, H] \<and>
           (\<forall>b<B. row H b h = S b n) \<and>
           (\<forall>b<B. \<forall>t<n. row H (b * T + t) out = S b (Suc t)))"
  have lbi: "length (tdata b_ih) = 3 * H" using bi by (simp add: well_formed_def)
  have lbh: "length (tdata b_hh) = 3 * H" using bh by (simp add: well_formed_def)
  have psc: "prod_list (tshape h0) = B * H" using h0(2) by auto
  have init: "P 0 (h0, out0)"
    using h0 out0 by (simp add: P_def S_def gru_trace_0)
  have step: "\<exists>s'. ?body n s = Inr s' \<and> P (Suc n) s'" if n: "n < T" and Pn: "P n s" for n s
  proof -
    obtain h out where s: "s = (h, out)" by (cases s)
    from Pn have h: "tshape h = tshape h0" "well_formed h"
      and out: "well_formed out" "tshape out = [B, T, H]"
      and rows: "\<And>b. b < B \<Longrightarrow> row H b h = S b n"
      and orows: "\<And>b t. b < B \<Longrightarrow> t < n \<Longrightarrow> row H (b * T + t) out = S b (Suc t)"
      by (simp_all add: P_def s)
    let ?cell = "\<lambda>b. gru_cell_spec H (matrix_rows (3 * H) I w_ih) (matrix_rows (3 * H) H w_hh)
                    (tdata b_ih) (tdata b_hh) (row H b h) (row I (b * T + n) data)"
    have lrow: "length (row H b h) = H" if "b < B" for b
      using row_bound [OF that, of H] h psc by (intro length_row) (simp add: well_formed_def)
    have lcell: "length (?cell b) = H" if "b < B" for b
      using lbi lbh lrow [OF that] by (intro gru_cell_spec_length) simp_all
    have cell: "?cell b = S b (Suc n)" if "b < B" for b
      using rows [OF that] n by (simp add: S_def gru_trace_Suc)
    let ?h' = "of_rows (tshape h0) H ?cell"
    let ?out' = "of_rows [B, T, H] H (\<lambda>i. if i mod T = n then ?cell (i div T) else row H i out)"
    have eq: "?body n s = Inr (?h', ?out')"
      unfolding s by (rule gru_step_closed [OF data n wih whh bi bh B h0(2) h out])
    have r1: "row H b ?h' = S b (Suc n)" if "b < B" for b
    proof -
      have "row H b ?h' = ?cell b"
        using psc that lcell [OF that] by (rule row_of_rows)
      then show ?thesis by (simp only: cell [OF that])
    qed
    have r2: "row H (b * T + t) ?out' = S b (Suc t)" if b: "b < B" and t: "t < Suc n" for b t
    proof -
      have tT: "t < T" using t n by simp
      have i: "b * T + t < B * T"
        using idx_less [of "b * Suc 0" B "Suc 0" t T] b tT by simp
      have lo: "length (tdata out) = B * T * H" using out by (simp add: well_formed_def mult.assoc)
      have "Suc (b * T + t) * H \<le> length (tdata out)" using row_bound [OF i, of H] lo by simp
      then have lr: "length (row H (b * T + t) out) = H" by (rule length_row)
      have dm: "(b * T + t) div T = b" "(b * T + t) mod T = t" using tT by simp_all
      have l: "length (if (b * T + t) mod T = n then ?cell ((b * T + t) div T)
                   else row H (b * T + t) out) = H"
        unfolding dm using lcell [OF b] lr by simp
      have "row H (b * T + t) ?out' = (if (b * T + t) mod T = n then ?cell ((b * T + t) div T)
                   else row H (b * T + t) out)"
      proof (rule row_of_rows [where B = "B * T"])
        show "prod_list [B, T, H] = B * T * H" by (simp add: mult.assoc)
        show "b * T + t < B * T" by (rule i)
        show "length (if (b * T + t) mod T = n then ?cell ((b * T + t) div T)
                   else row H (b * T + t) out) = H" by (rule l)
      qed
      also have "\<dots> = S b (Suc t)"
        unfolding dm using t cell [OF b] orows [OF b, of t] by (cases "t = n") simp_all
      finally show ?thesis .
    qed
    have "P (Suc n) (?h', ?out')"
      using r1 r2 by (simp add: P_def)
    then show ?thesis using eq by blast
  qed
  obtain s where s: "eloop ?body [0..<T] (h0, out0) = Inr s" "P T s"
    using eloop_invariant [of P "(h0, out0)" T ?body, OF init step] by blast
  obtain h out where "s = (h, out)" by (cases s)
  then show ?thesis using s by (auto simp add: P_def)
qed

lemma gru_forward_refines:
  assumes data: "tshape data = [B, T, I]" "well_formed data"
    and wih: "tshape w_ih = [3 * H, I]" "well_formed w_ih"
    and whh: "tshape w_hh = [3 * H, H]" "well_formed w_hh"
    and bi: "tshape b_ih = [3 * H]" "well_formed b_ih"
    and bh: "tshape b_hh = [3 * H]" "well_formed b_hh"
    and B: "B \<noteq> 1"
    and h0: "well_formed h0" "tshape h0 = [B, H] \<or> tshape h0 = [1, B, H]"
  shows "\<exists>out h.
           gru_forward data h0 w_ih w_hh b_ih b_hh = Inr (out, h) \<and>
           well_formed h \<and> tshape h = tshape h0 \<and> (T = 0 \<longrightarrow> h = h0) \<and>
           well_formed out \<and> tshape out = [B, T, H] \<and>
           (\<forall>b<B. row H b h = gru_trace T I H data h0 w_ih w_hh b_ih b_hh b T) \<and>
           (\<forall>b<B. \<forall>t<T. row H (b * T + t) out =
                  gru_trace T I H data h0 w_ih w_hh b_ih b_hh b (Suc t))"
proof -
  have B': "B \<noteq> Suc 0" using B by simp
  have h0': "tshape h0 = [B, H] \<or> tshape h0 = [Suc 0, B, H]" using h0(2) by simp
  have o: "well_formed (zeros [B, T, H])" "tshape (zeros [B, T, H]) = [B, T, H]"
    by simp_all
  obtain h out where r:
    "eloop (gru_step data B H (tile_batch B (unsqueeze_first w_ih))
                    (tile_batch B (unsqueeze_first w_hh)) b_ih b_hh) [0..<T]
        (h0, zeros [B, T, H]) = Inr (h, out)"
    "well_formed h" "tshape h = tshape h0" "T = 0 \<longrightarrow> h = h0"
    "well_formed out" "tshape out = [B, T, H]"
    "\<forall>b<B. row H b h = gru_trace T I H data h0 w_ih w_hh b_ih b_hh b T"
    "\<forall>b<B. \<forall>t<T. row H (b * T + t) out =
           gru_trace T I H data h0 w_ih w_hh b_ih b_hh b (Suc t)"
    using gru_loop [OF data wih whh bi bh B' h0(1) h0' o] by blast
  have "gru_forward data h0 w_ih w_hh b_ih b_hh = Inr (out, h)"
    using data(1) wih(1) r(1) by (simp add: gru_forward_def Let_def)
  then show ?thesis using r(2-8) by blast
qed


text \<open>
  Claim C2, for batch sizes other than 1 (at batch size 1 the function raises, see
  \<open>gru_forward_batch1\<close>).  For an input of shape \<open>(B, T, I)\<close>, weights of shapes
  \<open>(3H, I)\<close> and \<open>(3H, H)\<close>, biases of shape \<open>(3H)\<close> and an initial state of shape
  \<open>(B, H)\<close> or \<open>(1, B, H)\<close>, \<^verbatim>\<open>gru_forward\<close> returns, and for every batch element \<open>b\<close> and
  time step \<open>t\<close> the state \<open>h_t\<close> is obtained from \<open>h_{t-1}\<close> and \<open>x_t\<close> by the recurrence of
  section 4.3 (\<open>gru_cell_spec\<close>: reset and update gates from the first two blocks of
  \<open>p_t + q_t\<close>, the candidate \<open>tanh (p_t[2H:3H] + r_t \<odot> q_t[2H:3H])\<close> with the reset gate
  on the hidden term only, \<open>h_t = (1 - z_t) \<odot> n_t + z_t \<odot> h_{t-1}\<close>); \<open>h_t\<close> is row
  \<open>(b, t)\<close> of the output and the final state is the state after \<open>T\<close> steps.
\<close>

theorem gru_forward_recurrence:
  assumes "tshape data = [B, T, I]" "well_formed data"
    and "tshape w_ih = [3 * H, I]" "well_formed w_ih"
    and "tshape w_hh = [3 * H, H]" "well_formed w_hh"
    and "tshape b_ih = [3 * H]" "well_formed b_ih"
    and "tshape b_hh = [3 * H]" "well_formed b_hh"
    and "B \<noteq> 1"
    and "well_formed h0" "tshape h0 = [B, H] \<or> tshape h0 = [1, B, H]"
  shows "\<exists>out h_T.
           gru_forward data h0 w_ih w_hh b_ih b_hh = Inr (out, h_T) \<and>
           tshape out = [B, T, H] \<and> well_formed out \<and>
           (\<forall>b<B.
              gru_trace T I H data h0 w_ih w_hh b_ih b_hh b 0 = row H b h0 \<and>
              (\<forall>t<T.
                 gru_trace T I H data h0 w_ih w_hh b_ih b_hh b (Suc t) =
                   gru_cell_spec H (matrix_rows (3 * H) I w_ih) (matrix_rows (3 * H) H w_hh)
                     (tdata b_ih) (tdata b_hh)
                     (gru_trace T I H data h0 w_ih w_hh b_ih b_hh b t)
                     (row I (b * T + t) data) \<and>
                 row H (b * T + t) out = gru_trace T I H data h0 w_ih w_hh b_ih b_hh b (Suc t)) \<and>
              row H b h_T = gru_trace T I H data h0 w_ih w_hh b_ih b_hh b T)"
  using gru_forward_refines [OF assms] by (auto simp add: gru_trace_Suc gru_trace_0)

theorem gru_forward_recurrence_witness:
  "gru_forward (zeros [2, 1, 1]) (mk [1, 2, 1] (\<lambda>k. 1))
      (zeros [3, 1]) (zeros [3, 1]) (zeros [3]) (zeros [3])
   = Inr (\<lparr>tshape = [2, 1, 1], tdata = [1 / 2, 1 / 2]\<rparr>,
          \<lparr>tshape = [1, 2, 1], tdata = [1 / 2, 1 / 2]\<rparr>)"
proof -
  have h: "tshape (zeros [2, 1, 1]) = [2, 1, 1]" "well_formed (zeros [2, 1, 1])"
    "tshape (zeros [3, 1]) = [3 * 1, 1]" "well_formed (zeros [3, 1])"
    "tshape (zeros [3, 1]) = [3 * 1, 1]" "well_formed (zeros [3, 1])"
    "tshape (zeros [3]) = [3 * 1]" "well_formed (zeros [3])"
    "tshape (zeros [3]) = [3 * 1]" "well_formed (zeros [3])"
    "(2::nat) \<noteq> 1"
    "well_formed (mk [1, 2, 1] (\<lambda>k. 1))"
    "tshape (mk [1, 2, 1] (\<lambda>k. 1)) = [2, 1] \<or> tshape (mk [1, 2, 1] (\<lambda>k. 1)) = [1, 2, 1]"
    by simp_all
  have e: "gru_forward (zeros [2, 1, 1]) (mk [1, 2, 1] (\<lambda>k. 1))
      (zeros [3, 1]) (zeros [3, 1]) (zeros [3]) (zeros [3])
   = Inr (\<lparr>tshape = [2, 1, 1], tdata = [1 / 2, 1 / 2]\<rparr>,
          \<lparr>tshape = [1, 2, 1], tdata = [1 / 2, 1 / 2]\<rparr>)"
    by (simp add: gru_forward_def gru_step_def tensor_eval)
  from gru_forward_recurrence [OF h] e show ?thesis by blast
qed

theorem gru_forward_recurrence_counterexample:
  "gru_forward (zeros [1, 1, 1]) (zeros [1, 1, 1])
      (zeros [3, 1]) (zeros [3, 1]) (zeros [3]) (zeros [3]) = Inl IndexError"
  by (rule gru_forward_batch1 [where H = 1 and T = 1 and I = 1]) simp_all

text \<open>
  Claim C6, for batch sizes other than 1.  For a well-shaped input, \<^verbatim>\<open>gru_forward\<close> returns
  a pair of an output of shape \<open>(B, T, H)\<close> and a final hidden state that has the shape of the
  initial hidden state, \<open>(B, H)\<close> when that is how \<open>h0\<close> is supplied; there is no cell state.
\<close>

theorem gru_forward_shapes:
  assumes "tshape data = [B, T, I]" "well_formed data"
    and "tshape w_ih = [3 * H, I]" "well_formed w_ih"
    and "tshape w_hh = [3 * H, H]" "well_formed w_hh"
    and "tshape b_ih = [3 * H]" "well_formed b_ih"
    and "tshape b_hh = [3 * H]" "well_formed b_hh"
    and "B \<noteq> 1"
    and "well_formed h0" "tshape h0 = [B, H]"
  shows "\<exists>out h_T.
           gru_forward data h0 w_ih w_hh b_ih b_hh = Inr (out, h_T) \<and>
           tshape out = [B, T, H] \<and> tshape h_T = [B, H]"
proof -
  have "tshape h0 = [B, H] \<or> tshape h0 = [1, B, H]" using assms(13) by simp
  from gru_forward_refines [OF assms(1-12) this]
  show ?thesis using assms(13) by auto
qed

theorem gru_forward_shapes_witness:
  "map_sum id (\<lambda>(out, h_T). (tshape out, tshape h_T))
     (gru_forward (zeros [3, 2, 2]) (zeros [3, 2])
        (zeros [6, 2]) (zeros [6, 2]) (zeros [6]) (zeros [6]))
   = Inr ([3, 2, 2], [3, 2])"
proof -
  have h: "tshape (zeros [3, 2, 2]) = [3, 2, 2]" "well_formed (zeros [3, 2, 2])"
    "tshape (zeros [6, 2]) = [3 * 2, 2]" "well_formed (zeros [6, 2])"
    "tshape (zeros [6, 2]) = [3 * 2, 2]" "well_formed (zeros [6, 2])"
    "tshape (zeros [6]) = [3 * 2]" "well_formed (zeros [6])"
    "tshape (zeros [6]) = [3 * 2]" "well_formed (zeros [6])"
    "(3::nat) \<noteq> 1"
    "well_formed (zeros [3, 2])" "tshape (zeros [3, 2]) = [3, 2]"
    by simp_all
  from gru_forward_shapes [OF h] show ?thesis by auto
qed

theorem gru_forward_shapes_counterexample:
  "gru_forward (zeros [1, 2, 3]) (zeros [1, 2])
      (zeros [6, 3]) (zeros [6, 2]) (zeros [6]) (zeros [6]) = Inl IndexError"
  by (rule gru_forward_batch1 [where H = 2 and T = 2 and I = 3]) simp_all


section \<open>The LSTM forward pass with a projection\<close>

text \<open>With a projection matrix of shape \<open>(P, H)\<close> the loop body of the second
  \<^verbatim>\<open>lstm_forward\<close> computes the cell of section 4.2, provided that none of \<open>B\<close>, \<open>H\<close> and
  \<open>P\<close> is 1 (the two \<^verbatim>\<open>squeeze()\<close> calls around the projection drop every dimension of
  size 1).\<close>

lemma matvec_entry_vector:
  assumes "i < r" "length (tdata w) = r * c" "length v = c"
  shows "matvec (matrix_rows r c w) v ! i = (\<Sum>l\<leftarrow>[0..<c]. tdata w ! (i * c + l) * v ! l)"
proof -
  have bw: "Suc i * c \<le> length (tdata w)" using row_bound [OF assms(1), of c] assms(2) by simp
  have "matvec (matrix_rows r c w) v ! i = dot (row c i w) v"
    using assms(1) by (simp add: matvec_def matrix_rows_def)
  also have "\<dots> = (\<Sum>l\<leftarrow>[0..<c]. row c i w ! l * v ! l)"
    using bw assms(3) by (intro dot_sum) (simp_all add: length_row)
  also have "\<dots> = (\<Sum>l\<leftarrow>[0..<c]. tdata w ! (i * c + l) * v ! l)"
    using bw by (intro sum_upt_cong) (simp add: nth_row)
  finally show ?thesis .
qed

lemma squeeze_state:
  assumes "sc = [B, H] \<or> sc = [Suc 0, B, H]" "B \<noteq> Suc 0" "H \<noteq> Suc 0"
  shows "squeeze (of_rows sc H u) = of_rows [B, H] H u"
  using assms by (auto simp add: squeeze_def of_rows_def mk_def)

lemma lstm_project_closed:
  assumes B: "B \<noteq> Suc 0" and H: "H \<noteq> Suc 0" and P: "P \<noteq> Suc 0"
    and sc: "sc = [B, H] \<or> sc = [Suc 0, B, H]"
    and whr: "tshape w_hr = [P, H]" "well_formed w_hr"
    and len: "\<And>b. b < B \<Longrightarrow> length (u b) = H"
  shows "lstm_project (tile_batch B (unsqueeze_first w_hr)) (of_rows sc H u) =
           Inr (of_rows [B, P] P (\<lambda>b. matvec (matrix_rows P H w_hr) (u b)))"
proof -
  have lw: "length (tdata w_hr) = P * H" using whr by (simp add: well_formed_def)
  have "mk [B, P, Suc 0] (\<lambda>k. \<Sum>l\<leftarrow>[0..<H]. tdata w_hr ! (k mod P * H + l) *
               u ((k div P * H + l) div H) ! ((k div P * H + l) mod H))
      = of_rows [B, P, Suc 0] P (\<lambda>b. matvec (matrix_rows P H w_hr) (u b))"
  proof (rule of_rowsI [where B = B])
    fix b j assume b: "b < B" and j: "j < P"
    have "matvec (matrix_rows P H w_hr) (u b) ! j
            = (\<Sum>l\<leftarrow>[0..<H]. tdata w_hr ! (j * H + l) * u b ! l)"
      using j lw len [OF b] by (rule matvec_entry_vector)
    also have "\<dots> = (\<Sum>l\<leftarrow>[0..<H]. tdata w_hr ! ((b * P + j) mod P * H + l) *
               u (((b * P + j) div P * H + l) div H) ! (((b * P + j) div P * H + l) mod H))"
      using j by (intro sum_upt_cong) simp
    finally show "(\<Sum>l\<leftarrow>[0..<H]. tdata w_hr ! ((b * P + j) mod P * H + l) *
               u (((b * P + j) div P * H + l) div H) ! (((b * P + j) div P * H + l) mod H))
          = matvec (matrix_rows P H w_hr) (u b) ! j" by simp
  qed simp
  then have "bmm (mk [B, P, H] (\<lambda>k. tdata w_hr ! (k mod (P * H))))
               (unsqueeze_last (mk [B, H] (\<lambda>k. u (k div H) ! (k mod H))))
      = Inr (of_rows [B, P, Suc 0] P (\<lambda>b. matvec (matrix_rows P H w_hr) (u b)))"
    by (simp only: bmm_matvec)
  then show ?thesis
    using squeeze_state [OF sc B H, of u] whr(1) B P
    by (simp add: lstm_project_def tile_unsqueeze squeeze_of_rows)
      (simp add: of_rows_def squeeze_col)
qed


lemma lstmp_cell_spec_length:
  assumes "length W_ih = 4 * H" "length W_hh = 4 * H" "length b_ih = 4 * H" "length b_hh = 4 * H"
    "length (snd s) = H"
  shows "length (fst (lstmp_cell_spec H W_ih W_hh b_ih b_hh W_hr s x)) = length W_hr"
    "length (snd (lstmp_cell_spec H W_ih W_hh b_ih b_hh W_hr s x)) = H"
  using assms by (simp_all add: lstmp_cell_spec_def Let_def lstm_cell_spec_length)

lemma lstm_proj_step_closed:
  assumes data: "tshape data = [B, T, I]" "well_formed data" and t: "t < T"
    and wih: "tshape w_ih = [4 * H, I]" "well_formed w_ih"
    and whh: "tshape w_hh = [4 * H, P]" "well_formed w_hh"
    and bi: "tshape b_ih = [4 * H]" "well_formed b_ih"
    and bh: "tshape b_hh = [4 * H]" "well_formed b_hh"
    and whr: "tshape w_hr = [P, H]" "well_formed w_hr"
    and B: "B \<noteq> Suc 0" and H: "H \<noteq> Suc 0" and P: "P \<noteq> Suc 0"
    and sc: "sc = [B, H] \<or> sc = [Suc 0, B, H]"
    and h: "well_formed h" "prod_list (tshape h) = B * P"
    and c: "tshape c = sc" "well_formed c"
    and out: "well_formed out" "tshape out = [B, T, P]"
  shows "lstm_proj_step data B H (Some (P, tile_batch B (unsqueeze_first w_hr)))
           (tile_batch B (unsqueeze_first w_ih)) (tile_batch B (unsqueeze_first w_hh))
           b_ih b_hh t (h, c, out) =
         Inr (of_rows [B, P] P (\<lambda>b. fst (lstmp_cell_spec H (matrix_rows (4 * H) I w_ih)
                  (matrix_rows (4 * H) P w_hh) (tdata b_ih) (tdata b_hh) (matrix_rows P H w_hr)
                  (row P b h, row H b c) (row I (b * T + t) data))),
              of_rows sc H (\<lambda>b. snd (lstmp_cell_spec H (matrix_rows (4 * H) I w_ih)
                  (matrix_rows (4 * H) P w_hh) (tdata b_ih) (tdata b_hh) (matrix_rows P H w_hr)
                  (row P b h, row H b c) (row I (b * T + t) data))),
              of_rows [B, T, P] P (\<lambda>i. if i mod T = t
                 then fst (lstmp_cell_spec H (matrix_rows (4 * H) I w_ih)
                        (matrix_rows (4 * H) P w_hh) (tdata b_ih) (tdata b_hh) (matrix_rows P H w_hr)
                        (row P (i div T) h, row H (i div T) c) (row I (i div T * T + t) data))
                 else row P i out))"
proof -
  let ?px = "\<lambda>b. matvec (matrix_rows (4 * H) I w_ih) (row I (b * T + t) data)"
  let ?ph = "\<lambda>b. matvec (matrix_rows (4 * H) P w_hh) (row P b h)"
  let ?z = "\<lambda>b. vadd (vadd (vadd (?px b) (tdata b_ih)) (?ph b)) (tdata b_hh)"
  let ?u = "\<lambda>b. fst (lstm_update_spec H (?z b) (row H b c))"
  let ?v = "\<lambda>b. snd (lstm_update_spec H (?z b) (row H b c))"
  let ?p = "\<lambda>b. matvec (matrix_rows P H w_hr) (?u b)"
  have lbi: "length (tdata b_ih) = 4 * H" using bi by (simp add: well_formed_def)
  have lbh: "length (tdata b_hh) = 4 * H" using bh by (simp add: well_formed_def)
  have psc: "prod_list sc = B * H" using sc by auto
  have lrow: "length (row H b c) = H" if "b < B" for b
    using row_bound [OF that, of H] c psc by (intro length_row) (simp add: well_formed_def)
  have lz: "length (?z b) = 4 * H" for b using lbi lbh by simp
  have lu: "length (?u b) = H" if "b < B" for b
    using lz lrow [OF that] by (rule lstm_update_spec_length)
  have 1: "rnn_products data B P (tile_batch B (unsqueeze_first w_ih))
             (tile_batch B (unsqueeze_first w_hh)) t h
           = Inr (of_rows [B, 4 * H, Suc 0] (4 * H) ?px, of_rows [B, 4 * H, Suc 0] (4 * H) ?ph)"
    by (rule rnn_products_closed [OF data t wih whh h])
  have 2: "lstm_gates H (of_rows [B, 4 * H, Suc 0] (4 * H) ?px)
             (of_rows [B, 4 * H, Suc 0] (4 * H) ?ph) b_ih b_hh c
           = Inr (of_rows sc H ?u, of_rows sc H ?v)"
    by (rule lstm_gates_closed [OF B sc bi bh c]) simp_all
  have 3: "lstm_project (tile_batch B (unsqueeze_first w_hr)) (of_rows sc H ?u)
           = Inr (of_rows [B, P] P ?p)"
    using B H P sc whr lu by (rule lstm_project_closed)
  have 4: "setitem_time out t (of_rows [B, P] P ?p)
           = Inr (of_rows [B, T, P] P (\<lambda>i. if i mod T = t then ?p (i div T) else row P i out))"
    by (rule setitem_of_rows [OF _ B t out]) simp
  have "lstm_proj_step data B H (Some (P, tile_batch B (unsqueeze_first w_hr)))
           (tile_batch B (unsqueeze_first w_ih)) (tile_batch B (unsqueeze_first w_hh))
           b_ih b_hh t (h, c, out)
        = Inr (of_rows [B, P] P ?p, of_rows sc H ?v,
               of_rows [B, T, P] P (\<lambda>i. if i mod T = t then ?p (i div T) else row P i out))"
    by (simp only: lstm_proj_step_fragments 1 2 3 4 ebind_Inr prod.case)
  then show ?thesis
    by (simp add: lstmp_cell_spec_def lstm_cell_spec_def lstm_z_spec_def Let_def cong: if_cong)
qed

lemma lstmp_state_spec_0 [simp]: "lstmp_state_spec H W_ih W_hh b_ih b_hh W_hr xs s 0 = s"
  by (simp add: lstmp_state_spec_def)

lemma lstmp_state_spec_Suc:
  "n < length xs \<Longrightarrow> lstmp_state_spec H W_ih W_hh b_ih b_hh W_hr xs s (Suc n) =
     lstmp_cell_spec H W_ih W_hh b_ih b_hh W_hr
       (lstmp_state_spec H W_ih W_hh b_ih b_hh W_hr xs s n) (xs ! n)"
  by (simp add: lstmp_state_spec_def take_Suc_conv_app_nth)

lemma lstm_proj_loop:
  assumes data: "tshape data = [B, T, I]" "well_formed data"
    and wih: "tshape w_ih = [4 * H, I]" "well_formed w_ih"
    and whh: "tshape w_hh = [4 * H, P]" "well_formed w_hh"
    and bi: "tshape b_ih = [4 * H]" "well_formed b_ih"
    and bh: "tshape b_hh = [4 * H]" "well_formed b_hh"
    and whr: "tshape w_hr = [P, H]" "well_formed w_hr"
    and B: "B \<noteq> Suc 0" and H: "H \<noteq> Suc 0" and P: "P \<noteq> Suc 0"
    and h0: "well_formed h0" "prod_list (tshape h0) = B * P"
    and c0: "well_formed c0" "tshape c0 = [B, H] \<or> tshape c0 = [Suc 0, B, H]"
    and out0: "well_formed out0" "tshape out0 = [B, T, P]"
  defines "S \<equiv> \<lambda>b. lstmp_state_spec H (matrix_rows (4 * H) I w_ih) (matrix_rows (4 * H) P w_hh)
                    (tdata b_ih) (tdata b_hh) (matrix_rows P H w_hr) (batch_inputs T I data b)
                    (row P b h0, row H b c0)"
  shows "\<exists>h c out.
           eloop (lstm_proj_step data B H (Some (P, tile_batch B (unsqueeze_first w_hr)))
                    (tile_batch B (unsqueeze_first w_ih))
                    (tile_batch B (unsqueeze_first w_hh)) b_ih b_hh) [0..<T] (h0, c0, out0)
             = Inr (h, c, out) \<and>
           well_formed h \<and> prod_list (tshape h) = B * P \<and>
           (T = 0 \<longrightarrow> h = h0 \<and> c = c0) \<and>
           well_formed c \<and> tshape c = tshape c0 \<and> well_formed out \<and> tshape out = [B, T, P] \<and>
           (\<forall>b<B. row P b h = fst (S b T) \<and> row H b c = snd (S b T)) \<and>
           (\<forall>b<B. \<forall>t<T. row P (b * T + t) out = fst (S b (Suc t)))"
proof -
  let ?Wih = "matrix_rows (4 * H) I w_ih" and ?Whh = "matrix_rows (4 * H) P w_hh"
  let ?Whr = "matrix_rows P H w_hr"
  let ?body = "lstm_proj_step data B H (Some (P, tile_batch B (unsqueeze_first w_hr)))
                 (tile_batch B (unsqueeze_first w_ih))
                 (tile_batch B (unsqueeze_first w_hh)) b_ih b_hh"
  define Q where "Q = (\<lambda>n (s :: tensor \<times> tensor \<times> tensor). case s of (h, c, out) \<Rightarrow>
           well_formed h \<and> prod_list (tshape h) = B * P \<and>
           (n = 0 \<longrightarrow> h = h0 \<and> c = c0) \<and>
           well_formed c \<and> tshape c = tshape c0 \<and> well_formed out \<and> tshape out = [B, T, P] \<and>
           (\<forall>b<B. row P b h = fst (S b n) \<and> row H b c = snd (S b n)) \<and>
           (\<forall>b<B. \<forall>t<n. row P (b * T + t) out = fst (S b (Suc t))))"
  have lbi: "length (tdata b_ih) = 4 * H" using bi by (simp add: well_formed_def)
  have lbh: "length (tdata b_hh) = 4 * H" using bh by (simp add: well_formed_def)
  have psc: "prod_list (tshape c0) = B * H" using c0(2) by auto
  have pbp: "prod_list [B, P] = B * P" by simp
  have init: "Q 0 (h0, c0, out0)"
    using h0 c0 out0 by (simp add: Q_def S_def)
  have step: "\<exists>s'. ?body n s = Inr s' \<and> Q (Suc n) s'" if n: "n < T" and Qn: "Q n s" for n s
  proof -
    obtain h c out where s: "s = (h, c, out)" by (cases s)
    from Qn have h: "well_formed h" "prod_list (tshape h) = B * P"
      and c: "tshape c = tshape c0" "well_formed c"
      and out: "well_formed out" "tshape out = [B, T, P]"
      and rows: "\<And>b. b < B \<Longrightarrow> row P b h = fst (S b n) \<and> row H b c = snd (S b n)"
      and orows: "\<And>b t. b < B \<Longrightarrow> t < n \<Longrightarrow> row P (b * T + t) out = fst (S b (Suc t))"
      by (simp_all add: Q_def s)
    let ?cell = "\<lambda>b. lstmp_cell_spec H ?Wih ?Whh (tdata b_ih) (tdata b_hh) ?Whr
                    (row P b h, row H b c) (row I (b * T + n) data)"
    have lrow: "length (row H b c) = H" if "b < B" for b
      using row_bound [OF that, of H] c psc by (intro length_row) (simp add: well_formed_def)
    have lcell: "length (fst (?cell b)) = P" "length (snd (?cell b)) = H" if "b < B" for b
      using lbi lbh lrow [OF that] by (simp_all add: lstmp_cell_spec_length)
    have cell: "?cell b = S b (Suc n)" if "b < B" for b
      using rows [OF that] n by (simp add: S_def lstmp_state_spec_Suc)
    let ?h' = "of_rows [B, P] P (\<lambda>b. fst (?cell b))"
    let ?c' = "of_rows (tshape c0) H (\<lambda>b. snd (?cell b))"
    let ?out' = "of_rows [B, T, P] P (\<lambda>i. if i mod T = n then fst (?cell (i div T))
                   else row P i out)"
    have eq: "?body n s = Inr (?h', ?c', ?out')"
      unfolding s
      by (rule lstm_proj_step_closed [OF data n wih whh bi bh whr B H P c0(2) h c out])
    have r1: "row P b ?h' = fst (S b (Suc n))" "row H b ?c' = snd (S b (Suc n))" if "b < B" for b
    proof -
      have "row P b ?h' = fst (?cell b)"
        using pbp that lcell(1) [OF that] by (rule row_of_rows)
      then show "row P b ?h' = fst (S b (Suc n))" by (simp only: cell [OF that])
      have "row H b ?c' = snd (?cell b)"
        using psc that lcell(2) [OF that] by (rule row_of_rows)
      then show "row H b ?c' = snd (S b (Suc n))" by (simp only: cell [OF that])
    qed
    have r2: "row P (b * T + t) ?out' = fst (S b (Suc t))" if b: "b < B" and t: "t < Suc n" for b t
    proof -
      have tT: "t < T" using t n by simp
      have i: "b * T + t < B * T"
        using idx_less [of "b * Suc 0" B "Suc 0" t T] b tT by simp
      have lo: "length (tdata out) = B * T * P" using out by (simp add: well_formed_def mult.assoc)
      have "Suc (b * T + t) * P \<le> length (tdata out)" using row_bound [OF i, of P] lo by simp
      then have lr: "length (row P (b * T + t) out) = P" by (rule length_row)
      have dm: "(b * T + t) div T = b" "(b * T + t) mod T = t" using tT by simp_all
      have l: "length (if (b * T + t) mod T = n then fst (?cell ((b * T + t) div T))
                   else row P (b * T + t) out) = P"
        unfolding dm using lcell(1) [OF b] lr by simp
      have "row P (b * T + t) ?out' = (if (b * T + t) mod T = n then fst (?cell ((b * T + t) div T))
                   else row P (b * T + t) out)"
      proof (rule row_of_rows [where B = "B * T"])
        show "prod_list [B, T, P] = B * T * P" by (simp add: mult.assoc)
        show "b * T + t < B * T" by (rule i)
        show "length (if (b * T + t) mod T = n then fst (?cell ((b * T + t) div T))
                   else row P (b * T + t) out) = P" by (rule l)
      qed
      also have "\<dots> = fst (S b (Suc t))"
        unfolding dm using t cell [OF b] orows [OF b, of t] by (cases "t = n") simp_all
      finally show ?thesis .
    qed
    have "Q (Suc n) (?h', ?c', ?out')"
      using psc r1 r2 by (simp add: Q_def)
    then show ?thesis using eq by blast
  qed
  obtain s where s: "eloop ?body [0..<T] (h0, c0, out0) = Inr s" "Q T s"
    using eloop_invariant [of Q "(h0, c0, out0)" T ?body, OF init step] by blast
  obtain h c out where "s = (h, c, out)" by (cases s)
  then show ?thesis using s by (auto simp add: Q_def)
qed


lemma row_reshape: "row n b (t\<lparr>tshape := s\<rparr>) = row n b t"
  by (simp add: row_def)

lemma tensor_rows_eqI:
  assumes "well_formed a" "well_formed c" "tshape a = tshape c" "prod_list (tshape c) = B * n"
    and "\<And>b. b < B \<Longrightarrow> row n b a = row n b c"
  shows "a = c"
proof -
  have pa: "prod_list (tshape a) = B * n" using assms(3,4) by simp
  have "a = of_rows (tshape a) n (\<lambda>b. row n b a)"
    by (rule of_rows_row [OF assms(1) pa, symmetric])
  also have "\<dots> = of_rows (tshape a) n (\<lambda>b. row n b c)"
    using pa assms(5) by (rule of_rows_cong_eq)
  also have "\<dots> = of_rows (tshape c) n (\<lambda>b. row n b c)"
    by (simp only: assms(3))
  also have "\<dots> = c" by (rule of_rows_row [OF assms(2,4)])
  finally show ?thesis .
qed

lemma lstmp_trace_0:
  "lstmp_trace T I H P data h0 c0 w_ih w_hh b_ih b_hh w_hr b 0 = (row P b h0, row H b c0)"
  by (simp add: lstmp_trace_def)

lemma lstmp_trace_Suc:
  "t < T \<Longrightarrow> lstmp_trace T I H P data h0 c0 w_ih w_hh b_ih b_hh w_hr b (Suc t) =
     lstmp_cell_spec H (matrix_rows (4 * H) I w_ih) (matrix_rows (4 * H) P w_hh)
       (tdata b_ih) (tdata b_hh) (matrix_rows P H w_hr)
       (lstmp_trace T I H P data h0 c0 w_ih w_hh b_ih b_hh w_hr b t) (row I (b * T + t) data)"
  by (simp add: lstmp_trace_def lstmp_state_spec_Suc)

lemma lstm_forward_proj_refines:
  assumes data: "tshape data = [B, T, I]" "well_formed data"
    and wih: "tshape w_ih = [4 * H, I]" "well_formed w_ih"
    and whh: "tshape w_hh = [4 * H, P]" "well_formed w_hh"
    and bi: "tshape b_ih = [4 * H]" "well_formed b_ih"
    and bh: "tshape b_hh = [4 * H]" "well_formed b_hh"
    and whr: "tshape w_hr = [P, H]" "well_formed w_hr"
    and B: "B \<noteq> 1" and H: "H \<noteq> 1" and P: "P \<noteq> 1"
    and h0: "well_formed h0" "prod_list (tshape h0) = B * P"
    and c0: "well_formed c0" "tshape c0 = [B, H] \<or> tshape c0 = [1, B, H]"
  shows "\<exists>out h c.
           lstm_forward_proj data (h0, c0) w_ih w_hh b_ih b_hh (Some w_hr) = Inr (out, (h, c)) \<and>
           well_formed h \<and> tshape h = [1, B, P] \<and>
           (T = 0 \<longrightarrow> c = c0) \<and>
           well_formed c \<and> tshape c = tshape c0 \<and> well_formed out \<and> tshape out = [B, T, P] \<and>
           (\<forall>b<B. row P b h = fst (lstmp_trace T I H P data h0 c0 w_ih w_hh b_ih b_hh w_hr b T) \<and>
                  row H b c = snd (lstmp_trace T I H P data h0 c0 w_ih w_hh b_ih b_hh w_hr b T)) \<and>
           (\<forall>b<B. \<forall>t<T. row P (b * T + t) out =
                  fst (lstmp_trace T I H P data h0 c0 w_ih w_hh b_ih b_hh w_hr b (Suc t)))"
proof -
  have B': "B \<noteq> Suc 0" and H': "H \<noteq> Suc 0" and P': "P \<noteq> Suc 0" using B H P by simp_all
  have c0': "tshape c0 = [B, H] \<or> tshape c0 = [Suc 0, B, H]" using c0(2) by simp
  have o: "well_formed (zeros [B, T, P])" "tshape (zeros [B, T, P]) = [B, T, P]"
    by (simp_all add: zeros_def)
  obtain h c out where r:
    "eloop (lstm_proj_step data B H (Some (P, tile_batch B (unsqueeze_first w_hr)))
              (tile_batch B (unsqueeze_first w_ih))
              (tile_batch B (unsqueeze_first w_hh)) b_ih b_hh) [0..<T]
        (h0, c0, zeros [B, T, P]) = Inr (h, c, out)"
    "well_formed h" "prod_list (tshape h) = B * P" "T = 0 \<longrightarrow> h = h0 \<and> c = c0"
    "well_formed c" "tshape c = tshape c0" "well_formed out" "tshape out = [B, T, P]"
    "\<forall>b<B. row P b h = fst (lstmp_trace T I H P data h0 c0 w_ih w_hh b_ih b_hh w_hr b T) \<and>
           row H b c = snd (lstmp_trace T I H P data h0 c0 w_ih w_hh b_ih b_hh w_hr b T)"
    "\<forall>b<B. \<forall>t<T. row P (b * T + t) out =
           fst (lstmp_trace T I H P data h0 c0 w_ih w_hh b_ih b_hh w_hr b (Suc t))"
    using lstm_proj_loop [OF data wih whh bi bh whr B' H' P' h0 c0(1) c0' o]
    unfolding lstmp_trace_def by blast
  let ?h = "h\<lparr>tshape := [1, B, P]\<rparr>"
  have "lstm_forward_proj data (h0, c0) w_ih w_hh b_ih b_hh (Some w_hr) = Inr (out, (?h, c))"
    using data(1) wih(1) whr(1) r(1,3) by (simp add: lstm_forward_proj_def Let_def reshape_def)
  moreover have "well_formed ?h" using r(2,3) by (simp add: well_formed_def)
  moreover have "tshape ?h = [1, B, P]" by simp
  moreover have "row P b ?h = row P b h" for b by (rule row_reshape)
  ultimately show ?thesis using r(4-10) by (intro exI [of _ out] exI [of _ ?h] exI [of _ c]) simp
qed

lemma lstmp_trace_cell_length:
  assumes "tshape b_ih = [4 * H]" "well_formed b_ih" "tshape b_hh = [4 * H]" "well_formed b_hh"
    and "well_formed c0" "prod_list (tshape c0) = B * H" "b < B" "t \<le> T"
  shows "length (snd (lstmp_trace T I H P data h0 c0 w_ih w_hh b_ih b_hh w_hr b t)) = H"
  using assms(8)
proof (induction t)
  case 0
  have "Suc b * H \<le> length (tdata c0)"
    using row_bound [OF assms(7), of H] assms(5,6) by (simp add: well_formed_def)
  then show ?case by (simp add: lstmp_trace_0 length_row)
next
  case (Suc t)
  have l: "length (tdata b_ih) = 4 * H" "length (tdata b_hh) = 4 * H"
    using assms(1-4) by (simp_all add: well_formed_def)
  from Suc show ?case by (simp add: lstmp_trace_Suc lstmp_cell_spec_length l)
qed

lemma lstmp_trace_cell_first:
  assumes "T \<le> 1"
  shows "snd (lstmp_trace T I H H data h0 c0 w_ih w_hh b_ih b_hh w_hr b T) =
         snd (lstm_trace T I H data h0 c0 w_ih w_hh b_ih b_hh b T)"
proof (cases T)
  case 0
  then show ?thesis by (simp add: lstmp_trace_0 lstm_trace_0)
next
  case (Suc n)
  then have T: "T = Suc 0" using assms by simp
  show ?thesis unfolding T
    by (simp add: lstmp_trace_Suc lstm_trace_Suc lstmp_trace_0 lstm_trace_0 lstmp_cell_spec_def
        Let_def)
qed

text \<open>
  Claim C4, for \<open>B\<close>, \<open>H\<close> and \<open>P\<close> other than 1 and sequences of at most one step where
  the values of the cell state are compared.  With a projection matrix of shape \<open>(P, H)\<close>,
  recurrent weights of shape \<open>(4H, P)\<close> and initial states of shapes \<open>(1, B, P)\<close> and
  \<open>(1, B, H)\<close>, the second \<^verbatim>\<open>lstm_forward\<close> returns; the final hidden state has shape
  \<open>(1, B, P)\<close> and the final cell state has shape \<open>(1, B, H)\<close>; at every step the cell state
  of each batch element has \<open>H\<close> components and is the cell state that the unprojected cell
  of section 4.1 computes from the previous (projected) state; and when \<open>P = H\<close> and
  \<open>T \<le> 1\<close> the final cell state is the one that the first \<^verbatim>\<open>lstm_forward\<close> returns on the
  same arguments.  For two or more steps the values differ in general, because the projected
  hidden state enters the gates of the next step.
\<close>

theorem lstm_forward_proj_cell_state:
  assumes "tshape data = [B, T, I]" "well_formed data"
    and "tshape w_ih = [4 * H, I]" "well_formed w_ih"
    and "tshape w_hh = [4 * H, P]" "well_formed w_hh"
    and "tshape b_ih = [4 * H]" "well_formed b_ih"
    and "tshape b_hh = [4 * H]" "well_formed b_hh"
    and "tshape w_hr = [P, H]" "well_formed w_hr"
    and "B \<noteq> 1" "H \<noteq> 1" "P \<noteq> 1"
    and "well_formed h0" "tshape h0 = [1, B, P]"
    and "well_formed c0" "tshape c0 = [1, B, H]"
  shows "\<exists>out h_T c_T.
           lstm_forward_proj data (h0, c0) w_ih w_hh b_ih b_hh (Some w_hr) = Inr (out, (h_T, c_T)) \<and>
           tshape h_T = [1, B, P] \<and> tshape c_T = [1, B, H] \<and>
           (\<forall>b<B.
              (\<forall>t\<le>T. length (snd (lstmp_trace T I H P data h0 c0 w_ih w_hh b_ih b_hh w_hr b t)) = H) \<and>
              (\<forall>t<T. snd (lstmp_trace T I H P data h0 c0 w_ih w_hh b_ih b_hh w_hr b (Suc t)) =
                 snd (lstm_cell_spec H (matrix_rows (4 * H) I w_ih) (matrix_rows (4 * H) P w_hh)
                        (tdata b_ih) (tdata b_hh)
                        (lstmp_trace T I H P data h0 c0 w_ih w_hh b_ih b_hh w_hr b t)
                        (row I (b * T + t) data))) \<and>
              row H b c_T = snd (lstmp_trace T I H P data h0 c0 w_ih w_hh b_ih b_hh w_hr b T)) \<and>
           (P = H \<longrightarrow> T \<le> 1 \<longrightarrow>
              (\<exists>out' h_T'. lstm_forward data (h0, c0) w_ih w_hh b_ih b_hh = Inr (out', (h_T', c_T))))"
proof -
  have ph: "prod_list (tshape h0) = B * P" and pc: "prod_list (tshape c0) = B * H"
    and sc: "tshape c0 = [B, H] \<or> tshape c0 = [1, B, H]"
    using assms(17,19) by simp_all
  obtain out h c where r:
    "lstm_forward_proj data (h0, c0) w_ih w_hh b_ih b_hh (Some w_hr) = Inr (out, (h, c))"
    "tshape h = [1, B, P]" "well_formed c" "tshape c = tshape c0"
    "\<forall>b<B. row H b c = snd (lstmp_trace T I H P data h0 c0 w_ih w_hh b_ih b_hh w_hr b T)"
    using lstm_forward_proj_refines [OF assms(1-16) ph assms(18) sc] by blast
  have len: "length (snd (lstmp_trace T I H P data h0 c0 w_ih w_hh b_ih b_hh w_hr b t)) = H"
    if "b < B" "t \<le> T" for b t
    using assms(7-10,18) pc that by (rule lstmp_trace_cell_length)
  have plain: "\<exists>out' h'. lstm_forward data (h0, c0) w_ih w_hh b_ih b_hh = Inr (out', (h', c))"
    if PH: "P = H" and T: "T \<le> 1"
  proof -
    have ph': "prod_list (tshape h0) = B * H" and whh: "tshape w_hh = [4 * H, H]"
      using ph assms(5) PH by simp_all
    obtain out' h' c' where q:
      "lstm_forward data (h0, c0) w_ih w_hh b_ih b_hh = Inr (out', (h', c'))"
      "well_formed c'" "tshape c' = tshape c0"
      "\<forall>b<B. row H b c' = snd (lstm_trace T I H data h0 c0 w_ih w_hh b_ih b_hh b T)"
      using lstm_forward_refines [OF assms(1-4) whh assms(6-10,13,16) ph' assms(18) sc] by blast
    have "c' = c"
    proof (rule tensor_rows_eqI [where B = B and n = H])
      show "well_formed c'" "well_formed c" by (rule q(2), rule r(3))
      show "tshape c' = tshape c" using q(3) r(4) by simp
      show "prod_list (tshape c) = B * H" using r(4) pc by simp
      show "row H b c' = row H b c" if "b < B" for b
        using that q(4) r(5) lstmp_trace_cell_first [OF T, of I H data h0 c0 w_ih w_hh b_ih b_hh w_hr b]
        unfolding PH by simp
    qed
    then show ?thesis using q(1) by blast
  qed
  have "tshape c = [1, B, H]" using r(4) assms(19) by simp
  then show ?thesis
    using r(1,2,5) len plain by (intro exI [of _ out] exI [of _ h] exI [of _ c])
      (simp add: lstmp_trace_Suc lstmp_cell_spec_def Let_def)
qed

theorem lstm_forward_proj_cell_state_witness:
  "lstm_forward_proj (zeros [2, 1, 1]) (zeros [1, 2, 2], mk [1, 2, 2] (\<lambda>k. 1))
      (zeros [8, 1]) (zeros [8, 2]) (zeros [8]) (zeros [8]) (Some (mk [2, 2] (\<lambda>k. 1)))
   = Inr (\<lparr>tshape = [2, 1, 2], tdata = [tanh (1 / 2), tanh (1 / 2), tanh (1 / 2), tanh (1 / 2)]\<rparr>,
          \<lparr>tshape = [1, 2, 2], tdata = [tanh (1 / 2), tanh (1 / 2), tanh (1 / 2), tanh (1 / 2)]\<rparr>,
          \<lparr>tshape = [1, 2, 2], tdata = [1 / 2, 1 / 2, 1 / 2, 1 / 2]\<rparr>)"
proof -
  have h: "tshape (zeros [2, 1, 1]) = [2, 1, 1]" "well_formed (zeros [2, 1, 1])"
    "tshape (zeros [8, 1]) = [4 * 2, 1]" "well_formed (zeros [8, 1])"
    "tshape (zeros [8, 2]) = [4 * 2, 2]" "well_formed (zeros [8, 2])"
    "tshape (zeros [8]) = [4 * 2]" "well_formed (zeros [8])"
    "tshape (zeros [8]) = [4 * 2]" "well_formed (zeros [8])"
    "tshape (mk [2, 2] (\<lambda>k. 1)) = [2, 2]" "well_formed (mk [2, 2] (\<lambda>k. 1))"
    "(2::nat) \<noteq> 1" "(2::nat) \<noteq> 1" "(2::nat) \<noteq> 1"
    "well_formed (zeros [1, 2, 2])" "tshape (zeros [1, 2, 2]) = [1, 2, 2]"
    "well_formed (mk [1, 2, 2] (\<lambda>k. 1))" "tshape (mk [1, 2, 2] (\<lambda>k. 1)) = [1, 2, 2]"
    by simp_all
  have e: "lstm_forward_proj (zeros [2, 1, 1]) (zeros [1, 2, 2], mk [1, 2, 2] (\<lambda>k. 1))
      (zeros [8, 1]) (zeros [8, 2]) (zeros [8]) (zeros [8]) (Some (mk [2, 2] (\<lambda>k. 1)))
   = Inr (\<lparr>tshape = [2, 1, 2], tdata = [tanh (1 / 2), tanh (1 / 2), tanh (1 / 2), tanh (1 / 2)]\<rparr>,
          \<lparr>tshape = [1, 2, 2], tdata = [tanh (1 / 2), tanh (1 / 2), tanh (1 / 2), tanh (1 / 2)]\<rparr>,
          \<lparr>tshape = [1, 2, 2], tdata = [1 / 2, 1 / 2, 1 / 2, 1 / 2]\<rparr>)"
    by (simp add: lstm_forward_proj_def lstm_proj_step_def tensor_eval)
  from lstm_forward_proj_cell_state [OF h] e show ?thesis by blast
qed

theorem lstm_forward_proj_cell_state_counterexample:
  "map_sum id (\<lambda>(out, h_T, c_T). tdata c_T)
     (lstm_forward_proj (zeros [2, 2, 1]) (zeros [1, 2, 2], mk [1, 2, 2] (\<lambda>k. 1)) (zeros [8, 1])
        (mk [8, 2] (\<lambda>k. if k = 8 \<or> k = 11 then 1 else 0)) (zeros [8]) (zeros [8])
        (Some (zeros [2, 2])))
   = Inr [1 / 4, 1 / 4, 1 / 4, 1 / 4] \<and>
   map_sum id (\<lambda>(out, h_T, c_T). tdata c_T)
     (lstm_forward (zeros [2, 2, 1]) (zeros [1, 2, 2], mk [1, 2, 2] (\<lambda>k. 1)) (zeros [8, 1])
        (mk [8, 2] (\<lambda>k. if k = 8 \<or> k = 11 then 1 else 0)) (zeros [8]) (zeros [8]))
   = Inr [1 / 4 + tanh (tanh (1 / 2) / 2) / 2, 1 / 4 + tanh (tanh (1 / 2) / 2) / 2,
          1 / 4 + tanh (tanh (1 / 2) / 2) / 2, 1 / 4 + tanh (tanh (1 / 2) / 2) / 2] \<and>
   1 / 4 + tanh (tanh (1 / 2) / 2) / 2 \<noteq> (1 / 4 :: real)"
  by (simp add: lstm_forward_proj_def lstm_proj_step_def lstm_forward_def lstm_step_def tensor_eval)

lemma lstm_forward_proj_unbound:
  assumes "tshape data = [B, T, I]" "0 < T" "tshape w_ih = [R, I]"
  shows "lstm_forward_proj data (h0, c0) w_ih w_hh b_ih b_hh None = Inl UnboundLocalError"
proof -
  have "lstm_proj_step data B (R div 4) None (tile_batch B (unsqueeze_first w_ih)) bw
          b_ih b_hh 0 (h0, c0, out) = Inl UnboundLocalError" for bw out
    using assms
    by (simp add: lstm_proj_step_def select_time_3d tile_unsqueeze bmm_matvec)
  then show ?thesis
    using assms by (simp add: lstm_forward_proj_def Let_def eloop_first)
qed

text \<open>
  Claim C3 does not hold of the code.  Called without a projection matrix, the second
  \<^verbatim>\<open>lstm_forward\<close> binds neither \<^verbatim>\<open>p_size\<close> nor \<^verbatim>\<open>batch_w_hr\<close>, and the first iteration of
  the time loop reads \<^verbatim>\<open>p_size\<close> in \<^verbatim>\<open>prev_h.reshape(bs, p_size)\<close>.  On the input below
  (\<open>B = 2\<close>, \<open>T = 1\<close>, \<open>I = 1\<close>, \<open>H = 1\<close>) the call raises, while the first \<^verbatim>\<open>lstm_forward\<close>
  returns on the same arguments.
\<close>

theorem lstm_forward_proj_without_projection_raises:
  "lstm_forward_proj (zeros [2, 1, 1]) (zeros [1, 2, 1], mk [1, 2, 1] (\<lambda>k. 1))
      (zeros [4, 1]) (zeros [4, 1]) (zeros [4]) (zeros [4]) None = Inl UnboundLocalError \<and>
   lstm_forward (zeros [2, 1, 1]) (zeros [1, 2, 1], mk [1, 2, 1] (\<lambda>k. 1))
      (zeros [4, 1]) (zeros [4, 1]) (zeros [4]) (zeros [4])
   = Inr (\<lparr>tshape = [2, 1, 1], tdata = [tanh (1 / 2) / 2, tanh (1 / 2) / 2]\<rparr>,
          \<lparr>tshape = [1, 2, 1], tdata = [tanh (1 / 2) / 2, tanh (1 / 2) / 2]\<rparr>,
          \<lparr>tshape = [1, 2, 1], tdata = [1 / 2, 1 / 2]\<rparr>)"
  by (simp add: lstm_forward_proj_def lstm_proj_step_def lstm_forward_def lstm_step_def tensor_eval)

lemma lstm_project_hidden1:
  assumes "B \<noteq> Suc 0" "sc = [B, Suc 0] \<or> sc = [Suc 0, B, Suc 0]"
  shows "lstm_project bw (of_rows sc (Suc 0) u) = Inl RuntimeError"
  using assms
  by (auto simp add: lstm_project_def squeeze_def unsqueeze_last_def bmm_def of_rows_def mk_def
      split: list.splits)

lemma lstm_forward_proj_hidden1:
  assumes data: "tshape data = [B, T, I]" "well_formed data" and T: "0 < T"
    and wih: "tshape w_ih = [4 * H, I]" "well_formed w_ih"
    and whh: "tshape w_hh = [4 * H, P]" "well_formed w_hh"
    and bi: "tshape b_ih = [4 * H]" "well_formed b_ih"
    and bh: "tshape b_hh = [4 * H]" "well_formed b_hh"
    and whr: "tshape w_hr = [P, H]"
    and B: "B \<noteq> 1" and H: "H = 1"
    and h0: "well_formed h0" "prod_list (tshape h0) = B * P"
    and c0: "well_formed c0" "tshape c0 = [B, H] \<or> tshape c0 = [1, B, H]"
  shows "lstm_forward_proj data (h0, c0) w_ih w_hh b_ih b_hh (Some w_hr) = Inl RuntimeError"
proof -
  have B': "B \<noteq> Suc 0" using B by simp
  have sc: "tshape c0 = [B, H] \<or> tshape c0 = [Suc 0, B, H]" using c0(2) by simp
  have sc1: "tshape c0 = [B, Suc 0] \<or> tshape c0 = [Suc 0, B, Suc 0]" using c0(2) H by simp
  have 1: "rnn_products data B P (tile_batch B (unsqueeze_first w_ih))
             (tile_batch B (unsqueeze_first w_hh)) 0 h0
           = Inr (of_rows [B, 4 * H, Suc 0] (4 * H)
                    (\<lambda>b. matvec (matrix_rows (4 * H) I w_ih) (row I (b * T + 0) data)),
                  of_rows [B, 4 * H, Suc 0] (4 * H)
                    (\<lambda>b. matvec (matrix_rows (4 * H) P w_hh) (row P b h0)))"
    by (rule rnn_products_closed [OF data T wih whh h0])
  have 2: "lstm_gates H (of_rows [B, 4 * H, Suc 0] (4 * H)
                    (\<lambda>b. matvec (matrix_rows (4 * H) I w_ih) (row I (b * T + 0) data)))
             (of_rows [B, 4 * H, Suc 0] (4 * H)
                    (\<lambda>b. matvec (matrix_rows (4 * H) P w_hh) (row P b h0))) b_ih b_hh c0
           = Inr (of_rows (tshape c0) H (\<lambda>b. fst (lstm_update_spec H
                 (vadd (vadd (vadd (matvec (matrix_rows (4 * H) I w_ih) (row I (b * T + 0) data))
                    (tdata b_ih)) (matvec (matrix_rows (4 * H) P w_hh) (row P b h0))) (tdata b_hh))
                 (row H b c0))),
              of_rows (tshape c0) H (\<lambda>b. snd (lstm_update_spec H
                 (vadd (vadd (vadd (matvec (matrix_rows (4 * H) I w_ih) (row I (b * T + 0) data))
                    (tdata b_ih)) (matvec (matrix_rows (4 * H) P w_hh) (row P b h0))) (tdata b_hh))
                 (row H b c0))))"
    by (rule lstm_gates_closed [OF B' sc bi bh refl c0(1)]) simp_all
  have 3: "lstm_project bw (of_rows (tshape c0) H u) = Inl RuntimeError" for bw u
    unfolding H One_nat_def using B' sc1 by (rule lstm_project_hidden1)
  have "lstm_proj_step data B H (Some (P, tile_batch B (unsqueeze_first w_hr)))
          (tile_batch B (unsqueeze_first w_ih)) (tile_batch B (unsqueeze_first w_hh))
          b_ih b_hh 0 (h0, c0, out) = Inl RuntimeError" for out
    by (simp only: lstm_proj_step_fragments 1 2 3 ebind_Inr ebind_Inl prod.case)
  then show ?thesis
    using data(1) wih(1) whr T by (simp add: lstm_forward_proj_def Let_def eloop_first)
qed

lemma sum_list_delta:
  "i < n \<Longrightarrow> (\<Sum>l\<leftarrow>[0..<n]. if i = l then f l else (0::real)) = f i"
  by (simp add: sum_list_distinct_conv_sum_set)

lemma matvec_identity:
  assumes "length v = H"
  shows "matvec (matrix_rows H H (mk [H, H] (\<lambda>k. if k div H = k mod H then 1 else 0))) v = v"
proof (rule nth_equalityI)
  show "length (matvec (matrix_rows H H (mk [H, H] (\<lambda>k. if k div H = k mod H then 1 else 0))) v)
          = length v"
    using assms by simp
  fix i assume "i < length (matvec (matrix_rows H H
                  (mk [H, H] (\<lambda>k. if k div H = k mod H then 1 else 0))) v)"
  then have i: "i < H" by simp
  let ?w = "mk [H, H] (\<lambda>k. if k div H = k mod H then 1 else (0::real))"
  have "matvec (matrix_rows H H ?w) v ! i = (\<Sum>l\<leftarrow>[0..<H]. tdata ?w ! (i * H + l) * v ! l)"
    using i _ assms by (rule matvec_entry_vector) simp
  also have "\<dots> = (\<Sum>l\<leftarrow>[0..<H]. if i = l then v ! l else 0)"
  proof (rule sum_upt_cong)
    fix l assume l: "l < H"
    have "i * H + l < H * H" using idx_less [of "i * Suc 0" H "Suc 0" l H] i l by simp
    then show "tdata ?w ! (i * H + l) * v ! l = (if i = l then v ! l else 0)"
      using l by (simp add: nth_tdata_mk)
  qed
  also have "\<dots> = v ! i" using i by (rule sum_list_delta)
  finally show "matvec (matrix_rows H H ?w) v ! i = v ! i" .
qed

lemma lstmp_trace_identity:
  assumes bi: "tshape b_ih = [4 * H]" "well_formed b_ih"
    and bh: "tshape b_hh = [4 * H]" "well_formed b_hh"
    and c0: "well_formed c0" "prod_list (tshape c0) = B * H" and b: "b < B" and t: "t \<le> T"
  shows "lstmp_trace T I H H data h0 c0 w_ih w_hh b_ih b_hh
           (mk [H, H] (\<lambda>k. if k div H = k mod H then 1 else 0)) b t
         = lstm_trace T I H data h0 c0 w_ih w_hh b_ih b_hh b t"
  using t
proof (induction t)
  case 0
  show ?case by (simp add: lstmp_trace_0 lstm_trace_0)
next
  case (Suc t)
  let ?e = "mk [H, H] (\<lambda>k. if k div H = k mod H then 1 else (0::real))"
  let ?s = "lstm_trace T I H data h0 c0 w_ih w_hh b_ih b_hh b t"
  have t: "t < T" "t \<le> T" using Suc.prems by simp_all
  have eq: "lstmp_trace T I H H data h0 c0 w_ih w_hh b_ih b_hh ?e b t = ?s"
    using Suc.IH t(2) by simp
  have l: "length (tdata b_ih) = 4 * H" "length (tdata b_hh) = 4 * H"
    using bi bh by (simp_all add: well_formed_def)
  have "length (snd (lstmp_trace T I H H data h0 c0 w_ih w_hh b_ih b_hh ?e b t)) = H"
    using bi bh c0 b t(2) by (rule lstmp_trace_cell_length)
  then have ls: "length (snd ?s) = H" by (simp only: eq)
  have "length (fst (lstm_cell_spec H (matrix_rows (4 * H) I w_ih) (matrix_rows (4 * H) H w_hh)
          (tdata b_ih) (tdata b_hh) ?s (row I (b * T + t) data))) = H"
    using l ls by (intro lstm_cell_spec_length) simp_all
  then show ?case
    using t(1) by (simp add: lstmp_trace_Suc lstm_trace_Suc eq lstmp_cell_spec_def Let_def
        matvec_identity)
qed

lemma lstm_forward_proj_identity_batch:
  assumes data: "tshape data = [B, T, I]" "well_formed data"
    and wih: "tshape w_ih = [4 * H, I]" "well_formed w_ih"
    and whh: "tshape w_hh = [4 * H, H]" "well_formed w_hh"
    and bi: "tshape b_ih = [4 * H]" "well_formed b_ih"
    and bh: "tshape b_hh = [4 * H]" "well_formed b_hh"
    and B: "B \<noteq> 1" and H: "H \<noteq> 1"
    and h0: "well_formed h0" "tshape h0 = [1, B, H]"
    and c0: "well_formed c0" "tshape c0 = [1, B, H]"
  shows "lstm_forward_proj data (h0, c0) w_ih w_hh b_ih b_hh
           (Some (mk [H, H] (\<lambda>k. if k div H = k mod H then 1 else 0)))
         = lstm_forward data (h0, c0) w_ih w_hh b_ih b_hh"
proof -
  let ?e = "mk [H, H] (\<lambda>k. if k div H = k mod H then 1 else (0::real))"
  have ph: "prod_list (tshape h0) = B * H" and pc: "prod_list (tshape c0) = B * H"
    and sc: "tshape c0 = [B, H] \<or> tshape c0 = [1, B, H]"
    using h0(2) c0(2) by simp_all
  have e: "tshape ?e = [H, H]" "well_formed ?e" by simp_all
  have tr: "lstmp_trace T I H H data h0 c0 w_ih w_hh b_ih b_hh ?e b t
         = lstm_trace T I H data h0 c0 w_ih w_hh b_ih b_hh b t" if "b < B" "t \<le> T" for b t
    using bi bh c0(1) pc that by (rule lstmp_trace_identity)
  obtain out h c where r:
    "lstm_forward_proj data (h0, c0) w_ih w_hh b_ih b_hh (Some ?e) = Inr (out, (h, c))"
    "well_formed h" "tshape h = [1, B, H]" "well_formed c" "tshape c = tshape c0"
    "well_formed out" "tshape out = [B, T, H]"
    "\<And>b. b < B \<Longrightarrow> row H b h = fst (lstmp_trace T I H H data h0 c0 w_ih w_hh b_ih b_hh ?e b T)"
    "\<And>b. b < B \<Longrightarrow> row H b c = snd (lstmp_trace T I H H data h0 c0 w_ih w_hh b_ih b_hh ?e b T)"
    "\<And>b t. b < B \<Longrightarrow> t < T \<Longrightarrow> row H (b * T + t) out =
           fst (lstmp_trace T I H H data h0 c0 w_ih w_hh b_ih b_hh ?e b (Suc t))"
    using lstm_forward_proj_refines [OF data wih whh bi bh e B H H h0(1) ph c0(1) sc] by blast
  obtain out' h' c' where q:
    "lstm_forward data (h0, c0) w_ih w_hh b_ih b_hh = Inr (out', (h', c'))"
    "well_formed h'" "tshape h' = (if T = 0 then tshape h0 else tshape c0)"
    "well_formed c'" "tshape c' = tshape c0" "well_formed out'" "tshape out' = [B, T, H]"
    "\<And>b. b < B \<Longrightarrow> row H b h' = fst (lstm_trace T I H data h0 c0 w_ih w_hh b_ih b_hh b T)"
    "\<And>b. b < B \<Longrightarrow> row H b c' = snd (lstm_trace T I H data h0 c0 w_ih w_hh b_ih b_hh b T)"
    "\<And>b t. b < B \<Longrightarrow> t < T \<Longrightarrow> row H (b * T + t) out' =
           fst (lstm_trace T I H data h0 c0 w_ih w_hh b_ih b_hh b (Suc t))"
    using lstm_forward_refines [OF data wih whh bi bh B h0(1) ph c0(1) sc] by blast
  have "h = h'"
  proof (rule tensor_rows_eqI [where B = B and n = H])
    show "well_formed h" "well_formed h'" by (rule r(2), rule q(2))
    show "tshape h = tshape h'" using r(3) q(3) h0(2) c0(2) by simp
    show "prod_list (tshape h') = B * H" using q(3) h0(2) c0(2) by simp
    show "row H b h = row H b h'" if "b < B" for b
      using r(8) [OF that] q(8) [OF that] tr [OF that, of T] by simp
  qed
  moreover have "c = c'"
  proof (rule tensor_rows_eqI [where B = B and n = H])
    show "well_formed c" "well_formed c'" by (rule r(4), rule q(4))
    show "tshape c = tshape c'" using r(5) q(5) by simp
    show "prod_list (tshape c') = B * H" using q(5) pc by simp
    show "row H b c = row H b c'" if "b < B" for b
      using r(9) [OF that] q(9) [OF that] tr [OF that, of T] by simp
  qed
  moreover have "out = out'"
  proof (rule tensor_rows_eqI [where B = "B * T" and n = H])
    show "well_formed out" "well_formed out'" by (rule r(6), rule q(6))
    show "tshape out = tshape out'" using r(7) q(7) by simp
    show "prod_list (tshape out') = B * T * H" using q(7) by (simp add: mult.assoc)
    show "row H i out = row H i out'" if i: "i < B * T" for i
    proof -
      have T: "0 < T" using i by (cases T) simp_all
      have b: "i div T < B" using i by (simp add: less_mult_imp_div_less)
      have t: "i mod T < T" using T by simp
      have "row H (i div T * T + i mod T) out = row H (i div T * T + i mod T) out'"
        using r(10) [OF b t] q(10) [OF b t] tr [OF b, of "Suc (i mod T)"] t by simp
      then show ?thesis by simp
    qed
  qed
  ultimately show ?thesis using r(1) q(1) by simp
qed

lemma lstm_forward_proj_batch1:
  assumes "tshape data = [1, T, I]" "well_formed data" "0 < T"
    and "well_formed h0" "prod_list (tshape h0) = P"
    and "tshape w_ih = [4 * H, I]" "well_formed w_ih" "tshape w_hh = [4 * H, P]" "well_formed w_hh"
    and "tshape b_ih = [4 * H]" "tshape b_hh = [4 * H]" "tshape w_hr = [P, H]"
  shows "lstm_forward_proj data (h0, c0) w_ih w_hh b_ih b_hh (Some w_hr) = Inl IndexError"
proof -
  have p1: "rnn_products data (Suc 0) P (tile_batch (Suc 0) (unsqueeze_first w_ih))
           (tile_batch (Suc 0) (unsqueeze_first w_hh)) 0 h0 =
         Inr (of_rows [Suc 0, 4 * H, Suc 0] (4 * H)
                (\<lambda>b. matvec (matrix_rows (4 * H) I w_ih) (row I (b * T + 0) data)),
              of_rows [Suc 0, 4 * H, Suc 0] (4 * H)
                (\<lambda>b. matvec (matrix_rows (4 * H) P w_hh) (row P b h0)))"
    using assms by (intro rnn_products_closed) simp_all
  have "lstm_proj_step data (Suc 0) H (Some (P, bw)) (tile_batch (Suc 0) (unsqueeze_first w_ih))
           (tile_batch (Suc 0) (unsqueeze_first w_hh)) b_ih b_hh 0 (h0, c0, out) = Inl IndexError"
    for out bw
    using assms(10,11) by (simp add: lstm_proj_step_fragments p1 lstm_gates_batch1)
  then show ?thesis
    using assms(1,3,6,12) by (simp add: lstm_forward_proj_def Let_def eloop_first)
qed

lemma lstm_forward_proj_identity:
  assumes data: "tshape data = [B, T, I]" "well_formed data"
    and wih: "tshape w_ih = [4 * H, I]" "well_formed w_ih"
    and whh: "tshape w_hh = [4 * H, H]" "well_formed w_hh"
    and bi: "tshape b_ih = [4 * H]" "well_formed b_ih"
    and bh: "tshape b_hh = [4 * H]" "well_formed b_hh"
    and H: "H \<noteq> 1"
    and h0: "well_formed h0" "tshape h0 = [1, B, H]"
    and c0: "well_formed c0" "tshape c0 = [1, B, H]"
  shows "lstm_forward_proj data (h0, c0) w_ih w_hh b_ih b_hh
           (Some (mk [H, H] (\<lambda>k. if k div H = k mod H then 1 else 0)))
         = lstm_forward data (h0, c0) w_ih w_hh b_ih b_hh"
proof (cases "B = 1")
  case False
  then show ?thesis by (rule lstm_forward_proj_identity_batch [OF data wih whh bi bh _ H h0 c0])
next
  case True
  show ?thesis
  proof (cases "T = 0")
    case True
    have "h0\<lparr>tshape := [Suc 0, B, H]\<rparr> = h0" using h0(2) by (cases h0) simp
    then show ?thesis
      using data(1) wih(1) h0(2) True
      by (simp add: lstm_forward_proj_def lstm_forward_def Let_def reshape_def)
  next
    case False
    then have T: "0 < T" by simp
    have d: "tshape data = [1, T, I]" using data(1) \<open>B = 1\<close> by simp
    have ph: "prod_list (tshape h0) = H" using h0(2) \<open>B = 1\<close> by simp
    have "lstm_forward data (h0, c0) w_ih w_hh b_ih b_hh = Inl IndexError"
      using d data(2) T h0(1) ph wih whh bi(1) bh(1) by (rule lstm_forward_batch1)
    moreover have "lstm_forward_proj data (h0, c0) w_ih w_hh b_ih b_hh
           (Some (mk [H, H] (\<lambda>k. if k div H = k mod H then 1 else 0))) = Inl IndexError"
      using d data(2) T h0(1) ph wih whh bi(1) bh(1) by (rule lstm_forward_proj_batch1) simp
    ultimately show ?thesis by simp
  qed
qed

text \<open>
  Claim C5 does not hold of the code when \<open>H = 1\<close>.  The projection is computed as
  \<^verbatim>\<open>torch.bmm(batch_w_hr, prev_h.squeeze().unsqueeze(-1))\<close>; for \<open>H = 1\<close> the \<^verbatim>\<open>squeeze()\<close>
  also drops the hidden dimension, the second argument of \<^verbatim>\<open>bmm\<close> is two-dimensional and the
  call raises (\<open>lstm_forward_proj_hidden1\<close>), whereas the same function flattens \<^verbatim>\<open>prev_h\<close>
  with \<^verbatim>\<open>reshape(bs, p_size)\<close> before the recurrent product.  On the input below (\<open>B = 3\<close>,
  \<open>T = 1\<close>, \<open>I = 1\<close>, \<open>H = P = 1\<close>, \<open>W_hr\<close> the \<open>1 \<times> 1\<close> identity) the first \<^verbatim>\<open>lstm_forward\<close>
  returns on the same arguments.  For every other hidden size the two functions agree
  (\<open>lstm_forward_proj_identity\<close>).
\<close>

theorem lstm_forward_proj_identity_hidden1_raises:
  "lstm_forward_proj (zeros [3, 1, 1]) (zeros [1, 3, 1], mk [1, 3, 1] (\<lambda>k. 1))
      (zeros [4, 1]) (zeros [4, 1]) (zeros [4]) (zeros [4]) (Some (mk [1, 1] (\<lambda>k. 1)))
     = Inl RuntimeError \<and>
   lstm_forward (zeros [3, 1, 1]) (zeros [1, 3, 1], mk [1, 3, 1] (\<lambda>k. 1))
      (zeros [4, 1]) (zeros [4, 1]) (zeros [4]) (zeros [4])
   = Inr (\<lparr>tshape = [3, 1, 1], tdata = [tanh (1 / 2) / 2, tanh (1 / 2) / 2, tanh (1 / 2) / 2]\<rparr>,
          \<lparr>tshape = [1, 3, 1], tdata = [tanh (1 / 2) / 2, tanh (1 / 2) / 2, tanh (1 / 2) / 2]\<rparr>,
          \<lparr>tshape = [1, 3, 1], tdata = [1 / 2, 1 / 2, 1 / 2]\<rparr>)"
  by (simp add: lstm_forward_proj_def lstm_proj_step_def lstm_forward_def lstm_step_def tensor_eval)

end
